theory Spec2Isabelle
  imports Complex_Main "HOL-Library.Word" "HOL-Library.Monad_Syntax"
begin

unbundle bit_operations_syntax

section \<open>Design limits and C arrays\<close>

text \<open>
  The embedding follows \<^verbatim>\<open>src/win/wjoydxnu.c\<close>, the DirectInput joystick driver.
  C \<^verbatim>\<open>int\<close> values are \<^typ>\<open>int\<close> (no value of the driver comes near the 32-bit
  limits), a \<^verbatim>\<open>DWORD\<close> is a \<^typ>\<open>32 word\<close>, a nullable \<^verbatim>\<open>char *\<close> is a
  \<^typ>\<open>string option\<close> (\<^term>\<open>None\<close> is \<^verbatim>\<open>NULL\<close>), and a C array is a list of the
  declared length. An access outside an array is undefined behaviour in C: the model
  makes it the result \<^term>\<open>None\<close>, so that every function which may index an array
  returns an option and "returns \<^term>\<open>Some\<close>" means "stays inside its arrays".
\<close>

definition MAX_JOYSTICKS :: int where
  "MAX_JOYSTICKS = 8"

definition MAX_SLIDERS :: int where
  "MAX_SLIDERS = 2"

definition MAX_POVS :: int where
  "MAX_POVS = 4"

definition MAX_BUTTONS :: int where
  "MAX_BUTTONS = 32"

definition DEVICE_BUFFER_SIZE :: nat where
  "DEVICE_BUFFER_SIZE = 10"

text \<open>
  Modelled from the spec: the array bounds of the generic joystick record
  (\<^verbatim>\<open>_AL_MAX_JOYSTICK_AXES\<close>, \<^verbatim>\<open>_AL_MAX_JOYSTICK_STICKS\<close>, \<^verbatim>\<open>_AL_MAX_JOYSTICK_BUTTONS\<close>),
  declared in a header that is not under src/. The spec gives 1 to 3 axes per stick,
  2 + MAX_SLIDERS + MAX_HATS sticks and 32 buttons; \<^verbatim>\<open>joydx_init\<close> asserts the last two
  as lower bounds.
\<close>

definition AL_MAX_JOYSTICK_AXES :: int where
  "AL_MAX_JOYSTICK_AXES = 3"

definition AL_MAX_JOYSTICK_STICKS :: int where
  "AL_MAX_JOYSTICK_STICKS = 2 + MAX_SLIDERS + MAX_POVS"

definition AL_MAX_JOYSTICK_BUTTONS :: int where
  "AL_MAX_JOYSTICK_BUTTONS = MAX_BUTTONS"

text \<open>
  Modelled from the spec: the two stick flags of the public joystick header (not under
  src/); only their being two distinct bits matters.
\<close>

definition AL_JOYFLAG_DIGITAL :: int where
  "AL_JOYFLAG_DIGITAL = 1"

definition AL_JOYFLAG_ANALOGUE :: int where
  "AL_JOYFLAG_ANALOGUE = 2"

definition arr_get :: "'a list \<Rightarrow> int \<Rightarrow> 'a option" where
  "arr_get xs i = (if 0 \<le> i \<and> i < int (length xs) then Some (xs ! nat i) else None)"

definition arr_set :: "'a list \<Rightarrow> int \<Rightarrow> 'a \<Rightarrow> 'a list option" where
  "arr_set xs i v = (if 0 \<le> i \<and> i < int (length xs) then Some (xs[nat i := v]) else None)"

text \<open>
  A counted loop \<^verbatim>\<open>for (i = lo; i < n; i++) body\<close> whose body may fault.
\<close>

function for_loop :: "int \<Rightarrow> int \<Rightarrow> (int \<Rightarrow> 's \<Rightarrow> 's option) \<Rightarrow> 's \<Rightarrow> 's option" where
  "for_loop i n body s =
     (if i < n then (case body i s of None \<Rightarrow> None | Some s' \<Rightarrow> for_loop (i + 1) n body s')
      else Some s)"
  by pat_completeness auto
termination
  by (relation "measure (\<lambda>(i, n, body, s). nat (n - i))") auto

declare for_loop.simps [simp del]

section \<open>Data model\<close>

subsection \<open>Capability map (\<^verbatim>\<open>CAPS_AND_NAMES\<close>)\<close>

record CAPS_AND_NAMES =
  have_x :: bool
  name_x :: "string option"
  have_y :: bool
  name_y :: "string option"
  have_z :: bool
  name_z :: "string option"
  have_rx :: bool
  name_rx :: "string option"
  have_ry :: bool
  name_ry :: "string option"
  have_rz :: bool
  name_rz :: "string option"
  num_sliders :: int
  name_slider :: "string option list"
  num_povs :: int
  name_pov :: "string option list"
  num_buttons :: int
  name_button :: "string option list"

record AXIS_MAPPING =
  stick :: int
  axis :: int

subsection \<open>Generic joystick record\<close>

text \<open>
  Modelled from the spec: the generic joystick record (\<^verbatim>\<open>AL_JOYSTICK\<close> with its
  \<^verbatim>\<open>_AL_JOYSTICK_INFO\<close>) and the state snapshot (\<^verbatim>\<open>AL_JOYSTATE\<close>) are declared in headers
  that are not under src/. The fields are the ones the driver reads and writes:
  \<^verbatim>\<open>info.num_sticks\<close>, \<^verbatim>\<open>info.stick[s].flags\<close>, \<^verbatim>\<open>.num_axes\<close>, \<^verbatim>\<open>.axis[a].name\<close>, \<^verbatim>\<open>.name\<close>,
  \<^verbatim>\<open>info.num_buttons\<close>, \<^verbatim>\<open>info.button[b].name\<close>, \<^verbatim>\<open>joystate.stick[s].axis[a]\<close> and
  \<^verbatim>\<open>joystate.button[b]\<close>. An axis or button entry holds only its name, so it is the
  name itself.
\<close>

record AL_JOYSTICK_STICK_INFO =
  flags :: int
  num_axes :: int
  stick_axis :: "string option list"
  stick_name :: "string option"

record AL_JOYSTICK_INFO =
  num_sticks :: int
  info_num_buttons :: int
  info_stick :: "AL_JOYSTICK_STICK_INFO list"
  info_button :: "string option list"

record AL_JOYSTATE =
  state_stick :: "real list list"
  state_button :: "int list"

subsection \<open>Event source\<close>

datatype event_type =
  AL_EVENT_JOYSTICK_AXIS | AL_EVENT_JOYSTICK_BUTTON_DOWN | AL_EVENT_JOYSTICK_BUTTON_UP

text \<open>
  The fields the driver fills in an event. The timestamp, read from the framework's
  clock, is left out: nothing below depends on it.
\<close>

record JOYSTICK_EVENT =
  ev_type :: event_type
  ev_stick :: int
  ev_axis :: int
  ev_pos :: real
  ev_button :: int

text \<open>
  Modelled from the spec: the event source is framework code that is not under src/.
  The spec (4.5) says: if no subscriber wants the event type nothing is emitted;
  otherwise an event slot is obtained, which may fail when the queue is full. The model
  keeps the event types some subscriber wants, the number of unused event slots, and
  the events emitted so far, oldest first. Its lock is not modelled.
\<close>

record AL_EVENT_SOURCE =
  es_wanted :: "event_type list"
  es_unused :: nat
  es_emitted :: "JOYSTICK_EVENT list"

definition al_event_source_needs_to_generate_event :: "AL_EVENT_SOURCE \<Rightarrow> event_type \<Rightarrow> bool" where
  "al_event_source_needs_to_generate_event src t = (t \<in> set (es_wanted src))"

definition al_event_source_get_unused_event :: "AL_EVENT_SOURCE \<Rightarrow> AL_EVENT_SOURCE option" where
  "al_event_source_get_unused_event src =
     (if es_unused src = 0 then None else Some (src\<lparr>es_unused := es_unused src - 1\<rparr>))"

definition al_event_source_emit_event :: "AL_EVENT_SOURCE \<Rightarrow> JOYSTICK_EVENT \<Rightarrow> AL_EVENT_SOURCE" where
  "al_event_source_emit_event src ev = src\<lparr>es_emitted := es_emitted src @ [ev]\<rparr>"

text \<open>
  Modelled from the spec: \<^verbatim>\<open>take\<close> initialises the event source (no subscriber yet, as
  the comment of \<^verbatim>\<open>joydx_get_joystick\<close> says) and \<^verbatim>\<open>release\<close> tears it down.
\<close>

definition al_event_source_init :: AL_EVENT_SOURCE where
  "al_event_source_init = \<lparr>es_wanted = [], es_unused = 0, es_emitted = []\<rparr>"

definition al_event_source_free :: "AL_EVENT_SOURCE \<Rightarrow> AL_EVENT_SOURCE" where
  "al_event_source_free src = \<lparr>es_wanted = [], es_unused = 0, es_emitted = []\<rparr>"

record AL_JOYSTICK =
  es :: AL_EVENT_SOURCE
  info :: AL_JOYSTICK_INFO
  num :: int

subsection \<open>Device record (\<^verbatim>\<open>AL_JOYSTICK_DIRECTX\<close>)\<close>

text \<open>
  \<^verbatim>\<open>device\<close> is the DirectInput interface pointer, a number; 0 is the null pointer.
\<close>

record AL_JOYSTICK_DIRECTX =
  parent :: AL_JOYSTICK
  caps_and_names :: CAPS_AND_NAMES
  gotten :: bool
  joystate :: AL_JOYSTATE
  device :: nat
  x_mapping :: AXIS_MAPPING
  y_mapping :: AXIS_MAPPING
  z_mapping :: AXIS_MAPPING
  rx_mapping :: AXIS_MAPPING
  ry_mapping :: AXIS_MAPPING
  rz_mapping :: AXIS_MAPPING
  slider_mapping :: "AXIS_MAPPING list"
  pov_mapping_stick :: "int list"

text \<open>The all-zero records that \<^verbatim>\<open>memset\<close> (and static initialisation) leave.\<close>

definition zero_caps :: CAPS_AND_NAMES where
  "zero_caps =
     \<lparr>have_x = False, name_x = None, have_y = False, name_y = None,
      have_z = False, name_z = None, have_rx = False, name_rx = None,
      have_ry = False, name_ry = None, have_rz = False, name_rz = None,
      num_sliders = 0, name_slider = replicate (nat MAX_SLIDERS) None,
      num_povs = 0, name_pov = replicate (nat MAX_POVS) None,
      num_buttons = 0, name_button = replicate (nat MAX_BUTTONS) None\<rparr>"

definition zero_mapping :: AXIS_MAPPING where
  "zero_mapping = \<lparr>stick = 0, axis = 0\<rparr>"

definition zero_stick_info :: AL_JOYSTICK_STICK_INFO where
  "zero_stick_info =
     \<lparr>flags = 0, num_axes = 0,
      stick_axis = replicate (nat AL_MAX_JOYSTICK_AXES) None, stick_name = None\<rparr>"

definition zero_info :: AL_JOYSTICK_INFO where
  "zero_info =
     \<lparr>num_sticks = 0, info_num_buttons = 0,
      info_stick = replicate (nat AL_MAX_JOYSTICK_STICKS) zero_stick_info,
      info_button = replicate (nat AL_MAX_JOYSTICK_BUTTONS) None\<rparr>"

definition zero_joystate :: AL_JOYSTATE where
  "zero_joystate =
     \<lparr>state_stick = replicate (nat AL_MAX_JOYSTICK_STICKS) (replicate (nat AL_MAX_JOYSTICK_AXES) 0),
      state_button = replicate (nat AL_MAX_JOYSTICK_BUTTONS) 0\<rparr>"

definition zero_joystick :: AL_JOYSTICK_DIRECTX where
  "zero_joystick =
     \<lparr>parent = \<lparr>es = \<lparr>es_wanted = [], es_unused = 0, es_emitted = []\<rparr>, info = zero_info, num = 0\<rparr>,
      caps_and_names = zero_caps, gotten = False, joystate = zero_joystate, device = 0,
      x_mapping = zero_mapping, y_mapping = zero_mapping, z_mapping = zero_mapping,
      rx_mapping = zero_mapping, ry_mapping = zero_mapping, rz_mapping = zero_mapping,
      slider_mapping = replicate (nat MAX_SLIDERS) zero_mapping,
      pov_mapping_stick = replicate (nat MAX_POVS) 0\<rparr>"

section \<open>Logical layout builder\<close>

definition default_name_x :: string where
  "default_name_x = ''X''"

definition default_name_y :: string where
  "default_name_y = ''Y''"

definition default_name_z :: string where
  "default_name_z = ''Z''"

definition default_name_rx :: string where
  "default_name_rx = ''RX''"

definition default_name_ry :: string where
  "default_name_ry = ''RY''"

definition default_name_rz :: string where
  "default_name_rz = ''RZ''"

definition default_name_stick :: string where
  "default_name_stick = ''stick''"

definition default_name_slider :: string where
  "default_name_slider = ''slider''"

definition default_name_hat :: string where
  "default_name_hat = ''hat''"

definition default_name_button :: "string list" where
  "default_name_button =
     [''B1'', ''B2'', ''B3'', ''B4'', ''B5'', ''B6'', ''B7'', ''B8'',
      ''B9'', ''B10'', ''B11'', ''B12'', ''B13'', ''B14'', ''B15'', ''B16'',
      ''B17'', ''B18'', ''B19'', ''B20'', ''B21'', ''B22'', ''B23'', ''B24'',
      ''B25'', ''B26'', ''B27'', ''B28'', ''B29'', ''B30'', ''B31'', ''B32'']"

text \<open>The macro \<^verbatim>\<open>OR(A, B)\<close>, \<^verbatim>\<open>(A) ? (A) : (B)\<close>, on a nullable name and a default.\<close>

definition OR_name :: "string option \<Rightarrow> string \<Rightarrow> string option" where
  "OR_name a b = (case a of Some s \<Rightarrow> Some s | None \<Rightarrow> Some b)"

text \<open>
  One axis block of \<^verbatim>\<open>fill_joystick_info_using_caps_and_names\<close> (the source writes it
  six times, lines 379 to 431, with \<^verbatim>\<open>N_STICK = info->num_sticks\<close> and
  \<^verbatim>\<open>N_AXIS = info->stick[N_STICK].num_axes\<close>): set the flags of stick \<^verbatim>\<open>N_STICK\<close>, name
  its axis \<^verbatim>\<open>N_AXIS\<close>, record (\<^verbatim>\<open>N_STICK\<close>, \<^verbatim>\<open>N_AXIS\<close>) as the mapping, \<^verbatim>\<open>N_AXIS++\<close>.
  The mapping is returned; the caller stores it in the field of its axis.
\<close>

definition add_axis ::
  "string option \<Rightarrow> string \<Rightarrow> AL_JOYSTICK_INFO \<Rightarrow> (AL_JOYSTICK_INFO \<times> AXIS_MAPPING) option" where
  "add_axis name dflt nfo = do {
     st \<leftarrow> arr_get (info_stick nfo) (num_sticks nfo);
     axes \<leftarrow> arr_set (stick_axis st) (num_axes st) (OR_name name dflt);
     sticks \<leftarrow> arr_set (info_stick nfo) (num_sticks nfo)
       (st\<lparr>flags := AL_JOYFLAG_DIGITAL OR AL_JOYFLAG_ANALOGUE,
           stick_axis := axes, num_axes := num_axes st + 1\<rparr>);
     Some (nfo\<lparr>info_stick := sticks\<rparr>, \<lparr>stick = num_sticks nfo, axis = num_axes st\<rparr>)
   }"

text \<open>
  The end of a stick group: \<^verbatim>\<open>info->stick[N_STICK].name = default_name_stick; N_STICK++\<close>.
\<close>

definition close_stick :: "AL_JOYSTICK_INFO \<Rightarrow> AL_JOYSTICK_INFO option" where
  "close_stick nfo = do {
     st \<leftarrow> arr_get (info_stick nfo) (num_sticks nfo);
     sticks \<leftarrow> arr_set (info_stick nfo) (num_sticks nfo)
       (st\<lparr>stick_name := Some default_name_stick\<rparr>);
     Some (nfo\<lparr>info_stick := sticks, num_sticks := num_sticks nfo + 1\<rparr>)
   }"

definition set_info :: "AL_JOYSTICK_DIRECTX \<Rightarrow> AL_JOYSTICK_INFO \<Rightarrow> AL_JOYSTICK_DIRECTX" where
  "set_info joy nfo = joy\<lparr>parent := (parent joy)\<lparr>info := nfo\<rparr>\<rparr>"

text \<open>Lines 377 to 405: the X, Y, Z axes make up the first stick.\<close>

definition fill_xyz :: "AL_JOYSTICK_DIRECTX \<Rightarrow> AL_JOYSTICK_DIRECTX option" where
  "fill_xyz joy0 =
     (let can = caps_and_names joy0 in
      if have_x can \<or> have_y can \<or> have_z can then do {
        joy1 \<leftarrow> (if have_x can then do {
            (nfo, m) \<leftarrow> add_axis (name_x can) default_name_x (info (parent joy0));
            Some ((set_info joy0 nfo)\<lparr>x_mapping := m\<rparr>) }
          else Some joy0);
        joy2 \<leftarrow> (if have_y can then do {
            (nfo, m) \<leftarrow> add_axis (name_y can) default_name_y (info (parent joy1));
            Some ((set_info joy1 nfo)\<lparr>y_mapping := m\<rparr>) }
          else Some joy1);
        joy3 \<leftarrow> (if have_z can then do {
            (nfo, m) \<leftarrow> add_axis (name_z can) default_name_z (info (parent joy2));
            Some ((set_info joy2 nfo)\<lparr>z_mapping := m\<rparr>) }
          else Some joy2);
        nfo \<leftarrow> close_stick (info (parent joy3));
        Some (set_info joy3 nfo) }
      else Some joy0)"

text \<open>Lines 407 to 435: the Rx, Ry, Rz axes make up the next stick.\<close>

definition fill_rxyz :: "AL_JOYSTICK_DIRECTX \<Rightarrow> AL_JOYSTICK_DIRECTX option" where
  "fill_rxyz joy0 =
     (let can = caps_and_names joy0 in
      if have_rx can \<or> have_ry can \<or> have_rz can then do {
        joy1 \<leftarrow> (if have_rx can then do {
            (nfo, m) \<leftarrow> add_axis (name_rx can) default_name_rx (info (parent joy0));
            Some ((set_info joy0 nfo)\<lparr>rx_mapping := m\<rparr>) }
          else Some joy0);
        joy2 \<leftarrow> (if have_ry can then do {
            (nfo, m) \<leftarrow> add_axis (name_ry can) default_name_ry (info (parent joy1));
            Some ((set_info joy1 nfo)\<lparr>ry_mapping := m\<rparr>) }
          else Some joy1);
        joy3 \<leftarrow> (if have_rz can then do {
            (nfo, m) \<leftarrow> add_axis (name_rz can) default_name_rz (info (parent joy2));
            Some ((set_info joy2 nfo)\<lparr>rz_mapping := m\<rparr>) }
          else Some joy2);
        nfo \<leftarrow> close_stick (info (parent joy3));
        Some (set_info joy3 nfo) }
      else Some joy0)"

text \<open>Lines 437 to 446: the body of the slider loop, one stick per slider.\<close>

definition fill_slider :: "int \<Rightarrow> AL_JOYSTICK_DIRECTX \<Rightarrow> AL_JOYSTICK_DIRECTX option" where
  "fill_slider i joy = do {
     let nfo = info (parent joy);
     st \<leftarrow> arr_get (info_stick nfo) (num_sticks nfo);
     axes \<leftarrow> arr_set (stick_axis st) 0 (Some '''');
     nm \<leftarrow> arr_get (name_slider (caps_and_names joy)) i;
     sticks \<leftarrow> arr_set (info_stick nfo) (num_sticks nfo)
       (st\<lparr>flags := AL_JOYFLAG_DIGITAL OR AL_JOYFLAG_ANALOGUE, num_axes := 1,
           stick_axis := axes, stick_name := OR_name nm default_name_slider\<rparr>);
     sm \<leftarrow> arr_set (slider_mapping joy) i \<lparr>stick = num_sticks nfo, axis = 0\<rparr>;
     Some ((set_info joy (nfo\<lparr>info_stick := sticks, num_sticks := num_sticks nfo + 1\<rparr>))
             \<lparr>slider_mapping := sm\<rparr>)
   }"

text \<open>Lines 448 to 457: the body of the POV loop, one two-axis stick per hat.\<close>

definition fill_pov :: "int \<Rightarrow> AL_JOYSTICK_DIRECTX \<Rightarrow> AL_JOYSTICK_DIRECTX option" where
  "fill_pov i joy = do {
     let nfo = info (parent joy);
     st \<leftarrow> arr_get (info_stick nfo) (num_sticks nfo);
     axes0 \<leftarrow> arr_set (stick_axis st) 0 (Some ''left/right'');
     axes1 \<leftarrow> arr_set axes0 1 (Some ''up/down'');
     nm \<leftarrow> arr_get (name_pov (caps_and_names joy)) i;
     sticks \<leftarrow> arr_set (info_stick nfo) (num_sticks nfo)
       (st\<lparr>flags := AL_JOYFLAG_DIGITAL, num_axes := 2,
           stick_axis := axes1, stick_name := OR_name nm default_name_hat\<rparr>);
     pm \<leftarrow> arr_set (pov_mapping_stick joy) i (num_sticks nfo);
     Some ((set_info joy (nfo\<lparr>info_stick := sticks, num_sticks := num_sticks nfo + 1\<rparr>))
             \<lparr>pov_mapping_stick := pm\<rparr>)
   }"

text \<open>Lines 463 to 466: the body of the button loop.\<close>

definition fill_button :: "int \<Rightarrow> AL_JOYSTICK_DIRECTX \<Rightarrow> AL_JOYSTICK_DIRECTX option" where
  "fill_button i joy = do {
     let nfo = info (parent joy);
     nm \<leftarrow> arr_get (name_button (caps_and_names joy)) i;
     dflt \<leftarrow> arr_get default_name_button i;
     buttons \<leftarrow> arr_set (info_button nfo) i (OR_name nm dflt);
     Some (set_info joy (nfo\<lparr>info_button := buttons\<rparr>))
   }"

definition fill_joystick_info_using_caps_and_names ::
  "AL_JOYSTICK_DIRECTX \<Rightarrow> AL_JOYSTICK_DIRECTX option" where
  "fill_joystick_info_using_caps_and_names joy0 = do {
     joy1 \<leftarrow> fill_xyz joy0;
     joy2 \<leftarrow> fill_rxyz joy1;
     joy3 \<leftarrow> for_loop 0 (num_sliders (caps_and_names joy2)) fill_slider joy2;
     joy4 \<leftarrow> for_loop 0 (num_povs (caps_and_names joy3)) fill_pov joy3;
     joy5 \<leftarrow> for_loop 0 (num_buttons (caps_and_names joy4)) fill_button joy4;
     Some (set_info joy5
       ((info (parent joy5))\<lparr>info_num_buttons := num_buttons (caps_and_names joy5)\<rparr>))
   }"

subsection \<open>The published schema and the layout the spec describes\<close>

text \<open>
  What the user sees of the generic record: the first \<^verbatim>\<open>num_sticks\<close> sticks, each with
  its name and the names of its first \<^verbatim>\<open>num_axes\<close> axes, and the first \<^verbatim>\<open>num_buttons\<close>
  button names.
\<close>

definition published_sticks :: "AL_JOYSTICK_INFO \<Rightarrow> (string option \<times> string option list) list" where
  "published_sticks nfo =
     map (\<lambda>st. (stick_name st, take (nat (num_axes st)) (stick_axis st)))
       (take (nat (num_sticks nfo)) (info_stick nfo))"

definition published_buttons :: "AL_JOYSTICK_INFO \<Rightarrow> string option list" where
  "published_buttons nfo = take (nat (info_num_buttons nfo)) (info_button nfo)"

text \<open>
  The layout in the spec's words (3, Logical schema, and 4.1), written independently
  of the source, to compare the source with. A stick is its name and the list of its
  axis names. An absent display name falls back to the canonical default; the default
  of button \<open>i\<close> (counted from 0) is the letter B followed by \<open>i + 1\<close> in decimal.
\<close>

definition spec_display_name :: "string option \<Rightarrow> string \<Rightarrow> string" where
  "spec_display_name n d = (case n of None \<Rightarrow> d | Some s \<Rightarrow> s)"

definition spec_stick_group :: "(bool \<times> string option \<times> string) list \<Rightarrow> (string \<times> string list) list" where
  "spec_stick_group axes =
     (let present = map (\<lambda>(h, n, d). spec_display_name n d) (filter fst axes)
      in if present = [] then [] else [(''stick'', present)])"

definition spec_sticks :: "CAPS_AND_NAMES \<Rightarrow> (string \<times> string list) list" where
  "spec_sticks can =
     spec_stick_group
       [(have_x can, name_x can, ''X''), (have_y can, name_y can, ''Y''),
        (have_z can, name_z can, ''Z'')] @
     spec_stick_group
       [(have_rx can, name_rx can, ''RX''), (have_ry can, name_ry can, ''RY''),
        (have_rz can, name_rz can, ''RZ'')] @
     map (\<lambda>n. (spec_display_name n ''slider'', [[]]))
       (take (nat (num_sliders can)) (name_slider can)) @
     map (\<lambda>n. (spec_display_name n ''hat'', [''left/right'', ''up/down'']))
       (take (nat (num_povs can)) (name_pov can))"

definition spec_decimal :: "nat \<Rightarrow> string" where
  "spec_decimal n =
     (if n < 10 then [''0123456789'' ! n]
      else [''0123456789'' ! (n div 10), ''0123456789'' ! (n mod 10)])"

definition spec_button_default :: "nat \<Rightarrow> string" where
  "spec_button_default i = ''B'' @ spec_decimal (i + 1)"

definition spec_buttons :: "CAPS_AND_NAMES \<Rightarrow> string list" where
  "spec_buttons can =
     map (\<lambda>(i, n). spec_display_name n (spec_button_default i))
       (enumerate 0 (take (nat (num_buttons can)) (name_button can)))"

text \<open>
  A published name is a non-null string: the spec's stick as the generic record holds it.
\<close>

definition published_form :: "string \<times> string list \<Rightarrow> string option \<times> string option list" where
  "published_form = (\<lambda>(n, axs). (Some n, map Some axs))"

text \<open>
  The capability maps the enumerator can build: the three counters within their
  arrays, the arrays of their declared lengths.
\<close>

definition caps_wf :: "CAPS_AND_NAMES \<Rightarrow> bool" where
  "caps_wf can \<longleftrightarrow>
     0 \<le> num_sliders can \<and> num_sliders can \<le> MAX_SLIDERS \<and>
     length (name_slider can) = nat MAX_SLIDERS \<and>
     0 \<le> num_povs can \<and> num_povs can \<le> MAX_POVS \<and>
     length (name_pov can) = nat MAX_POVS \<and>
     0 \<le> num_buttons can \<and> num_buttons can \<le> MAX_BUTTONS \<and>
     length (name_button can) = nat MAX_BUTTONS"

text \<open>
  Invariants of the builder: \<open>m\<close> sticks are in use, the stick array has its declared
  length, the slots from \<open>m\<close> on are still all-zero and no stick has more than three
  axes; the arrays beside it keep their lengths, and the capability map and the
  snapshot are not touched.
\<close>

definition sticks_ok :: "AL_JOYSTICK_INFO \<Rightarrow> nat \<Rightarrow> bool" where
  "sticks_ok nfo m \<longleftrightarrow>
     num_sticks nfo = int m \<and> length (info_stick nfo) = 8 \<and>
     (\<forall>k. m \<le> k \<and> k < 8 \<longrightarrow> info_stick nfo ! k = zero_stick_info) \<and>
     (\<forall>k < 8. num_axes (info_stick nfo ! k) \<le> 3)"

definition fill_frame :: "AL_JOYSTICK_DIRECTX \<Rightarrow> AL_JOYSTICK_DIRECTX \<Rightarrow> bool" where
  "fill_frame joy joy' \<longleftrightarrow>
     caps_and_names joy' = caps_and_names joy \<and>
     length (slider_mapping joy') = length (slider_mapping joy) \<and>
     length (pov_mapping_stick joy') = length (pov_mapping_stick joy) \<and>
     info_button (info (parent joy')) = info_button (info (parent joy)) \<and>
     info_num_buttons (info (parent joy')) = info_num_buttons (info (parent joy)) \<and>
     joystate joy' = joystate joy"

text \<open>
  A capability map to run the builder on: no X axis, a Y axis without a name, a Z axis
  named "Zed", one named slider, one unnamed hat and four buttons, the second named.
\<close>

definition example_caps :: CAPS_AND_NAMES where
  "example_caps = zero_caps
     \<lparr>have_y := True, have_z := True, name_z := Some ''Zed'',
      num_sliders := 1, name_slider := [Some ''Throttle'', None],
      num_povs := 1,
      num_buttons := 4,
      name_button := [None, Some ''Fire''] @ replicate 30 None\<rparr>"

section \<open>Event generation\<close>

definition set_es :: "AL_JOYSTICK_DIRECTX \<Rightarrow> AL_EVENT_SOURCE \<Rightarrow> AL_JOYSTICK_DIRECTX" where
  "set_es joy src = joy\<lparr>parent := (parent joy)\<lparr>es := src\<rparr>\<rparr>"

definition set_joystate :: "AL_JOYSTICK_DIRECTX \<Rightarrow> AL_JOYSTATE \<Rightarrow> AL_JOYSTICK_DIRECTX" where
  "set_joystate joy js = joy\<lparr>joystate := js\<rparr>"

text \<open>
  \<^verbatim>\<open>generate_axis_event\<close> (lines 1058 to 1077) and \<^verbatim>\<open>generate_button_event\<close> (lines 1085
  to 1104): return without an event when no subscriber wants the type or when no event
  slot is left; otherwise fill the slot and emit it.
\<close>

definition generate_axis_event ::
  "AL_JOYSTICK_DIRECTX \<Rightarrow> int \<Rightarrow> int \<Rightarrow> real \<Rightarrow> AL_JOYSTICK_DIRECTX" where
  "generate_axis_event joy st ax pos =
     (if \<not> al_event_source_needs_to_generate_event (es (parent joy)) AL_EVENT_JOYSTICK_AXIS
      then joy
      else case al_event_source_get_unused_event (es (parent joy)) of
             None \<Rightarrow> joy
           | Some src \<Rightarrow>
               set_es joy (al_event_source_emit_event src
                 \<lparr>ev_type = AL_EVENT_JOYSTICK_AXIS, ev_stick = st, ev_axis = ax,
                  ev_pos = pos, ev_button = 0\<rparr>))"

definition generate_button_event ::
  "AL_JOYSTICK_DIRECTX \<Rightarrow> int \<Rightarrow> event_type \<Rightarrow> AL_JOYSTICK_DIRECTX" where
  "generate_button_event joy button event_type =
     (if \<not> al_event_source_needs_to_generate_event (es (parent joy)) event_type
      then joy
      else case al_event_source_get_unused_event (es (parent joy)) of
             None \<Rightarrow> joy
           | Some src \<Rightarrow>
               set_es joy (al_event_source_emit_event src
                 \<lparr>ev_type = event_type, ev_stick = 0, ev_axis = 0,
                  ev_pos = 0, ev_button = button\<rparr>))"

section \<open>Handling one buffered delta\<close>

text \<open>
  \<^verbatim>\<open>handle_axis_event\<close> (lines 970 to 985). The \<^verbatim>\<open>DWORD\<close> is read as an \<^verbatim>\<open>int\<close>
  (\<^term>\<open>sint\<close>) and divided by 32767.0; the quotient is stored in a C \<^verbatim>\<open>float\<close>. Floats
  are modelled as the reals they denote, and the rounding of the quotient to the nearest
  \<^verbatim>\<open>float\<close> is the parameter \<open>to_float\<close>, about which the model assumes nothing.
\<close>

definition handle_axis_event ::
  "(real \<Rightarrow> real) \<Rightarrow> AL_JOYSTICK_DIRECTX \<Rightarrow> AXIS_MAPPING \<Rightarrow> 32 word \<Rightarrow> AL_JOYSTICK_DIRECTX option" where
  "handle_axis_event to_float joy axis_mapping raw =
     (let st = stick axis_mapping; ax = axis axis_mapping in
      if st < 0 \<or> st \<ge> num_sticks (info (parent joy)) then Some joy
      else do {
        si \<leftarrow> arr_get (info_stick (info (parent joy))) st;
        if ax < 0 \<or> ax \<ge> num_axes si then Some joy
        else do {
          let pos = to_float (real_of_int (sint raw) / 32767);
          row \<leftarrow> arr_get (state_stick (joystate joy)) st;
          row' \<leftarrow> arr_set row ax pos;
          sticks \<leftarrow> arr_set (state_stick (joystate joy)) st row';
          Some (generate_axis_event
                  (set_joystate joy ((joystate joy)\<lparr>state_stick := sticks\<rparr>)) st ax pos)
        }
      })"

text \<open>
  Modelled from the spec: the hat directions of the platform header (not under src/),
  in hundredths of a degree: 0 is up, 9000 right, 18000 down, 27000 left.
  \<^verbatim>\<open>JOY_POVFORWARD_WRAP\<close> is the source's own (line 205).
\<close>

definition JOY_POVFORWARD :: int where
  "JOY_POVFORWARD = 0"

definition JOY_POVRIGHT :: int where
  "JOY_POVRIGHT = 9000"

definition JOY_POVBACKWARD :: int where
  "JOY_POVBACKWARD = 18000"

definition JOY_POVLEFT :: int where
  "JOY_POVLEFT = 27000"

definition JOY_POVFORWARD_WRAP :: int where
  "JOY_POVFORWARD_WRAP = 36000"

text \<open>The two decision chains of \<^verbatim>\<open>handle_pov_event\<close>, lines 1005 to 1012 and 1014 to 1022.\<close>

definition pov_p0 :: "int \<Rightarrow> real" where
  "pov_p0 v =
     (if v > JOY_POVBACKWARD \<and> v < JOY_POVFORWARD_WRAP then - 1
      else if v > JOY_POVFORWARD \<and> v < JOY_POVBACKWARD then 1
      else 0)"

definition pov_p1 :: "int \<Rightarrow> real" where
  "pov_p1 v =
     (if (v > JOY_POVLEFT \<and> v \<le> JOY_POVFORWARD_WRAP) \<or> (v \<ge> JOY_POVFORWARD \<and> v < JOY_POVRIGHT)
      then - 1
      else if v > JOY_POVRIGHT \<and> v < JOY_POVLEFT then 1
      else 0)"

text \<open>\<^verbatim>\<open>handle_pov_event\<close> (lines 993 to 1029); \<^verbatim>\<open>int value = _value\<close> is \<^term>\<open>sint\<close>.\<close>

definition handle_pov_event ::
  "AL_JOYSTICK_DIRECTX \<Rightarrow> int \<Rightarrow> 32 word \<Rightarrow> AL_JOYSTICK_DIRECTX option" where
  "handle_pov_event joy st raw =
     (if st < 0 \<or> st \<ge> num_sticks (info (parent joy)) then Some joy
      else do {
        row \<leftarrow> arr_get (state_stick (joystate joy)) st;
        old_p0 \<leftarrow> arr_get row 0;
        old_p1 \<leftarrow> arr_get row 1;
        let p0 = pov_p0 (sint raw);
        row0 \<leftarrow> arr_set row 0 p0;
        let p1 = pov_p1 (sint raw);
        row1 \<leftarrow> arr_set row0 1 p1;
        sticks \<leftarrow> arr_set (state_stick (joystate joy)) st row1;
        let joy1 = set_joystate joy ((joystate joy)\<lparr>state_stick := sticks\<rparr>);
        let joy2 = (if old_p0 \<noteq> p0 then generate_axis_event joy1 st 0 p0 else joy1);
        Some (if old_p1 \<noteq> p1 then generate_axis_event joy2 st 1 p1 else joy2)
      })"

text \<open>
  \<^verbatim>\<open>handle_button_event\<close> (lines 1037 to 1050), with the bounds test as the source has
  it: \<^verbatim>\<open>button < 0 && button >= num_buttons\<close>.
\<close>

definition handle_button_event ::
  "AL_JOYSTICK_DIRECTX \<Rightarrow> int \<Rightarrow> bool \<Rightarrow> AL_JOYSTICK_DIRECTX option" where
  "handle_button_event joy button down =
     (if button < 0 \<and> button \<ge> info_num_buttons (info (parent joy)) then Some joy
      else if down then do {
        buttons \<leftarrow> arr_set (state_button (joystate joy)) button 32767;
        Some (generate_button_event
                (set_joystate joy ((joystate joy)\<lparr>state_button := buttons\<rparr>))
                button AL_EVENT_JOYSTICK_BUTTON_DOWN)
      }
      else do {
        buttons \<leftarrow> arr_set (state_button (joystate joy)) button 0;
        Some (generate_button_event
                (set_joystate joy ((joystate joy)\<lparr>state_button := buttons\<rparr>))
                button AL_EVENT_JOYSTICK_BUTTON_UP)
      })"

section \<open>The per-device drain\<close>

text \<open>
  Modelled from the spec: the HID backend (DirectInput) is not part of the repository.
  Its result codes are the ones the source tests, with one more for every other error.
\<close>

datatype HRESULT =
  DI_OK | DI_BUFFEROVERFLOW | DI_POLLEDDEVICE
  | DIERR_NOTACQUIRED | DIERR_INPUTLOST | DIERR_OTHER

fun FAILED :: "HRESULT \<Rightarrow> bool" where
  "FAILED DI_OK = False"
| "FAILED DI_BUFFEROVERFLOW = False"
| "FAILED DI_POLLEDDEVICE = False"
| "FAILED DIERR_NOTACQUIRED = True"
| "FAILED DIERR_INPUTLOST = True"
| "FAILED DIERR_OTHER = True"

text \<open>
  Modelled from the spec: the raw offset table of the backend's joystick data format
  (6, Raw offset table): the six axes, the two sliders and the four hats are 4-byte
  fields in this order from offset 0, and the 32 one-byte buttons follow contiguously.
\<close>

definition DIJOFS_X :: int where
  "DIJOFS_X = 0"

definition DIJOFS_Y :: int where
  "DIJOFS_Y = 4"

definition DIJOFS_Z :: int where
  "DIJOFS_Z = 8"

definition DIJOFS_RX :: int where
  "DIJOFS_RX = 12"

definition DIJOFS_RY :: int where
  "DIJOFS_RY = 16"

definition DIJOFS_RZ :: int where
  "DIJOFS_RZ = 20"

definition DIJOFS_SLIDER :: "int \<Rightarrow> int" where
  "DIJOFS_SLIDER n = 24 + 4 * n"

definition DIJOFS_POV :: "int \<Rightarrow> int" where
  "DIJOFS_POV n = 32 + 4 * n"

definition DIJOFS_BUTTON :: "int \<Rightarrow> int" where
  "DIJOFS_BUTTON n = 48 + n"

definition DIJOFS_BUTTON0 :: int where
  "DIJOFS_BUTTON0 = DIJOFS_BUTTON 0"

definition DIJOFS_BUTTON1 :: int where
  "DIJOFS_BUTTON1 = DIJOFS_BUTTON 1"

record DIDEVICEOBJECTDATA =
  dwOfs :: "32 word"
  dwData :: "32 word"

text \<open>
  The body of the loop of \<^verbatim>\<open>update_joystick\<close>, lines 932 to 958: the \<^verbatim>\<open>switch\<close> on
  \<^verbatim>\<open>dwOfs\<close> (its case labels are distinct constants, so the order of the tests does not
  matter). The division of the button case has non-negative operands.
\<close>

definition dispatch_item ::
  "(real \<Rightarrow> real) \<Rightarrow> AL_JOYSTICK_DIRECTX \<Rightarrow> DIDEVICEOBJECTDATA \<Rightarrow> AL_JOYSTICK_DIRECTX option" where
  "dispatch_item to_float joy item =
     (let ofs = sint (dwOfs item); dat = dwData item in
      if ofs = DIJOFS_X then handle_axis_event to_float joy (x_mapping joy) dat
      else if ofs = DIJOFS_Y then handle_axis_event to_float joy (y_mapping joy) dat
      else if ofs = DIJOFS_Z then handle_axis_event to_float joy (z_mapping joy) dat
      else if ofs = DIJOFS_RX then handle_axis_event to_float joy (rx_mapping joy) dat
      else if ofs = DIJOFS_RY then handle_axis_event to_float joy (ry_mapping joy) dat
      else if ofs = DIJOFS_RZ then handle_axis_event to_float joy (rz_mapping joy) dat
      else if ofs = DIJOFS_SLIDER 0 then do {
        m \<leftarrow> arr_get (slider_mapping joy) 0; handle_axis_event to_float joy m dat }
      else if ofs = DIJOFS_SLIDER 1 then do {
        m \<leftarrow> arr_get (slider_mapping joy) 1; handle_axis_event to_float joy m dat }
      else if ofs = DIJOFS_POV 0 then do {
        s \<leftarrow> arr_get (pov_mapping_stick joy) 0; handle_pov_event joy s dat }
      else if ofs = DIJOFS_POV 1 then do {
        s \<leftarrow> arr_get (pov_mapping_stick joy) 1; handle_pov_event joy s dat }
      else if ofs = DIJOFS_POV 2 then do {
        s \<leftarrow> arr_get (pov_mapping_stick joy) 2; handle_pov_event joy s dat }
      else if ofs = DIJOFS_POV 3 then do {
        s \<leftarrow> arr_get (pov_mapping_stick joy) 3; handle_pov_event joy s dat }
      else if ofs \<ge> DIJOFS_BUTTON0 \<and> ofs < DIJOFS_BUTTON (info_num_buttons (info (parent joy)))
      then handle_button_event joy
             ((ofs - DIJOFS_BUTTON0) div (DIJOFS_BUTTON1 - DIJOFS_BUTTON0))
             (dat AND 0x80 \<noteq> 0)
      else Some joy)"

text \<open>The loop over the items read, lines 931 to 959.\<close>

fun dispatch_items ::
  "(real \<Rightarrow> real) \<Rightarrow> AL_JOYSTICK_DIRECTX \<Rightarrow> DIDEVICEOBJECTDATA list \<Rightarrow> AL_JOYSTICK_DIRECTX option" where
  "dispatch_items to_float joy [] = Some joy"
| "dispatch_items to_float joy (item # items) =
     (case dispatch_item to_float joy item of
        None \<Rightarrow> None
      | Some joy' \<Rightarrow> dispatch_items to_float joy' items)"

text \<open>
  \<^verbatim>\<open>update_joystick\<close> (lines 898 to 962). The backend's answer to \<^verbatim>\<open>GetDeviceData\<close> is an
  input: its result code and the deltas the device has buffered, of which the call
  reads at most \<^verbatim>\<open>DEVICE_BUFFER_SIZE\<close>. The second component of the result says whether
  a re-acquire was scheduled on the window thread (\<^verbatim>\<open>wnd_schedule_proc\<close>).
\<close>

definition update_joystick ::
  "(real \<Rightarrow> real) \<Rightarrow> AL_JOYSTICK_DIRECTX \<Rightarrow> HRESULT \<Rightarrow> DIDEVICEOBJECTDATA list \<Rightarrow>
     (AL_JOYSTICK_DIRECTX \<times> bool) option" where
  "update_joystick to_float joy hr buffered =
     (let buffer = take DEVICE_BUFFER_SIZE buffered; num_items = length buffer in
      if hr \<noteq> DI_OK \<and> hr \<noteq> DI_BUFFEROVERFLOW
      then Some (joy, hr = DIERR_NOTACQUIRED \<or> hr = DIERR_INPUTLOST)
      else if num_items = 0 then Some (joy, False)
      else map_option (\<lambda>joy'. (joy', False)) (dispatch_items to_float joy buffer))"

section \<open>Well-formed device records and the vocabulary of the properties\<close>

text \<open>
  The arrays of a device record have their declared lengths and the counters of its
  schema stay within them.
\<close>

definition joy_wf :: "AL_JOYSTICK_DIRECTX \<Rightarrow> bool" where
  "joy_wf joy \<longleftrightarrow>
     length (info_stick (info (parent joy))) = nat AL_MAX_JOYSTICK_STICKS \<and>
     num_sticks (info (parent joy)) \<le> AL_MAX_JOYSTICK_STICKS \<and>
     (\<forall>si \<in> set (info_stick (info (parent joy))). num_axes si \<le> AL_MAX_JOYSTICK_AXES) \<and>
     info_num_buttons (info (parent joy)) \<le> AL_MAX_JOYSTICK_BUTTONS \<and>
     length (state_stick (joystate joy)) = nat AL_MAX_JOYSTICK_STICKS \<and>
     (\<forall>row \<in> set (state_stick (joystate joy)). length row = nat AL_MAX_JOYSTICK_AXES) \<and>
     length (state_button (joystate joy)) = nat AL_MAX_JOYSTICK_BUTTONS \<and>
     length (slider_mapping joy) = nat MAX_SLIDERS \<and>
     length (pov_mapping_stick joy) = nat MAX_POVS"

text \<open>A (stick, axis) pair inside the device's schema.\<close>

definition in_schema :: "AL_JOYSTICK_DIRECTX \<Rightarrow> int \<Rightarrow> int \<Rightarrow> bool" where
  "in_schema joy st ax \<longleftrightarrow>
     0 \<le> st \<and> st < num_sticks (info (parent joy)) \<and>
     0 \<le> ax \<and> ax < num_axes (info_stick (info (parent joy)) ! nat st)"

text \<open>Reading the snapshot: \<^verbatim>\<open>joystate.stick[st].axis[ax]\<close> and \<^verbatim>\<open>joystate.button[b]\<close>.\<close>

definition snapshot_axis :: "AL_JOYSTICK_DIRECTX \<Rightarrow> int \<Rightarrow> int \<Rightarrow> real option" where
  "snapshot_axis joy st ax = do {
     row \<leftarrow> arr_get (state_stick (joystate joy)) st;
     arr_get row ax
   }"

definition snapshot_button :: "AL_JOYSTICK_DIRECTX \<Rightarrow> int \<Rightarrow> int option" where
  "snapshot_button joy b = arr_get (state_button (joystate joy)) b"

definition snapshot_in_range :: "AL_JOYSTICK_DIRECTX \<Rightarrow> bool" where
  "snapshot_in_range joy \<longleftrightarrow>
     (\<forall>row \<in> set (state_stick (joystate joy)). \<forall>p \<in> set row. - 1 \<le> p \<and> p \<le> 1)"

text \<open>
  What is known of the rounding to \<^verbatim>\<open>float\<close>: it is monotone and leaves -1 and 1, which
  are floats, as they are.
\<close>

definition float_rounding :: "(real \<Rightarrow> real) \<Rightarrow> bool" where
  "float_rounding to_float \<longleftrightarrow>
     (\<forall>x y. x \<le> y \<longrightarrow> to_float x \<le> to_float y) \<and> to_float (- 1) = - 1 \<and> to_float 1 = 1"

definition emitted :: "AL_JOYSTICK_DIRECTX \<Rightarrow> JOYSTICK_EVENT list" where
  "emitted joy = es_emitted (es (parent joy))"

definition axis_event :: "int \<Rightarrow> int \<Rightarrow> real \<Rightarrow> JOYSTICK_EVENT" where
  "axis_event st ax pos =
     \<lparr>ev_type = AL_EVENT_JOYSTICK_AXIS, ev_stick = st, ev_axis = ax, ev_pos = pos, ev_button = 0\<rparr>"

definition button_event :: "event_type \<Rightarrow> int \<Rightarrow> JOYSTICK_EVENT" where
  "button_event t b =
     \<lparr>ev_type = t, ev_stick = 0, ev_axis = 0, ev_pos = 0, ev_button = b\<rparr>"

text \<open>The event source will take one more event of type \<open>t\<close>.\<close>

definition accepts :: "AL_JOYSTICK_DIRECTX \<Rightarrow> event_type \<Rightarrow> bool" where
  "accepts joy t \<longleftrightarrow> t \<in> set (es_wanted (es (parent joy))) \<and> 0 < es_unused (es (parent joy))"

text \<open>
  The hat rule as the spec words it in 4.4 ("Equivalent decision rule"), written from
  the spec and not from the source, to compare the source with.
\<close>

definition spec_hat_x :: "int \<Rightarrow> real" where
  "spec_hat_x raw =
     (if 9000 < raw \<and> raw < 27000 then 1
      else if (0 < raw \<and> raw < 9000) \<or> (27000 < raw \<and> raw < 36000) then - 1
      else 0)"

definition spec_hat_y :: "int \<Rightarrow> real" where
  "spec_hat_y raw =
     (if (0 \<le> raw \<and> raw \<le> 36000) \<and> (raw \<le> 9000 \<or> raw \<ge> 27000) then - 1
      else if 9000 < raw \<and> raw < 27000 then 1
      else 0)"

text \<open>
  Device records to run the handlers on: the record the builder makes of a pad with an
  X and a Y axis, one hat and four buttons, taken by the user, with subscribers for
  every event type and eight unused event slots; and the same with no slot left.
\<close>

definition pad_caps :: CAPS_AND_NAMES where
  "pad_caps = zero_caps\<lparr>have_x := True, have_y := True, num_povs := 1, num_buttons := 4\<rparr>"

definition pad_info :: AL_JOYSTICK_INFO where
  "pad_info =
     \<lparr>num_sticks = 2, info_num_buttons = 4,
      info_stick =
        [\<lparr>flags = 3, num_axes = 2, stick_axis = [Some ''X'', Some ''Y'', None],
          stick_name = Some ''stick''\<rparr>,
         \<lparr>flags = 1, num_axes = 2, stick_axis = [Some ''left/right'', Some ''up/down'', None],
          stick_name = Some ''hat''\<rparr>] @ replicate 6 zero_stick_info,
      info_button =
        [Some ''B1'', Some ''B2'', Some ''B3'', Some ''B4''] @ replicate 28 None\<rparr>"

definition pad :: AL_JOYSTICK_DIRECTX where
  "pad = zero_joystick
     \<lparr>parent :=
        \<lparr>es = \<lparr>es_wanted = [AL_EVENT_JOYSTICK_AXIS, AL_EVENT_JOYSTICK_BUTTON_DOWN,
                            AL_EVENT_JOYSTICK_BUTTON_UP],
               es_unused = 8, es_emitted = []\<rparr>,
         info = pad_info, num = 0\<rparr>,
      caps_and_names := pad_caps, gotten := True,
      y_mapping := \<lparr>stick = 0, axis = 1\<rparr>,
      pov_mapping_stick := [1, 0, 0, 0]\<rparr>"

definition full_pad :: AL_JOYSTICK_DIRECTX where
  "full_pad = set_es pad ((es (parent pad))\<lparr>es_unused := 0\<rparr>)"

text \<open>
  The edges of a hat delta: one axis event for each of the two axes whose new value
  differs from the value \<open>old0\<close>, \<open>old1\<close> the snapshot held.
\<close>

definition hat_edges :: "int \<Rightarrow> real \<Rightarrow> real \<Rightarrow> int \<Rightarrow> JOYSTICK_EVENT list" where
  "hat_edges st old0 old1 v =
     (if old0 \<noteq> pov_p0 v then [axis_event st 0 (pov_p0 v)] else []) @
     (if old1 \<noteq> pov_p1 v then [axis_event st 1 (pov_p1 v)] else [])"

text \<open>The pad after its hat (stick 1) was pushed to the right.\<close>

definition pad_right :: AL_JOYSTICK_DIRECTX where
  "pad_right =
     set_es
       (set_joystate pad
          ((joystate pad)\<lparr>state_stick := [[0, 0, 0], [1, 0, 0]] @ replicate 6 [0, 0, 0]\<rparr>))
       ((es (parent pad))\<lparr>es_unused := 7, es_emitted := [axis_event 1 0 1]\<rparr>)"

text \<open>The pad after \<^verbatim>\<open>handle_button_event\<close> was called for the button index 4, pressed.\<close>

definition pad_button4 :: AL_JOYSTICK_DIRECTX where
  "pad_button4 =
     set_es
       (set_joystate pad
          ((joystate pad)\<lparr>state_button := replicate 4 0 @ [32767] @ replicate 27 0\<rparr>))
       ((es (parent pad))\<lparr>es_unused := 7,
          es_emitted := [button_event AL_EVENT_JOYSTICK_BUTTON_DOWN 4]\<rparr>)"

text \<open>
  Button deltas, for the round-trip property of the drain: a delta whose offset lies in
  the button range of the device's schema, the index it names and whether it is a
  press; the last press or release a sequence of deltas holds for a button; and the
  event of a delta.
\<close>

definition is_button_delta :: "AL_JOYSTICK_DIRECTX \<Rightarrow> DIDEVICEOBJECTDATA \<Rightarrow> bool" where
  "is_button_delta joy item \<longleftrightarrow>
     DIJOFS_BUTTON0 \<le> sint (dwOfs item) \<and>
     sint (dwOfs item) < DIJOFS_BUTTON (info_num_buttons (info (parent joy)))"

definition button_index :: "DIDEVICEOBJECTDATA \<Rightarrow> int" where
  "button_index item = sint (dwOfs item) - DIJOFS_BUTTON0"

definition pressed :: "DIDEVICEOBJECTDATA \<Rightarrow> bool" where
  "pressed item \<longleftrightarrow> dwData item AND 0x80 \<noteq> 0"

fun last_delta :: "int \<Rightarrow> DIDEVICEOBJECTDATA list \<Rightarrow> bool option" where
  "last_delta b [] = None"
| "last_delta b (item # items) =
     (case last_delta b items of
        Some p \<Rightarrow> Some p
      | None \<Rightarrow> if button_index item = b then Some (pressed item) else None)"

definition delta_event :: "DIDEVICEOBJECTDATA \<Rightarrow> JOYSTICK_EVENT" where
  "delta_event item =
     button_event
       (if pressed item then AL_EVENT_JOYSTICK_BUTTON_DOWN else AL_EVENT_JOYSTICK_BUTTON_UP)
       (button_index item)"

definition buttons_binary :: "AL_JOYSTICK_DIRECTX \<Rightarrow> bool" where
  "buttons_binary joy \<longleftrightarrow> (\<forall>v \<in> set (state_button (joystate joy)). v = 0 \<or> v = 32767)"

text \<open>
  A delta that names a button outside the schema: its offset is none of the twelve
  case labels of the axes, sliders and hats, and the index it names lies outside
  [0, num_buttons).
\<close>

definition is_axis_or_hat_delta :: "DIDEVICEOBJECTDATA \<Rightarrow> bool" where
  "is_axis_or_hat_delta item \<longleftrightarrow>
     sint (dwOfs item) \<in>
       {DIJOFS_X, DIJOFS_Y, DIJOFS_Z, DIJOFS_RX, DIJOFS_RY, DIJOFS_RZ,
        DIJOFS_SLIDER 0, DIJOFS_SLIDER 1,
        DIJOFS_POV 0, DIJOFS_POV 1, DIJOFS_POV 2, DIJOFS_POV 3}"

definition button_outside_schema :: "AL_JOYSTICK_DIRECTX \<Rightarrow> DIDEVICEOBJECTDATA \<Rightarrow> bool" where
  "button_outside_schema joy item \<longleftrightarrow>
     \<not> is_axis_or_hat_delta item \<and>
     (button_index item < 0 \<or> info_num_buttons (info (parent joy)) \<le> button_index item)"

text \<open>A press of button 4, which the four-button pad does not have.\<close>

definition button4_pressed :: DIDEVICEOBJECTDATA where
  "button4_pressed = \<lparr>dwOfs = 52, dwData = 0x80\<rparr>"

text \<open>Three button deltas: button 1 pressed, button 0 pressed, button 1 released.\<close>

definition example_deltas :: "DIDEVICEOBJECTDATA list" where
  "example_deltas =
     [\<lparr>dwOfs = 49, dwData = 0x80\<rparr>, \<lparr>dwOfs = 48, dwData = 0x80\<rparr>, \<lparr>dwOfs = 49, dwData = 0\<rparr>]"

section \<open>The driver table, take and release, and the poller\<close>

text \<open>
  The module-level variables of the source (lines 171 to 184): the device count, the
  device table and the wake handles, \<^verbatim>\<open>STOP_EVENT\<close> first. A handle is a number, 0 is
  \<^verbatim>\<open>NULL\<close>. Static storage starts all-zero.
\<close>

record driver =
  joydx_num_joysticks :: int
  joydx_joystick :: "AL_JOYSTICK_DIRECTX list"
  joydx_thread_wakers :: "nat list"

definition initial_driver :: driver where
  "initial_driver =
     \<lparr>joydx_num_joysticks = 0,
      joydx_joystick = replicate (nat MAX_JOYSTICKS) zero_joystick,
      joydx_thread_wakers = replicate (nat (1 + MAX_JOYSTICKS)) 0\<rparr>"

definition JOYSTICK_WAKER :: "int \<Rightarrow> int" where
  "JOYSTICK_WAKER n = 1 + n"

text \<open>
  What stops a run: an access outside an array, or a failed \<^verbatim>\<open>ASSERT\<close>.

  Modelled from the spec: the \<^verbatim>\<open>ASSERT\<close> macro is declared in a header that is not under
  src/. In a debug build a false condition aborts the program; in a release build the
  macro expands to nothing and its condition is not evaluated. Which build it is, is
  the parameter \<open>debugmode\<close> of the functions that assert.
\<close>

datatype fault = ArrayOutOfBounds | AssertionFailed

definition ASSERT_fails :: "bool \<Rightarrow> bool \<Rightarrow> bool" where
  "ASSERT_fails debugmode cond \<longleftrightarrow> debugmode \<and> \<not> cond"

definition liftO :: "'a option \<Rightarrow> fault + 'a" where
  "liftO x = (case x of None \<Rightarrow> Inl ArrayOutOfBounds | Some y \<Rightarrow> Inr y)"

definition bindE :: "fault + 'a \<Rightarrow> ('a \<Rightarrow> fault + 'b) \<Rightarrow> fault + 'b" where
  "bindE x f = (case x of Inl e \<Rightarrow> Inl e | Inr y \<Rightarrow> f y)"

text \<open>
  \<^verbatim>\<open>joydx_get_joystick\<close> (lines 802 to 816) and \<^verbatim>\<open>joydx_release_joystick\<close> (lines 823 to
  835). The pointer they return or take is the index of the record in the table.
\<close>

definition joydx_get_joystick :: "bool \<Rightarrow> driver \<Rightarrow> int \<Rightarrow> fault + driver" where
  "joydx_get_joystick debugmode drv n =
     bindE (liftO (arr_get (joydx_joystick drv) n)) (\<lambda>joy.
       if ASSERT_fails debugmode (\<not> gotten joy) then Inl AssertionFailed
       else bindE (liftO (arr_set (joydx_joystick drv) n
                     ((set_es joy al_event_source_init)\<lparr>gotten := True\<rparr>)))
              (\<lambda>table. Inr (drv\<lparr>joydx_joystick := table\<rparr>)))"

definition joydx_release_joystick :: "bool \<Rightarrow> driver \<Rightarrow> int \<Rightarrow> fault + driver" where
  "joydx_release_joystick debugmode drv n =
     bindE (liftO (arr_get (joydx_joystick drv) n)) (\<lambda>joy.
       if ASSERT_fails debugmode (gotten joy) then Inl AssertionFailed
       else bindE (liftO (arr_set (joydx_joystick drv) n
                     (set_es (joy\<lparr>gotten := False\<rparr>) (al_event_source_free (es (parent joy))))))
              (\<lambda>table. Inr (drv\<lparr>joydx_joystick := table\<rparr>)))"

text \<open>\<^verbatim>\<open>joydx_get_state\<close> (lines 842 to 851): a copy of the snapshot.\<close>

definition joydx_get_state :: "driver \<Rightarrow> int \<Rightarrow> AL_JOYSTATE option" where
  "joydx_get_state drv n = map_option joystate (arr_get (joydx_joystick drv) n)"

text \<open>
  One turn of the loop of \<^verbatim>\<open>joydx_thread_proc\<close> (lines 862 to 884). What the multi-wait
  returned, and what the backend would answer to \<^verbatim>\<open>GetDeviceData\<close> on the signalled
  device, are inputs. \<^verbatim>\<open>num = result - WAIT_OBJECT_0 - 1\<close> is computed on \<^verbatim>\<open>DWORD\<close>s and
  stored in an \<^verbatim>\<open>int\<close>.
\<close>

definition WAIT_OBJECT_0 :: "32 word" where
  "WAIT_OBJECT_0 = 0"

record wakeup =
  wait_result :: "32 word"
  data_hr :: HRESULT
  data_items :: "DIDEVICEOBJECTDATA list"

datatype thread_step = Break | Continue driver bool

definition joydx_thread_iteration ::
  "(real \<Rightarrow> real) \<Rightarrow> driver \<Rightarrow> wakeup \<Rightarrow> fault + thread_step" where
  "joydx_thread_iteration to_float drv w =
     (if wait_result w = WAIT_OBJECT_0 then Inr Break
      else
        let n = sint (wait_result w - WAIT_OBJECT_0 - 1) in
        if n < 0 \<or> n \<ge> joydx_num_joysticks drv then Inr (Continue drv False)
        else bindE (liftO (arr_get (joydx_joystick drv) n)) (\<lambda>joy.
          if gotten joy then
            bindE (liftO (update_joystick to_float joy (data_hr w) (data_items w)))
              (\<lambda>(joy', scheduled).
                 bindE (liftO (arr_set (joydx_joystick drv) n joy'))
                   (\<lambda>table. Inr (Continue (drv\<lparr>joydx_joystick := table\<rparr>) scheduled)))
          else Inr (Continue drv False)))"

text \<open>
  What happens to the driver after init, one event at a time: the primary thread takes
  or releases a device, or the poller wakes up. The critical section
  \<^verbatim>\<open>joydx_thread_cs\<close> makes each of them atomic with respect to the others. A wake-up
  that is the stop event leaves the driver as it is.
\<close>

datatype action = Take int | Release int | Wake wakeup

fun driver_step :: "bool \<Rightarrow> (real \<Rightarrow> real) \<Rightarrow> driver \<Rightarrow> action \<Rightarrow> fault + driver" where
  "driver_step debugmode to_float drv (Take n) = joydx_get_joystick debugmode drv n"
| "driver_step debugmode to_float drv (Release n) = joydx_release_joystick debugmode drv n"
| "driver_step debugmode to_float drv (Wake w) =
     bindE (joydx_thread_iteration to_float drv w)
       (\<lambda>r. case r of Break \<Rightarrow> Inr drv | Continue drv' scheduled \<Rightarrow> Inr drv')"

fun driver_run :: "bool \<Rightarrow> (real \<Rightarrow> real) \<Rightarrow> driver \<Rightarrow> action list \<Rightarrow> fault + driver" where
  "driver_run debugmode to_float drv [] = Inr drv"
| "driver_run debugmode to_float drv (a # as) =
     bindE (driver_step debugmode to_float drv a) (\<lambda>drv'. driver_run debugmode to_float drv' as)"

text \<open>
  A driver after a successful init: the count within the table, the table and the
  wake handles of their declared lengths, every record of the table well-formed.
\<close>

definition driver_wf :: "driver \<Rightarrow> bool" where
  "driver_wf drv \<longleftrightarrow>
     0 \<le> joydx_num_joysticks drv \<and> joydx_num_joysticks drv \<le> MAX_JOYSTICKS \<and>
     length (joydx_joystick drv) = nat MAX_JOYSTICKS \<and>
     length (joydx_thread_wakers drv) = nat (1 + MAX_JOYSTICKS) \<and>
     (\<forall>joy \<in> set (joydx_joystick drv). joy_wf joy)"

text \<open>
  An action that cannot stop the run: a wake-up of the poller; in a release build, a
  take or a release of a device of the table.
\<close>

definition action_safe :: "bool \<Rightarrow> driver \<Rightarrow> action \<Rightarrow> bool" where
  "action_safe debugmode drv a =
     (case a of
        Wake w \<Rightarrow> True
      | Take n \<Rightarrow> \<not> debugmode \<and> 0 \<le> n \<and> n < joydx_num_joysticks drv
      | Release n \<Rightarrow> \<not> debugmode \<and> 0 \<le> n \<and> n < joydx_num_joysticks drv)"

text \<open>A device record as \<^verbatim>\<open>joydx_release_joystick\<close> leaves it.\<close>

definition released :: "AL_JOYSTICK_DIRECTX \<Rightarrow> bool" where
  "released joy \<longleftrightarrow>
     \<not> gotten joy \<and> es (parent joy) = al_event_source_free (es (parent joy))"

text \<open>A driver with two devices, both pads, the first taken, the second not.\<close>

definition two_pads :: driver where
  "two_pads = initial_driver
     \<lparr>joydx_num_joysticks := 2,
      joydx_joystick := [pad, pad\<lparr>gotten := False\<rparr>] @ replicate 6 zero_joystick,
      joydx_thread_wakers := [1, 2, 3, 0, 0, 0, 0, 0, 0]\<rparr>"

text \<open>
  A run after the release of device 0: the poller is woken for device 0 with a button
  delta, then for device 1; device 1 is taken; the poller is woken for device 1 with
  an axis delta and once more for device 0.
\<close>

definition example_actions :: "action list" where
  "example_actions =
     [Wake \<lparr>wait_result = 1, data_hr = DI_OK, data_items = [\<lparr>dwOfs = 48, dwData = 0x80\<rparr>]\<rparr>,
      Wake \<lparr>wait_result = 2, data_hr = DI_OK, data_items = [\<lparr>dwOfs = 48, dwData = 0x80\<rparr>]\<rparr>,
      Take 1,
      Wake \<lparr>wait_result = 2, data_hr = DI_OK, data_items = [\<lparr>dwOfs = 0, dwData = 32767\<rparr>]\<rparr>,
      Wake \<lparr>wait_result = 1, data_hr = DI_OK, data_items = [\<lparr>dwOfs = 4, dwData = 100\<rparr>]\<rparr>]"

section \<open>Enumeration\<close>

subsection \<open>Objects of a device\<close>

text \<open>
  Modelled from the spec: what the backend reports of one object of a device. Of the
  object's type only the cases \<^verbatim>\<open>object_enum_callback\<close> tells apart matter. \<open>name_copy\<close> is
  the result of \<^verbatim>\<open>ustrdup(uconvert_ascii(tszName))\<close>: the display name, or \<^verbatim>\<open>NULL\<close> when
  the copy could not be allocated.
\<close>

datatype GUID =
  GUID_XAxis | GUID_YAxis | GUID_ZAxis | GUID_RxAxis | GUID_RyAxis | GUID_RzAxis
  | GUID_Slider | GUID_POV | GUID_Button | GUID_Unknown

record DIDEVICEOBJECTINSTANCE =
  guidType :: GUID
  name_copy :: "string option"

text \<open>\<^verbatim>\<open>object_enum_callback\<close> (lines 294 to 359); it always asks for the next object.\<close>

definition object_enum_callback ::
  "CAPS_AND_NAMES \<Rightarrow> DIDEVICEOBJECTINSTANCE \<Rightarrow> CAPS_AND_NAMES option" where
  "object_enum_callback can lpddoi =
     (case guidType lpddoi of
        GUID_XAxis \<Rightarrow>
          Some (if \<not> have_x can then can\<lparr>have_x := True, name_x := name_copy lpddoi\<rparr> else can)
      | GUID_YAxis \<Rightarrow>
          Some (if \<not> have_y can then can\<lparr>have_y := True, name_y := name_copy lpddoi\<rparr> else can)
      | GUID_ZAxis \<Rightarrow>
          Some (if \<not> have_z can then can\<lparr>have_z := True, name_z := name_copy lpddoi\<rparr> else can)
      | GUID_RxAxis \<Rightarrow>
          Some (if \<not> have_rx can then can\<lparr>have_rx := True, name_rx := name_copy lpddoi\<rparr> else can)
      | GUID_RyAxis \<Rightarrow>
          Some (if \<not> have_ry can then can\<lparr>have_ry := True, name_ry := name_copy lpddoi\<rparr> else can)
      | GUID_RzAxis \<Rightarrow>
          Some (if \<not> have_rz can then can\<lparr>have_rz := True, name_rz := name_copy lpddoi\<rparr> else can)
      | GUID_Slider \<Rightarrow>
          if num_sliders can < MAX_SLIDERS then do {
            names \<leftarrow> arr_set (name_slider can) (num_sliders can) (name_copy lpddoi);
            Some (can\<lparr>name_slider := names, num_sliders := num_sliders can + 1\<rparr>) }
          else Some can
      | GUID_POV \<Rightarrow>
          if num_povs can < MAX_POVS then do {
            names \<leftarrow> arr_set (name_pov can) (num_povs can) (name_copy lpddoi);
            Some (can\<lparr>name_pov := names, num_povs := num_povs can + 1\<rparr>) }
          else Some can
      | GUID_Button \<Rightarrow>
          if num_buttons can < MAX_BUTTONS then do {
            names \<leftarrow> arr_set (name_button can) (num_buttons can) (name_copy lpddoi);
            Some (can\<lparr>name_button := names, num_buttons := num_buttons can + 1\<rparr>) }
          else Some can
      | GUID_Unknown \<Rightarrow> Some can)"

text \<open>
  Modelled from the spec: \<^verbatim>\<open>EnumObjects\<close> of the backend calls the callback on every
  object of the device, in the backend's order.
\<close>

fun EnumObjects :: "CAPS_AND_NAMES \<Rightarrow> DIDEVICEOBJECTINSTANCE list \<Rightarrow> CAPS_AND_NAMES option" where
  "EnumObjects can [] = Some can"
| "EnumObjects can (obj # objs) =
     (case object_enum_callback can obj of
        None \<Rightarrow> None
      | Some can' \<Rightarrow> EnumObjects can' objs)"

subsection \<open>Handles and device interfaces\<close>

text \<open>
  Modelled from the spec: the operating system's handles and the backend's device
  interfaces, as far as the enumerator acquires and gives them back. Both are numbers,
  never 0 when valid; the state lists the handles that are open and the interfaces
  that are not yet released. Closing the null handle does nothing.
\<close>

record os_state =
  open_handles :: "nat list"
  live_interfaces :: "nat list"
  next_id :: nat

definition new_handle :: "os_state \<Rightarrow> nat \<times> os_state" where
  "new_handle os =
     (Suc (next_id os),
      os\<lparr>open_handles := Suc (next_id os) # open_handles os, next_id := Suc (next_id os)\<rparr>)"

definition CloseHandle :: "nat \<Rightarrow> os_state \<Rightarrow> os_state" where
  "CloseHandle h os = (if h = 0 then os else os\<lparr>open_handles := remove1 h (open_handles os)\<rparr>)"

definition new_interface :: "os_state \<Rightarrow> nat \<times> os_state" where
  "new_interface os =
     (Suc (next_id os),
      os\<lparr>live_interfaces := Suc (next_id os) # live_interfaces os, next_id := Suc (next_id os)\<rparr>)"

definition Release_interface :: "nat \<Rightarrow> os_state \<Rightarrow> os_state" where
  "Release_interface d os = os\<lparr>live_interfaces := remove1 d (live_interfaces os)\<rparr>"

text \<open>
  Modelled from the spec: an attached controller, as the answers the backend and the
  operating system give while the enumerator sets it up, in the order of the calls.
\<close>

record controller =
  hr_CreateDevice :: HRESULT
  hr_QueryInterface :: HRESULT
  hr_SetCooperativeLevel :: HRESULT
  objects :: "DIDEVICEOBJECTINSTANCE list"
  hr_EnumObjects :: HRESULT
  hr_SetDataFormat :: HRESULT
  hr_SetProperty_RANGE :: HRESULT
  hr_SetProperty_DEADZONE :: HRESULT
  hr_SetProperty_BUFFERSIZE :: HRESULT
  CreateEvent_ok :: bool
  hr_SetEventNotification :: HRESULT
  CreateWaitableTimer_ok :: bool

subsection \<open>The enumeration callback\<close>

definition DIENUM_CONTINUE :: bool where
  "DIENUM_CONTINUE = True"

definition set_waker :: "driver \<Rightarrow> nat \<Rightarrow> fault + driver" where
  "set_waker drv h =
     bindE (liftO (arr_set (joydx_thread_wakers drv)
                     (JOYSTICK_WAKER (joydx_num_joysticks drv)) h))
       (\<lambda>wakers. Inr (drv\<lparr>joydx_thread_wakers := wakers\<rparr>))"

definition set_slot :: "driver \<Rightarrow> AL_JOYSTICK_DIRECTX \<Rightarrow> fault + driver" where
  "set_slot drv joy =
     bindE (liftO (arr_set (joydx_joystick drv) (joydx_num_joysticks drv) joy))
       (\<lambda>table. Inr (drv\<lparr>joydx_joystick := table\<rparr>))"

text \<open>
  The exit at the label \<^verbatim>\<open>Error\<close> (lines 629 to 639): close and reset the wake handle of
  the slot if there is one, release the device interface if one was obtained, and ask
  for the next controller.
\<close>

definition enum_error :: "driver \<Rightarrow> os_state \<Rightarrow> nat \<Rightarrow> fault + (bool \<times> driver \<times> os_state)" where
  "enum_error drv os dinput_device =
     bindE (liftO (arr_get (joydx_thread_wakers drv)
                     (JOYSTICK_WAKER (joydx_num_joysticks drv))))
       (\<lambda>waker.
          bindE (if waker \<noteq> 0
                 then bindE (set_waker drv 0) (\<lambda>drv'. Inr (drv', CloseHandle waker os))
                 else Inr (drv, os))
            (\<lambda>(drv', os').
               Inr (DIENUM_CONTINUE, drv',
                    if dinput_device \<noteq> 0 then Release_interface dinput_device os' else os')))"

text \<open>
  Lines 584 to 627: create the event, ask for notifications, replace the event by a
  waitable timer for a polled device, count the device.
\<close>

definition enum_wake_object ::
  "driver \<Rightarrow> os_state \<Rightarrow> nat \<Rightarrow> controller \<Rightarrow> fault + (bool \<times> driver \<times> os_state)" where
  "enum_wake_object drv os dinput_device c =
     (let (event, os1) = (if CreateEvent_ok c then new_handle os else (0, os)) in
      bindE (set_waker drv event) (\<lambda>drv1.
        if FAILED (hr_SetEventNotification c) then enum_error drv1 os1 dinput_device
        else if hr_SetEventNotification c = DI_POLLEDDEVICE then
          (let os2 = CloseHandle event os1;
               (timer, os3) = (if CreateWaitableTimer_ok c then new_handle os2 else (0, os2))
           in bindE (set_waker drv1 timer) (\<lambda>drv2.
                if timer = 0 then enum_error drv2 os3 dinput_device
                else Inr (DIENUM_CONTINUE,
                          drv2\<lparr>joydx_num_joysticks := joydx_num_joysticks drv2 + 1\<rparr>, os3)))
        else Inr (DIENUM_CONTINUE,
                  drv1\<lparr>joydx_num_joysticks := joydx_num_joysticks drv1 + 1\<rparr>, os1)))"

text \<open>
  \<^verbatim>\<open>joystick_enum_callback\<close> (lines 477 to 640). The two assertions of its entry are
  evaluated in a debug build only. The callback writes the record of the slot in three
  steps: the \<^verbatim>\<open>memset\<close>, the capability map filled by \<^verbatim>\<open>EnumObjects\<close>, and the layout with
  the device number, the interface and the gotten flag.
\<close>

definition enum_entry_assertion :: "driver \<Rightarrow> bool" where
  "enum_entry_assertion drv \<longleftrightarrow>
     joydx_num_joysticks drv > 0 \<and> joydx_num_joysticks drv < MAX_JOYSTICKS - 1"

definition joystick_enum_callback ::
  "bool \<Rightarrow> driver \<Rightarrow> os_state \<Rightarrow> controller \<Rightarrow> fault + (bool \<times> driver \<times> os_state)" where
  "joystick_enum_callback debugmode drv0 os0 c =
     (if ASSERT_fails debugmode (enum_entry_assertion drv0) then Inl AssertionFailed
      else if debugmode \<and>
              arr_get (joydx_thread_wakers drv0) (JOYSTICK_WAKER (joydx_num_joysticks drv0)) = None
      then Inl ArrayOutOfBounds
      else if ASSERT_fails debugmode
                (arr_get (joydx_thread_wakers drv0) (JOYSTICK_WAKER (joydx_num_joysticks drv0))
                   = Some 0)
      then Inl AssertionFailed
      else
        bindE (set_slot drv0 zero_joystick) (\<lambda>drv1.
          if FAILED (hr_CreateDevice c) then enum_error drv1 os0 0
          else
            let (dinput_device1, os1) = new_interface os0 in
            if FAILED (hr_QueryInterface c)
            then enum_error drv1 (Release_interface dinput_device1 os1) 0
            else
              let (dinput_device, os2) = new_interface os1;
                  os3 = Release_interface dinput_device1 os2 in
              if FAILED (hr_SetCooperativeLevel c) then enum_error drv1 os3 dinput_device
              else
                bindE (liftO (EnumObjects (caps_and_names zero_joystick) (objects c))) (\<lambda>can.
                  bindE (set_slot drv1 (zero_joystick\<lparr>caps_and_names := can\<rparr>)) (\<lambda>drv2.
                    if FAILED (hr_EnumObjects c) then enum_error drv2 os3 dinput_device
                    else if FAILED (hr_SetDataFormat c) then enum_error drv2 os3 dinput_device
                    else if FAILED (hr_SetProperty_RANGE c) then enum_error drv2 os3 dinput_device
                    else if FAILED (hr_SetProperty_DEADZONE c) then enum_error drv2 os3 dinput_device
                    else if FAILED (hr_SetProperty_BUFFERSIZE c) then enum_error drv2 os3 dinput_device
                    else
                      bindE (liftO (fill_joystick_info_using_caps_and_names
                                      (zero_joystick\<lparr>caps_and_names := can\<rparr>))) (\<lambda>joy.
                        bindE (set_slot drv2
                                 (joy\<lparr>parent := (parent joy)\<lparr>num := joydx_num_joysticks drv2\<rparr>,
                                      device := dinput_device, gotten := False\<rparr>))
                          (\<lambda>drv3. enum_wake_object drv3 os3 dinput_device c))))))"

text \<open>
  Modelled from the spec: \<^verbatim>\<open>EnumDevices\<close> of the backend calls the callback on every
  attached controller for as long as the callback asks for the next one.
\<close>

fun IDirectInput_EnumDevices ::
  "bool \<Rightarrow> driver \<Rightarrow> os_state \<Rightarrow> controller list \<Rightarrow> fault + (driver \<times> os_state)" where
  "IDirectInput_EnumDevices debugmode drv os [] = Inr (drv, os)"
| "IDirectInput_EnumDevices debugmode drv os (c # cs) =
     bindE (joystick_enum_callback debugmode drv os c)
       (\<lambda>(continue, drv', os').
          if continue then IDirectInput_EnumDevices debugmode drv' os' cs else Inr (drv', os'))"

text \<open>
  The failures the callback tests for and leaves through the label \<^verbatim>\<open>Error\<close>: a failed
  result of one of the nine backend calls, or no waitable timer for a polled device.
  (The result of \<^verbatim>\<open>CreateEvent\<close> is not tested by the source.)
\<close>

definition init_fails :: "controller \<Rightarrow> bool" where
  "init_fails c \<longleftrightarrow>
     FAILED (hr_CreateDevice c) \<or> FAILED (hr_QueryInterface c) \<or>
     FAILED (hr_SetCooperativeLevel c) \<or> FAILED (hr_EnumObjects c) \<or>
     FAILED (hr_SetDataFormat c) \<or> FAILED (hr_SetProperty_RANGE c) \<or>
     FAILED (hr_SetProperty_DEADZONE c) \<or> FAILED (hr_SetProperty_BUFFERSIZE c) \<or>
     FAILED (hr_SetEventNotification c) \<or>
     (hr_SetEventNotification c = DI_POLLEDDEVICE \<and> \<not> CreateWaitableTimer_ok c)"

text \<open>
  The driver while it enumerates: the count within the table, both arrays of their
  declared lengths, and no wake handle yet in the slot of the next device.
\<close>

definition enum_state_ok :: "driver \<Rightarrow> bool" where
  "enum_state_ok drv \<longleftrightarrow>
     0 \<le> joydx_num_joysticks drv \<and> joydx_num_joysticks drv < MAX_JOYSTICKS \<and>
     length (joydx_joystick drv) = nat MAX_JOYSTICKS \<and>
     length (joydx_thread_wakers drv) = nat (1 + MAX_JOYSTICKS) \<and>
     joydx_thread_wakers drv ! nat (JOYSTICK_WAKER (joydx_num_joysticks drv)) = 0"

text \<open>
  The driver between two controllers of an enumeration: the count within or at the end
  of the table, both arrays of their declared lengths, and no wake handle in the slots
  from the count on.
\<close>

definition enum_inv :: "driver \<Rightarrow> bool" where
  "enum_inv drv \<longleftrightarrow>
     0 \<le> joydx_num_joysticks drv \<and> joydx_num_joysticks drv \<le> MAX_JOYSTICKS \<and>
     length (joydx_joystick drv) = nat MAX_JOYSTICKS \<and>
     length (joydx_thread_wakers drv) = nat (1 + MAX_JOYSTICKS) \<and>
     (\<forall>k. nat (JOYSTICK_WAKER (joydx_num_joysticks drv)) \<le> k \<longrightarrow>
          k < nat (1 + MAX_JOYSTICKS) \<longrightarrow> joydx_thread_wakers drv ! k = 0)"

definition initial_os :: os_state where
  "initial_os = \<lparr>open_handles = [], live_interfaces = [], next_id = 0\<rparr>"

text \<open>
  Controllers to enumerate: one on which every call succeeds, with an X axis and two
  buttons; the same with a failing \<^verbatim>\<open>SetProperty\<close> of the buffer size; the same with
  failing notifications; and the same for which \<^verbatim>\<open>CreateEvent\<close> returns \<^verbatim>\<open>NULL\<close>.
\<close>

definition good_controller :: controller where
  "good_controller =
     \<lparr>hr_CreateDevice = DI_OK, hr_QueryInterface = DI_OK, hr_SetCooperativeLevel = DI_OK,
      objects = [\<lparr>guidType = GUID_XAxis, name_copy = Some ''X Axis''\<rparr>,
                 \<lparr>guidType = GUID_Button, name_copy = None\<rparr>,
                 \<lparr>guidType = GUID_Button, name_copy = None\<rparr>],
      hr_EnumObjects = DI_OK, hr_SetDataFormat = DI_OK, hr_SetProperty_RANGE = DI_OK,
      hr_SetProperty_DEADZONE = DI_OK, hr_SetProperty_BUFFERSIZE = DI_OK,
      CreateEvent_ok = True, hr_SetEventNotification = DI_OK, CreateWaitableTimer_ok = True\<rparr>"

definition bad_buffer_controller :: controller where
  "bad_buffer_controller = good_controller\<lparr>hr_SetProperty_BUFFERSIZE := DIERR_OTHER\<rparr>"

definition bad_notification_controller :: controller where
  "bad_notification_controller = good_controller\<lparr>hr_SetEventNotification := DIERR_OTHER\<rparr>"

definition no_event_controller :: controller where
  "no_event_controller = good_controller\<lparr>CreateEvent_ok := False\<rparr>"


section \<open>The layout builder against the spec's layout\<close>

lemma for_loop_rule:
  assumes "i \<le> n" and "P i s"
    and step: "\<And>k t. i \<le> k \<Longrightarrow> k < n \<Longrightarrow> P k t \<Longrightarrow> \<exists>t'. body k t = Some t' \<and> P (k + 1) t'"
  shows "\<exists>s'. for_loop i n body s = Some s' \<and> P n s'"
  using assms
proof (induction i n body s rule: for_loop.induct)
  case (1 i n body s)
  show ?case
  proof (cases "i < n")
    case True
    from 1(4)[of i s] True 1(3) obtain t where t: "body i s = Some t" "P (i + 1) t" by auto
    have "\<exists>s'. for_loop (i + 1) n body t = Some s' \<and> P n s'"
      using 1(1)[OF True t(1)] True t(2) 1(4) by force
    then show ?thesis using True t(1) by (subst for_loop.simps) simp
  next
    case False
    then have "i = n" using 1(2) by simp
    then show ?thesis using 1(3) by (subst for_loop.simps) simp
  qed
qed


lemma zero_stick_info_simps:
  "num_axes zero_stick_info = 0" "stick_axis zero_stick_info = [None, None, None]"
  "stick_name zero_stick_info = None" "flags zero_stick_info = 0"
  by (simp_all add: zero_stick_info_def AL_MAX_JOYSTICK_AXES_def eval_nat_numeral)

lemma OR_name_spec: "OR_name n d = Some (spec_display_name n d)"
  by (simp add: OR_name_def spec_display_name_def split: option.splits)

lemma nat_int_Suc: "nat (int m + 1) = Suc m"
  by simp

lemmas fill_unfold =
  add_axis_def close_stick_def arr_get_def arr_set_def set_info_def
  zero_stick_info_simps spec_stick_group_def published_form_def OR_name_spec Let_def
  default_name_stick_def fill_frame_def published_sticks_def nat_int_Suc take_Suc_conv_app_nth
  nth_list_update

lemma fill_xyz_ok:
  assumes ok: "sticks_ok (info (parent joy)) m" and m: "m < 8"
  shows "\<exists>joy'. fill_xyz joy = Some joy' \<and>
     sticks_ok (info (parent joy')) (m + length (spec_stick_group
         [(have_x (caps_and_names joy), name_x (caps_and_names joy), ''X''),
          (have_y (caps_and_names joy), name_y (caps_and_names joy), ''Y''),
          (have_z (caps_and_names joy), name_z (caps_and_names joy), ''Z'')])) \<and>
     fill_frame joy joy' \<and>
     published_sticks (info (parent joy')) = published_sticks (info (parent joy)) @
       map published_form (spec_stick_group
         [(have_x (caps_and_names joy), name_x (caps_and_names joy), ''X''),
          (have_y (caps_and_names joy), name_y (caps_and_names joy), ''Y''),
          (have_z (caps_and_names joy), name_z (caps_and_names joy), ''Z'')])"
proof -
  have z: "info_stick (info (parent joy)) ! m = zero_stick_info" 
    and l: "length (info_stick (info (parent joy))) = 8"
    and n: "num_sticks (info (parent joy)) = int m"
    and r: "\<forall>k. m \<le> k \<and> k < 8 \<longrightarrow> info_stick (info (parent joy)) ! k = zero_stick_info"
    and ax: "\<forall>k < 8. num_axes (info_stick (info (parent joy)) ! k) \<le> 3"
    using ok m by (auto simp: sticks_ok_def)
  show ?thesis
    apply (cases "have_x (caps_and_names joy)"; cases "have_y (caps_and_names joy)"; cases "have_z (caps_and_names joy)")
    using z l n m r ax
    by (simp_all add: fill_xyz_def fill_unfold sticks_ok_def
        default_name_x_def default_name_y_def default_name_z_def)
qed

lemma fill_rxyz_ok:
  assumes ok: "sticks_ok (info (parent joy)) m" and m: "m < 8"
  shows "\<exists>joy'. fill_rxyz joy = Some joy' \<and>
     sticks_ok (info (parent joy')) (m + length (spec_stick_group
         [(have_rx (caps_and_names joy), name_rx (caps_and_names joy), ''RX''),
          (have_ry (caps_and_names joy), name_ry (caps_and_names joy), ''RY''),
          (have_rz (caps_and_names joy), name_rz (caps_and_names joy), ''RZ'')])) \<and>
     fill_frame joy joy' \<and>
     published_sticks (info (parent joy')) = published_sticks (info (parent joy)) @
       map published_form (spec_stick_group
         [(have_rx (caps_and_names joy), name_rx (caps_and_names joy), ''RX''),
          (have_ry (caps_and_names joy), name_ry (caps_and_names joy), ''RY''),
          (have_rz (caps_and_names joy), name_rz (caps_and_names joy), ''RZ'')])"
proof -
  have z: "info_stick (info (parent joy)) ! m = zero_stick_info" 
    and l: "length (info_stick (info (parent joy))) = 8"
    and n: "num_sticks (info (parent joy)) = int m"
    and r: "\<forall>k. m \<le> k \<and> k < 8 \<longrightarrow> info_stick (info (parent joy)) ! k = zero_stick_info"
    and ax: "\<forall>k < 8. num_axes (info_stick (info (parent joy)) ! k) \<le> 3"
    using ok m by (auto simp: sticks_ok_def)
  show ?thesis
    apply (cases "have_rx (caps_and_names joy)"; cases "have_ry (caps_and_names joy)"; cases "have_rz (caps_and_names joy)")
    using z l n m r ax
    by (simp_all add: fill_rxyz_def fill_unfold sticks_ok_def
        default_name_rx_def default_name_ry_def default_name_rz_def)
qed

lemma spec_stick_group_length: "length (spec_stick_group axes) \<le> 1"
  by (simp add: spec_stick_group_def Let_def)

lemma nat_int_Suc': "nat (1 + int m) = Suc m"
  by simp

lemma fill_sliders_ok:
  assumes ok: "sticks_ok (info (parent joy)) m" and m: "m \<le> 2"
    and wf: "caps_wf (caps_and_names joy)" and ls: "length (slider_mapping joy) = 2"
  shows "\<exists>joy'. for_loop 0 (num_sliders (caps_and_names joy)) fill_slider joy = Some joy' \<and>
     sticks_ok (info (parent joy')) (m + nat (num_sliders (caps_and_names joy))) \<and>
     fill_frame joy joy' \<and>
     published_sticks (info (parent joy')) = published_sticks (info (parent joy)) @
       map (\<lambda>n. published_form (spec_display_name n ''slider'', [[]]))
         (take (nat (num_sliders (caps_and_names joy))) (name_slider (caps_and_names joy)))"
proof -
  define can where "can = caps_and_names joy"
  define P where "P = (\<lambda>k j. sticks_ok (info (parent j)) (m + nat k) \<and> fill_frame joy j \<and>
     published_sticks (info (parent j)) = published_sticks (info (parent joy)) @
       map (\<lambda>n. published_form (spec_display_name n ''slider'', [[]])) (take (nat k) (name_slider can)))"
  have n: "0 \<le> num_sliders can" "num_sliders can \<le> 2" "length (name_slider can) = 2"
    using wf by (simp_all add: caps_wf_def can_def MAX_SLIDERS_def)
  have P0: "P 0 joy" using ok by (simp add: P_def fill_frame_def)
  have step: "\<exists>t'. fill_slider k t = Some t' \<and> P (k + 1) t'"
    if k: "0 \<le> k" "k < num_sliders can" and Pk: "P k t" for k t
  proof -
    obtain j where j: "k = int j" using k(1) by (auto elim: nonneg_int_cases)
    have jb: "j < 2" using k(2) n(2) j by simp
    have c: "caps_and_names t = can" and lt: "length (slider_mapping t) = 2"
      using Pk ls by (simp_all add: P_def fill_frame_def can_def)
    have sk: "sticks_ok (info (parent t)) (m + j)" using Pk j by (simp add: P_def)
    then have z: "info_stick (info (parent t)) ! (m + j) = zero_stick_info" 
      and l: "length (info_stick (info (parent t))) = 8"
      and ns: "num_sticks (info (parent t)) = int m + int j"
      and r: "\<forall>i. m + j \<le> i \<and> i < 8 \<longrightarrow> info_stick (info (parent t)) ! i = zero_stick_info"
      and ax: "\<forall>k < 8. num_axes (info_stick (info (parent t)) ! k) \<le> 3"
      using m jb by (auto simp: sticks_ok_def)
    have pub: "published_sticks (info (parent t)) = published_sticks (info (parent joy)) @
       map (\<lambda>n. published_form (spec_display_name n ''slider'', [[]])) (take j (name_slider can))"
      using Pk j by (simp add: P_def)
    have fr: "fill_frame joy t" using Pk by (simp add: P_def)
    have mj: "m + j < 8" using m jb by simp
    have nat_eq: "nat (int m + int j) = m + j" by simp
    show ?thesis
      using z l ns r ax c lt jb mj n(3) pub fr
      unfolding j P_def
      by (simp add: fill_slider_def fill_unfold sticks_ok_def default_name_slider_def nat_eq
          nat_int_Suc' nat_add_distrib  add.commute)
  qed
  have "\<exists>s'. for_loop 0 (num_sliders can) fill_slider joy = Some s' \<and> P (num_sliders can) s'"
    by (rule for_loop_rule[where P = P, OF n(1) P0 step])
  then show ?thesis by (simp add: P_def can_def)
qed


lemma fill_povs_ok:
  assumes ok: "sticks_ok (info (parent joy)) m" and m: "m \<le> 4"
    and wf: "caps_wf (caps_and_names joy)" and ls: "length (pov_mapping_stick joy) = 4"
  shows "\<exists>joy'. for_loop 0 (num_povs (caps_and_names joy)) fill_pov joy = Some joy' \<and>
     sticks_ok (info (parent joy')) (m + nat (num_povs (caps_and_names joy))) \<and>
     fill_frame joy joy' \<and>
     published_sticks (info (parent joy')) = published_sticks (info (parent joy)) @
       map (\<lambda>n. published_form (spec_display_name n ''hat'', [''left/right'', ''up/down'']))
         (take (nat (num_povs (caps_and_names joy))) (name_pov (caps_and_names joy)))"
proof -
  define can where "can = caps_and_names joy"
  define P where "P = (\<lambda>k j. sticks_ok (info (parent j)) (m + nat k) \<and> fill_frame joy j \<and>
     published_sticks (info (parent j)) = published_sticks (info (parent joy)) @
       map (\<lambda>n. published_form (spec_display_name n ''hat'', [''left/right'', ''up/down'']))
         (take (nat k) (name_pov can)))"
  have n: "0 \<le> num_povs can" "num_povs can \<le> 4" "length (name_pov can) = 4"
    using wf by (simp_all add: caps_wf_def can_def MAX_POVS_def)
  have P0: "P 0 joy" using ok by (simp add: P_def fill_frame_def)
  have step: "\<exists>t'. fill_pov k t = Some t' \<and> P (k + 1) t'"
    if k: "0 \<le> k" "k < num_povs can" and Pk: "P k t" for k t
  proof -
    obtain j where j: "k = int j" using k(1) by (auto elim: nonneg_int_cases)
    have jb: "j < 4" using k(2) n(2) j by simp
    have c: "caps_and_names t = can" and lt: "length (pov_mapping_stick t) = 4"
      using Pk ls by (simp_all add: P_def fill_frame_def can_def)
    have sk: "sticks_ok (info (parent t)) (m + j)" using Pk j by (simp add: P_def)
    then have z: "info_stick (info (parent t)) ! (m + j) = zero_stick_info" 
      and l: "length (info_stick (info (parent t))) = 8"
      and ns: "num_sticks (info (parent t)) = int m + int j"
      and r: "\<forall>i. m + j \<le> i \<and> i < 8 \<longrightarrow> info_stick (info (parent t)) ! i = zero_stick_info"
      and ax: "\<forall>k < 8. num_axes (info_stick (info (parent t)) ! k) \<le> 3"
      using m jb by (auto simp: sticks_ok_def)
    have pub: "published_sticks (info (parent t)) = published_sticks (info (parent joy)) @
       map (\<lambda>n. published_form (spec_display_name n ''hat'', [''left/right'', ''up/down'']))
         (take j (name_pov can))"
      using Pk j by (simp add: P_def)
    have fr: "fill_frame joy t" using Pk by (simp add: P_def)
    have mj: "m + j < 8" using m jb by simp
    have nat_eq: "nat (int m + int j) = m + j" by simp
    show ?thesis
      using z l ns r ax c lt jb mj n(3) pub fr
      unfolding j P_def
      by (simp add: fill_pov_def fill_unfold sticks_ok_def default_name_hat_def nat_eq
          nat_int_Suc' nat_add_distrib add.commute eval_nat_numeral)
  qed
  have "\<exists>s'. for_loop 0 (num_povs can) fill_pov joy = Some s' \<and> P (num_povs can) s'"
    by (rule for_loop_rule[where P = P, OF n(1) P0 step])
  then show ?thesis by (simp add: P_def can_def)
qed

lemma default_name_button_spec: "default_name_button = map spec_button_default [0..<32]"
  by code_simp

lemma default_name_button_nth: "j < 32 \<Longrightarrow> default_name_button ! j = spec_button_default j"
  by (simp only: default_name_button_spec nth_map length_upt nth_upt) simp

lemma default_name_button_length: "length default_name_button = 32"
  by (simp only: default_name_button_spec length_map length_upt)

lemma fill_buttons_ok:
  assumes wf: "caps_wf (caps_and_names joy)" and lb: "length (info_button (info (parent joy))) = 32"
  shows "\<exists>joy'. for_loop 0 (num_buttons (caps_and_names joy)) fill_button joy = Some joy' \<and>
     caps_and_names joy' = caps_and_names joy \<and>
     info_stick (info (parent joy')) = info_stick (info (parent joy)) \<and>
     num_sticks (info (parent joy')) = num_sticks (info (parent joy)) \<and>
     joystate joy' = joystate joy \<and> slider_mapping joy' = slider_mapping joy \<and>
     pov_mapping_stick joy' = pov_mapping_stick joy \<and>
     length (info_button (info (parent joy'))) = 32 \<and>
     take (nat (num_buttons (caps_and_names joy))) (info_button (info (parent joy'))) =
       map Some (spec_buttons (caps_and_names joy))"
proof -
  define can where "can = caps_and_names joy"
  define P where "P = (\<lambda>k (j::AL_JOYSTICK_DIRECTX). caps_and_names j = can \<and>
     info_stick (info (parent j)) = info_stick (info (parent joy)) \<and>
     num_sticks (info (parent j)) = num_sticks (info (parent joy)) \<and>
     joystate j = joystate joy \<and> slider_mapping j = slider_mapping joy \<and>
     pov_mapping_stick j = pov_mapping_stick joy \<and>
     length (info_button (info (parent j))) = 32 \<and>
     take (nat k) (info_button (info (parent j))) =
       map (\<lambda>(i, n). Some (spec_display_name n (spec_button_default i)))
         (enumerate 0 (take (nat k) (name_button can))))"
  have n: "0 \<le> num_buttons can" "num_buttons can \<le> 32" "length (name_button can) = 32"
    using wf by (simp_all add: caps_wf_def can_def MAX_BUTTONS_def)
  have P0: "P 0 joy" using lb by (simp add: P_def can_def)
  have step: "\<exists>t'. fill_button k t = Some t' \<and> P (k + 1) t'"
    if k: "0 \<le> k" "k < num_buttons can" and Pk: "P k t" for k t
  proof -
    obtain j where j: "k = int j" using k(1) by (auto elim: nonneg_int_cases)
    have jb: "j < 32" using k(2) n(2) j by simp
    have tk: "take j (info_button (info (parent t))) =
       map (\<lambda>(i, n). Some (spec_display_name n (spec_button_default i)))
         (enumerate 0 (take j (name_button can)))"
      using Pk j by (simp add: P_def)
    have rest: "caps_and_names t = can" "info_stick (info (parent t)) = info_stick (info (parent joy))"
      "num_sticks (info (parent t)) = num_sticks (info (parent joy))"
      "length (info_button (info (parent t))) = 32"
      "joystate t = joystate joy" "slider_mapping t = slider_mapping joy"
      "pov_mapping_stick t = pov_mapping_stick joy"
      using Pk by (simp_all add: P_def)
    show ?thesis
      using tk rest jb n(3) default_name_button_nth[OF jb]
      unfolding j P_def
      by (simp add: fill_button_def arr_get_def arr_set_def set_info_def OR_name_spec
          default_name_button_length nat_int_Suc' nat_int_Suc take_Suc_conv_app_nth
          enumerate_append_eq min_def Let_def)
  qed
  have "\<exists>s'. for_loop 0 (num_buttons can) fill_button joy = Some s' \<and> P (num_buttons can) s'"
    by (rule for_loop_rule[where P = P, OF n(1) P0 step])
  then show ?thesis by (auto simp add: P_def can_def spec_buttons_def)
qed

lemma zero_joystick_ok:
  "sticks_ok (info (parent (zero_joystick\<lparr>caps_and_names := can\<rparr>))) 0"
  "published_sticks (info (parent (zero_joystick\<lparr>caps_and_names := can\<rparr>))) = []"
  "length (slider_mapping (zero_joystick\<lparr>caps_and_names := can\<rparr>)) = 2"
  "length (pov_mapping_stick (zero_joystick\<lparr>caps_and_names := can\<rparr>)) = 4"
  "length (info_button (info (parent (zero_joystick\<lparr>caps_and_names := can\<rparr>)))) = 32"
  "caps_and_names (zero_joystick\<lparr>caps_and_names := can\<rparr>) = can"
  by (simp_all add: zero_joystick_def zero_info_def sticks_ok_def published_sticks_def
      AL_MAX_JOYSTICK_STICKS_def AL_MAX_JOYSTICK_BUTTONS_def MAX_SLIDERS_def MAX_POVS_def
      MAX_BUTTONS_def zero_stick_info_simps)

lemma fill_runs:
  assumes wf: "caps_wf can"
  shows "\<exists>(joy4 :: AL_JOYSTICK_DIRECTX) joy5 m.
     fill_joystick_info_using_caps_and_names (zero_joystick\<lparr>caps_and_names := can\<rparr>) =
       Some (set_info joy5 ((info (parent joy5))\<lparr>info_num_buttons := num_buttons can\<rparr>)) \<and>
     caps_and_names joy5 = can \<and> m \<le> 8 \<and> sticks_ok (info (parent joy4)) m \<and>
     published_sticks (info (parent joy4)) = map published_form (spec_sticks can) \<and>
     info_stick (info (parent joy5)) = info_stick (info (parent joy4)) \<and>
     num_sticks (info (parent joy5)) = num_sticks (info (parent joy4)) \<and>
     length (info_button (info (parent joy5))) = 32 \<and>
     take (nat (num_buttons can)) (info_button (info (parent joy5))) = map Some (spec_buttons can) \<and>
     joystate joy5 = zero_joystate \<and> length (slider_mapping joy5) = 2 \<and>
     length (pov_mapping_stick joy5) = 4"
proof -
  define joy0 where "joy0 = zero_joystick\<lparr>caps_and_names := can\<rparr>"
  define g1 where "g1 = spec_stick_group
     [(have_x can, name_x can, ''X''), (have_y can, name_y can, ''Y''), (have_z can, name_z can, ''Z'')]"
  define g2 where "g2 = spec_stick_group
     [(have_rx can, name_rx can, ''RX''), (have_ry can, name_ry can, ''RY''), (have_rz can, name_rz can, ''RZ'')]"
  have c0: "caps_and_names joy0 = can" by (simp add: joy0_def)
  have ok0: "sticks_ok (info (parent joy0)) 0" "published_sticks (info (parent joy0)) = []"
    "length (slider_mapping joy0) = 2" "length (pov_mapping_stick joy0) = 4"
    "length (info_button (info (parent joy0))) = 32"
    unfolding joy0_def by (rule zero_joystick_ok)+
  have lg: "length g1 \<le> 1" "length g2 \<le> 1"
    unfolding g1_def g2_def by (rule spec_stick_group_length)+
  from fill_xyz_ok[OF ok0(1)] obtain joy1 where j1: "fill_xyz joy0 = Some joy1"
    "sticks_ok (info (parent joy1)) (length g1)" "fill_frame joy0 joy1"
    "published_sticks (info (parent joy1)) = map published_form g1"
    unfolding c0 g1_def[symmetric] ok0(2) by auto
  have c1: "caps_and_names joy1 = can" using j1(3) c0 by (simp add: fill_frame_def)
  from fill_rxyz_ok[OF j1(2)] lg obtain joy2 where j2: "fill_rxyz joy1 = Some joy2"
    "sticks_ok (info (parent joy2)) (length g1 + length g2)" "fill_frame joy1 joy2"
    "published_sticks (info (parent joy2)) = map published_form g1 @ map published_form g2"
    unfolding c1 g2_def[symmetric] j1(4) by auto
  have c2: "caps_and_names joy2 = can" using j2(3) c1 by (simp add: fill_frame_def)
  have l2: "length (slider_mapping joy2) = 2"
    using j1(3) j2(3) by (simp add: fill_frame_def ok0)
  have wf2: "caps_wf (caps_and_names joy2)" using wf c2 by simp
  have m2: "length g1 + length g2 \<le> 2" using lg by simp
  from fill_sliders_ok[OF j2(2) m2 wf2 l2] obtain joy3 where
    j3: "for_loop 0 (num_sliders can) fill_slider joy2 = Some joy3"
    "sticks_ok (info (parent joy3)) (length g1 + length g2 + nat (num_sliders can))"
    "fill_frame joy2 joy3"
    "published_sticks (info (parent joy3)) = map published_form g1 @ map published_form g2 @
       map (\<lambda>n. published_form (spec_display_name n ''slider'', [[]]))
         (take (nat (num_sliders can)) (name_slider can))"
    unfolding c2 j2(4) by auto
  have c3: "caps_and_names joy3 = can" using j3(3) c2 by (simp add: fill_frame_def)
  have l3: "length (pov_mapping_stick joy3) = 4"
    using j1(3) j2(3) j3(3) by (simp add: fill_frame_def ok0)
  have wf3: "caps_wf (caps_and_names joy3)" using wf c3 by simp
  have m3: "length g1 + length g2 + nat (num_sliders can) \<le> 4"
    using lg wf by (auto simp add: caps_wf_def MAX_SLIDERS_def)
  from fill_povs_ok[OF j3(2) m3 wf3 l3] obtain joy4 where
    j4: "for_loop 0 (num_povs can) fill_pov joy3 = Some joy4"
    "fill_frame joy3 joy4"
    "sticks_ok (info (parent joy4)) (length g1 + length g2 + nat (num_sliders can) + nat (num_povs can))"
    "published_sticks (info (parent joy4)) = map published_form g1 @ map published_form g2 @
       map (\<lambda>n. published_form (spec_display_name n ''slider'', [[]]))
         (take (nat (num_sliders can)) (name_slider can)) @
       map (\<lambda>n. published_form (spec_display_name n ''hat'', [''left/right'', ''up/down'']))
         (take (nat (num_povs can)) (name_pov can))"
    unfolding c3 j3(4) by auto
  have c4: "caps_and_names joy4 = can" using j4(2) c3 by (simp add: fill_frame_def)
  have l4: "length (info_button (info (parent joy4))) = 32"
    using j1(3) j2(3) j3(3) j4(2) by (simp add: fill_frame_def ok0)
  have wf4: "caps_wf (caps_and_names joy4)" using wf c4 by simp
  from fill_buttons_ok[OF wf4 l4] obtain joy5 where
    j5: "for_loop 0 (num_buttons can) fill_button joy4 = Some joy5"
    "caps_and_names joy5 = can"
    "info_stick (info (parent joy5)) = info_stick (info (parent joy4))"
    "num_sticks (info (parent joy5)) = num_sticks (info (parent joy4))"
    "take (nat (num_buttons can)) (info_button (info (parent joy5))) = map Some (spec_buttons can)"
    "joystate joy5 = joystate joy4" "slider_mapping joy5 = slider_mapping joy4"
    "pov_mapping_stick joy5 = pov_mapping_stick joy4"
    "length (info_button (info (parent joy5))) = 32"
    unfolding c4 by auto
  have run: "fill_joystick_info_using_caps_and_names joy0 =
      Some (set_info joy5 ((info (parent joy5))\<lparr>info_num_buttons := num_buttons can\<rparr>))"
    by (simp add: fill_joystick_info_using_caps_and_names_def j1(1) j2(1) j3(1) j4(1) j5(1,2) c1 c2 c3 c4)
  have sp: "published_sticks (info (parent joy4)) = map published_form (spec_sticks can)"
    unfolding j4(4) by (simp add: spec_sticks_def g1_def g2_def)
  have m8: "length g1 + length g2 + nat (num_sliders can) + nat (num_povs can) \<le> 8"
    using lg wf by (auto simp add: caps_wf_def MAX_SLIDERS_def MAX_POVS_def)
  have js: "joystate joy5 = zero_joystate"
    using j1(3) j2(3) j3(3) j4(2) j5(6) by (simp add: fill_frame_def joy0_def zero_joystick_def)
  have ls: "length (slider_mapping joy5) = 2" "length (pov_mapping_stick joy5) = 4"
    using j1(3) j2(3) j3(3) j4(2) j5(7,8) by (simp_all add: fill_frame_def ok0)
  show ?thesis
    unfolding joy0_def[symmetric]
    by (rule exI[of _ joy4], rule exI[of _ joy5],
        rule exI[of _ "length g1 + length g2 + nat (num_sliders can) + nat (num_povs can)"])
       (simp add: run j5(2) m8 j4(3) sp j5(3,4,9,5) js ls)
qed

lemma fill_joy_wf:
  assumes wf: "caps_wf can"
  shows "\<exists>joy'. fill_joystick_info_using_caps_and_names (zero_joystick\<lparr>caps_and_names := can\<rparr>) =
           Some joy' \<and> joy_wf joy'"
proof -
  from fill_runs[OF wf] obtain joy4 :: AL_JOYSTICK_DIRECTX and joy5 and m where
    r: "fill_joystick_info_using_caps_and_names (zero_joystick\<lparr>caps_and_names := can\<rparr>) =
       Some (set_info joy5 ((info (parent joy5))\<lparr>info_num_buttons := num_buttons can\<rparr>))"
    "m \<le> 8" "sticks_ok (info (parent joy4)) m"
    "info_stick (info (parent joy5)) = info_stick (info (parent joy4))"
    "num_sticks (info (parent joy5)) = num_sticks (info (parent joy4))"
    "length (info_button (info (parent joy5))) = 32"
    "joystate joy5 = zero_joystate" "length (slider_mapping joy5) = 2"
    "length (pov_mapping_stick joy5) = 4"
    by blast
  have ax: "\<forall>si \<in> set (info_stick (info (parent joy4))). num_axes si \<le> 3"
    using r(3) by (auto simp add: sticks_ok_def in_set_conv_nth)
  have "joy_wf (set_info joy5 ((info (parent joy5))\<lparr>info_num_buttons := num_buttons can\<rparr>))"
    using r(2-9) ax wf
    by (simp add: joy_wf_def set_info_def sticks_ok_def caps_wf_def zero_joystate_def
        AL_MAX_JOYSTICK_AXES_def AL_MAX_JOYSTICK_STICKS_def AL_MAX_JOYSTICK_BUTTONS_def
        MAX_SLIDERS_def MAX_POVS_def MAX_BUTTONS_def)
  then show ?thesis using r(1) by simp
qed

text \<open>
  C1. The layout builder is a total function of the capability map: started on the
  zeroed device record holding a well-formed capability map it returns (it never leaves
  its arrays), and the schema it publishes is the layout the spec describes: the X, Y, Z
  axes that are present form a first stick named "stick", in that order and without
  holes; the RX, RY, RZ axes that are present form the next one; then one one-axis stick
  per slider and one two-axis stick per hat with axes "left/right" and "up/down"; the
  buttons follow in discovery order; an absent display name is replaced by its
  canonical default.
\<close>

theorem layout_builder_refines_spec:
  assumes wf: "caps_wf can"
  shows "\<exists>joy'. fill_joystick_info_using_caps_and_names (zero_joystick\<lparr>caps_and_names := can\<rparr>) = Some joy' \<and>
     caps_and_names joy' = can \<and>
     published_sticks (info (parent joy')) = map published_form (spec_sticks can) \<and>
     published_buttons (info (parent joy')) = map Some (spec_buttons can)"
proof -
  from fill_runs[OF wf] obtain joy4 :: AL_JOYSTICK_DIRECTX and joy5 where
    r: "fill_joystick_info_using_caps_and_names (zero_joystick\<lparr>caps_and_names := can\<rparr>) =
       Some (set_info joy5 ((info (parent joy5))\<lparr>info_num_buttons := num_buttons can\<rparr>))"
    "caps_and_names joy5 = can"
    "published_sticks (info (parent joy4)) = map published_form (spec_sticks can)"
    "info_stick (info (parent joy5)) = info_stick (info (parent joy4))"
    "num_sticks (info (parent joy5)) = num_sticks (info (parent joy4))"
    "take (nat (num_buttons can)) (info_button (info (parent joy5))) = map Some (spec_buttons can)"
    by blast
  define joy6 where "joy6 = set_info joy5 ((info (parent joy5))\<lparr>info_num_buttons := num_buttons can\<rparr>)"
  have p5: "published_sticks (info (parent joy5)) = published_sticks (info (parent joy4))"
    using r(4,5) by (simp add: published_sticks_def)
  have p6: "published_sticks (info (parent joy6)) = published_sticks (info (parent joy5))"
    by (simp add: joy6_def set_info_def published_sticks_def)
  have b6: "published_buttons (info (parent joy6)) = map Some (spec_buttons can)"
    using r(6) by (simp add: joy6_def set_info_def published_buttons_def)
  have c6: "caps_and_names joy6 = can"
    using r(2) by (simp add: joy6_def set_info_def)
  show ?thesis
    unfolding r(1) joy6_def[symmetric]
    using p6 b6 c6 p5 r(3) by simp
qed

theorem layout_builder_refines_spec_witness:
  "caps_wf example_caps \<and>
   (\<exists>joy'. fill_joystick_info_using_caps_and_names
             (zero_joystick\<lparr>caps_and_names := example_caps\<rparr>) = Some joy' \<and>
      published_sticks (info (parent joy')) =
        [(Some ''stick'', [Some ''Y'', Some ''Zed'']),
         (Some ''Throttle'', [Some []]),
         (Some ''hat'', [Some ''left/right'', Some ''up/down''])] \<and>
      published_buttons (info (parent joy')) =
        [Some ''B1'', Some ''Fire'', Some ''B3'', Some ''B4''])"
proof -
  have wf: "caps_wf example_caps"
    by (simp add: example_caps_def zero_caps_def caps_wf_def MAX_SLIDERS_def MAX_POVS_def
        MAX_BUTTONS_def)
  have st: "map published_form (spec_sticks example_caps) =
        [(Some ''stick'', [Some ''Y'', Some ''Zed'']),
         (Some ''Throttle'', [Some []]),
         (Some ''hat'', [Some ''left/right'', Some ''up/down''])]"
    by (simp add: example_caps_def zero_caps_def spec_sticks_def spec_stick_group_def
        spec_display_name_def published_form_def MAX_SLIDERS_def MAX_POVS_def)
  have bt: "map Some (spec_buttons example_caps) =
        [Some ''B1'', Some ''Fire'', Some ''B3'', Some ''B4'']"
    by (simp add: example_caps_def zero_caps_def spec_buttons_def spec_display_name_def
        spec_button_default_def spec_decimal_def MAX_BUTTONS_def eval_nat_numeral
        enumerate_Suc_eq)
  show ?thesis
    using layout_builder_refines_spec [OF wf] wf unfolding st bt by blast
qed

section \<open>The handlers of buffered deltas\<close>

lemma generate_axis_event_accepts:
  "accepts joy AL_EVENT_JOYSTICK_AXIS \<Longrightarrow>
   generate_axis_event joy st ax pos =
     set_es joy ((es (parent joy))\<lparr>es_unused := es_unused (es (parent joy)) - 1,
       es_emitted := es_emitted (es (parent joy)) @ [axis_event st ax pos]\<rparr>)"
  by (simp add: generate_axis_event_def accepts_def al_event_source_needs_to_generate_event_def
      al_event_source_get_unused_event_def al_event_source_emit_event_def axis_event_def)

lemma generate_axis_event_rejects:
  "\<not> accepts joy AL_EVENT_JOYSTICK_AXIS \<Longrightarrow> generate_axis_event joy st ax pos = joy"
  by (simp add: generate_axis_event_def accepts_def al_event_source_needs_to_generate_event_def
      al_event_source_get_unused_event_def)

lemma generate_button_event_accepts:
  "accepts joy t \<Longrightarrow>
   generate_button_event joy b t =
     set_es joy ((es (parent joy))\<lparr>es_unused := es_unused (es (parent joy)) - 1,
       es_emitted := es_emitted (es (parent joy)) @ [button_event t b]\<rparr>)"
  by (simp add: generate_button_event_def accepts_def al_event_source_needs_to_generate_event_def
      al_event_source_get_unused_event_def al_event_source_emit_event_def button_event_def)

lemma generate_button_event_rejects:
  "\<not> accepts joy t \<Longrightarrow> generate_button_event joy b t = joy"
  by (simp add: generate_button_event_def accepts_def al_event_source_needs_to_generate_event_def
      al_event_source_get_unused_event_def)

lemma generate_axis_event_frame:
  "joystate (generate_axis_event joy st ax pos) = joystate joy"
  "info (parent (generate_axis_event joy st ax pos)) = info (parent joy)"
  "gotten (generate_axis_event joy st ax pos) = gotten joy"
  "slider_mapping (generate_axis_event joy st ax pos) = slider_mapping joy"
  "pov_mapping_stick (generate_axis_event joy st ax pos) = pov_mapping_stick joy"
  by (cases "accepts joy AL_EVENT_JOYSTICK_AXIS";
      simp add: generate_axis_event_accepts generate_axis_event_rejects set_es_def)+

lemma generate_button_event_frame:
  "joystate (generate_button_event joy b t) = joystate joy"
  "info (parent (generate_button_event joy b t)) = info (parent joy)"
  "gotten (generate_button_event joy b t) = gotten joy"
  "slider_mapping (generate_button_event joy b t) = slider_mapping joy"
  "pov_mapping_stick (generate_button_event joy b t) = pov_mapping_stick joy"
  by (cases "accepts joy t";
      simp add: generate_button_event_accepts generate_button_event_rejects set_es_def)+

lemma set_joystate_simps:
  "joystate (set_joystate joy js) = js"
  "parent (set_joystate joy js) = parent joy"
  "gotten (set_joystate joy js) = gotten joy"
  "slider_mapping (set_joystate joy js) = slider_mapping joy"
  "pov_mapping_stick (set_joystate joy js) = pov_mapping_stick joy"
  "accepts (set_joystate joy js) t = accepts joy t"
  "emitted (set_joystate joy js) = emitted joy"
  by (simp_all add: set_joystate_def accepts_def emitted_def)

lemma joy_wf_bounds:
  assumes "joy_wf joy"
  shows "length (info_stick (info (parent joy))) = 8" "num_sticks (info (parent joy)) \<le> 8"
    "length (state_stick (joystate joy)) = 8" "length (state_button (joystate joy)) = 32"
    "info_num_buttons (info (parent joy)) \<le> 32"
    "length (slider_mapping joy) = 2" "length (pov_mapping_stick joy) = 4"
    "\<And>k. k < 8 \<Longrightarrow> num_axes (info_stick (info (parent joy)) ! k) \<le> 3"
    "\<And>k. k < 8 \<Longrightarrow> length (state_stick (joystate joy) ! k) = 3"
  using assms
  by (simp_all add: joy_wf_def AL_MAX_JOYSTICK_AXES_def AL_MAX_JOYSTICK_STICKS_def
      AL_MAX_JOYSTICK_BUTTONS_def MAX_SLIDERS_def MAX_POVS_def MAX_BUTTONS_def)

text \<open>The snapshot with one axis position written.\<close>

lemma handle_axis_event_in_schema:
  assumes wf: "joy_wf joy" and sch: "in_schema joy (stick m) (axis m)"
  shows "handle_axis_event to_float joy m raw =
     Some (generate_axis_event
       (set_joystate joy ((joystate joy)\<lparr>state_stick :=
          (state_stick (joystate joy))[nat (stick m) :=
             (state_stick (joystate joy) ! nat (stick m))[nat (axis m) :=
                to_float (real_of_int (sint raw) / 32767)]]\<rparr>))
       (stick m) (axis m) (to_float (real_of_int (sint raw) / 32767)))"
proof -
  have s: "0 \<le> stick m" "stick m < num_sticks (info (parent joy))" "0 \<le> axis m"
    "axis m < num_axes (info_stick (info (parent joy)) ! nat (stick m))"
    using sch by (simp_all add: in_schema_def)
  have k: "nat (stick m) < 8" "stick m < 8" using s(1,2) joy_wf_bounds(2)[OF wf] by linarith+
  have a: "nat (axis m) < 3" "axis m < 3" using s(3,4) joy_wf_bounds(8)[OF wf k(1)] by linarith+
  show ?thesis
    using s k a joy_wf_bounds(1,3)[OF wf] joy_wf_bounds(9)[OF wf k(1)]
    by (simp add: handle_axis_event_def arr_get_def arr_set_def Let_def)
qed

lemma handle_axis_event_out_of_schema:
  assumes wf: "joy_wf joy" and sch: "\<not> in_schema joy (stick m) (axis m)"
  shows "handle_axis_event to_float joy m raw = Some joy"
proof (cases "stick m < 0 \<or> stick m \<ge> num_sticks (info (parent joy))")
  case True
  then show ?thesis by (auto simp add: handle_axis_event_def Let_def)
next
  case False
  then have k: "nat (stick m) < 8" "stick m < 8" using joy_wf_bounds(2)[OF wf] by linarith+
  show ?thesis
    using False sch k joy_wf_bounds(1)[OF wf]
    by (auto simp add: handle_axis_event_def arr_get_def Let_def in_schema_def)
qed

lemma in_range_update:
  assumes "\<forall>row \<in> set xs. \<forall>p \<in> set row. - 1 \<le> p \<and> p \<le> (1::real)"
    and "k < length xs" and "- 1 \<le> q" and "q \<le> 1"
  shows "\<forall>row \<in> set (xs[k := (xs ! k)[j := q]]). \<forall>p \<in> set row. - 1 \<le> p \<and> p \<le> 1"
proof (intro ballI)
  fix row p assume r: "row \<in> set (xs[k := (xs ! k)[j := q]])" and p: "p \<in> set row"
  from r have "row = (xs ! k)[j := q] \<or> row \<in> set xs"
    using set_update_subset_insert[of xs k "(xs ! k)[j := q]"] by auto
  then show "- 1 \<le> p \<and> p \<le> 1"
  proof
    assume "row = (xs ! k)[j := q]"
    then have "p = q \<or> p \<in> set (xs ! k)"
      using p set_update_subset_insert[of "xs ! k" j q] by auto
    then show ?thesis using assms by (auto simp: nth_mem)
  next
    assume "row \<in> set xs"
    then show ?thesis using assms(1) p by blast
  qed
qed

lemma float_rounding_bounds:
  assumes "float_rounding f" "- 32767 \<le> v" "v \<le> (32767::int)"
  shows "- 1 \<le> f (real_of_int v / 32767)" "f (real_of_int v / 32767) \<le> 1"
proof -
  have m: "\<And>x y. x \<le> y \<Longrightarrow> f x \<le> f y" and f1: "f (- 1) = - 1" "f 1 = 1"
    using assms(1) by (simp_all add: float_rounding_def)
  have lo: "- 1 \<le> real_of_int v / 32767" using assms(2) by simp
  have hi: "real_of_int v / 32767 \<le> 1" using assms(3) by simp
  show "- 1 \<le> f (real_of_int v / 32767)" using m[OF lo] f1 by simp
  show "f (real_of_int v / 32767) \<le> 1" using m[OF hi] f1 by simp
qed

lemma joy_wf_state_stick_update:
  assumes "joy_wf joy" "k < 8"
  shows "joy_wf (set_joystate joy ((joystate joy)\<lparr>state_stick :=
     (state_stick (joystate joy))[k := (state_stick (joystate joy) ! k)[j := q]]\<rparr>))"
proof -
  have "\<forall>row \<in> set ((state_stick (joystate joy))[k := (state_stick (joystate joy) ! k)[j := q]]).
      length row = nat AL_MAX_JOYSTICK_AXES"
  proof
    fix row assume "row \<in> set ((state_stick (joystate joy))[k := (state_stick (joystate joy) ! k)[j := q]])"
    then have "row = (state_stick (joystate joy) ! k)[j := q] \<or> row \<in> set (state_stick (joystate joy))"
      using set_update_subset_insert[of "state_stick (joystate joy)" k] by auto
    then show "length row = nat AL_MAX_JOYSTICK_AXES"
      using assms joy_wf_bounds(3)[OF assms(1)] by (auto simp: joy_wf_def nth_mem)
  qed
  then show ?thesis using assms(1) by (simp add: joy_wf_def set_joystate_def)
qed

lemma joy_wf_generate_axis_event: "joy_wf (generate_axis_event joy st ax pos) = joy_wf joy"
  by (simp add: joy_wf_def generate_axis_event_frame)

lemma joy_wf_generate_button_event: "joy_wf (generate_button_event joy b t) = joy_wf joy"
  by (simp add: joy_wf_def generate_button_event_frame)

lemma emitted_generate_axis_event:
  "accepts joy AL_EVENT_JOYSTICK_AXIS \<Longrightarrow>
   emitted (generate_axis_event joy st ax pos) = emitted joy @ [axis_event st ax pos]"
  "\<not> accepts joy AL_EVENT_JOYSTICK_AXIS \<Longrightarrow>
   emitted (generate_axis_event joy st ax pos) = emitted joy"
  by (simp_all add: generate_axis_event_accepts generate_axis_event_rejects emitted_def set_es_def)

text \<open>
  C2. For an axis delta whose mapping resolves to a (stick, axis) inside the schema of a
  well-formed device record, \<^verbatim>\<open>handle_axis_event\<close> returns, stores
  \<open>pos = raw / 32767.0\<close> (as the float it rounds to) into the snapshot at that stick and
  axis, and hands an axis event with that position to the event source, which emits it
  when a subscriber wants axis events and a slot is free (spec 4.5). When the raw value
  lies in the calibrated range [-32767, 32767] and every position of the snapshot was
  in [-1, 1], every position still is.
\<close>

theorem handle_axis_event_stores_and_emits:
  assumes wf: "joy_wf joy" and sch: "in_schema joy (stick m) (axis m)"
  shows "\<exists>joy'. handle_axis_event to_float joy m raw = Some joy' \<and> joy_wf joy' \<and>
     snapshot_axis joy' (stick m) (axis m) = Some (to_float (real_of_int (sint raw) / 32767)) \<and>
     (accepts joy AL_EVENT_JOYSTICK_AXIS \<longrightarrow>
        emitted joy' = emitted joy @
          [axis_event (stick m) (axis m) (to_float (real_of_int (sint raw) / 32767))]) \<and>
     (float_rounding to_float \<and> - 32767 \<le> sint raw \<and> sint raw \<le> 32767 \<and>
        snapshot_in_range joy \<longrightarrow> snapshot_in_range joy')"
proof -
  define pos where "pos = to_float (real_of_int (sint raw) / 32767)"
  define joy1 where "joy1 = set_joystate joy ((joystate joy)\<lparr>state_stick :=
          (state_stick (joystate joy))[nat (stick m) :=
             (state_stick (joystate joy) ! nat (stick m))[nat (axis m) := pos]]\<rparr>)"
  define joy' where "joy' = generate_axis_event joy1 (stick m) (axis m) pos"
  have run: "handle_axis_event to_float joy m raw = Some joy'"
    unfolding joy'_def joy1_def pos_def by (rule handle_axis_event_in_schema[OF wf sch])
  have s: "0 \<le> stick m" "stick m < num_sticks (info (parent joy))" "0 \<le> axis m"
    "axis m < num_axes (info_stick (info (parent joy)) ! nat (stick m))"
    using sch by (simp_all add: in_schema_def)
  have k: "nat (stick m) < 8" "stick m < 8" using s(1,2) joy_wf_bounds(2)[OF wf] by linarith+
  have a: "nat (axis m) < 3" "axis m < 3" using s(3,4) joy_wf_bounds(8)[OF wf k(1)] by linarith+
  have wf1: "joy_wf joy1" unfolding joy1_def by (rule joy_wf_state_stick_update[OF wf k(1)])
  have wf': "joy_wf joy'" unfolding joy'_def using wf1 by (simp add: joy_wf_generate_axis_event)
  have js: "joystate joy' = joystate joy1"
    unfolding joy'_def by (simp add: generate_axis_event_frame)
  have snap: "snapshot_axis joy' (stick m) (axis m) = Some pos"
    using s k a joy_wf_bounds(3)[OF wf] joy_wf_bounds(9)[OF wf k(1)]
    by (simp add: snapshot_axis_def js joy1_def set_joystate_simps arr_get_def)
  have ev: "emitted joy' = emitted joy @ [axis_event (stick m) (axis m) pos]"
    if "accepts joy AL_EVENT_JOYSTICK_AXIS"
    unfolding joy'_def using that
    by (simp add: emitted_generate_axis_event joy1_def set_joystate_simps)
  have rng: "snapshot_in_range joy'"
    if "float_rounding to_float" "- 32767 \<le> sint raw" "sint raw \<le> 32767" "snapshot_in_range joy"
  proof -
    have "- 1 \<le> pos" "pos \<le> 1"
      unfolding pos_def using float_rounding_bounds[OF that(1,2,3)] by simp_all
    then show ?thesis
      using in_range_update[of "state_stick (joystate joy)" "nat (stick m)" pos "nat (axis m)"]
        that(4) k(1) joy_wf_bounds(3)[OF wf]
      by (simp add: snapshot_in_range_def js joy1_def set_joystate_simps)
  qed
  show ?thesis
    using run wf' snap ev rng unfolding pos_def by blast
qed

lemma joy_wf_state_stick_update2:
  assumes "joy_wf joy" "k < 8"
  shows "joy_wf (set_joystate joy ((joystate joy)\<lparr>state_stick :=
     (state_stick (joystate joy))[k := ((state_stick (joystate joy) ! k)[0 := p])[1 := q]]\<rparr>))"
proof -
  have "\<forall>row \<in> set ((state_stick (joystate joy))[k := ((state_stick (joystate joy) ! k)[0 := p])[1 := q]]).
      length row = nat AL_MAX_JOYSTICK_AXES"
  proof
    fix row assume "row \<in> set ((state_stick (joystate joy))[k := ((state_stick (joystate joy) ! k)[0 := p])[1 := q]])"
    then have "row = ((state_stick (joystate joy) ! k)[0 := p])[1 := q] \<or> row \<in> set (state_stick (joystate joy))"
      using set_update_subset_insert[of "state_stick (joystate joy)" k] by auto
    then show "length row = nat AL_MAX_JOYSTICK_AXES"
      using assms joy_wf_bounds(3)[OF assms(1)] by (auto simp: joy_wf_def nth_mem)
  qed
  then show ?thesis using assms(1) by (simp add: joy_wf_def set_joystate_def)
qed

text \<open>The hat handler on a stick of the schema, without its array checks.\<close>

lemma handle_pov_event_in_range:
  assumes wf: "joy_wf joy" and st: "0 \<le> st" "st < num_sticks (info (parent joy))"
  shows "handle_pov_event joy st raw =
     Some (let row = state_stick (joystate joy) ! nat st;
               joy1 = set_joystate joy ((joystate joy)\<lparr>state_stick :=
                 (state_stick (joystate joy))[nat st :=
                    (row[0 := pov_p0 (sint raw)])[1 := pov_p1 (sint raw)]]\<rparr>);
               joy2 = (if row ! 0 \<noteq> pov_p0 (sint raw)
                       then generate_axis_event joy1 st 0 (pov_p0 (sint raw)) else joy1)
           in if row ! 1 \<noteq> pov_p1 (sint raw)
              then generate_axis_event joy2 st 1 (pov_p1 (sint raw)) else joy2)"
proof -
  have k: "nat st < 8" "st < 8" using st joy_wf_bounds(2)[OF wf] by linarith+
  have ne: "state_stick (joystate joy) ! nat st \<noteq> []"
    using joy_wf_bounds(9)[OF wf k(1)] by auto
  show ?thesis
    using st k ne joy_wf_bounds(3)[OF wf] joy_wf_bounds(9)[OF wf k(1)]
    by (simp add: handle_pov_event_def arr_get_def arr_set_def Let_def)
qed

lemma handle_pov_event_out_of_range:
  "st < 0 \<or> st \<ge> num_sticks (info (parent joy)) \<Longrightarrow> handle_pov_event joy st raw = Some joy"
  by (auto simp add: handle_pov_event_def)

lemma snapshot_axis_generate_axis_event:
  "snapshot_axis (generate_axis_event joy st ax pos) s a = snapshot_axis joy s a"
  by (simp add: snapshot_axis_def generate_axis_event_frame)

lemma pov_values: "pov_p0 v \<in> {- 1, 0, 1}" "pov_p1 v \<in> {- 1, 0, 1}"
  by (simp_all add: pov_p0_def pov_p1_def)

lemma handle_pov_event_snapshot:
  assumes wf: "joy_wf joy" and st: "0 \<le> st" "st < num_sticks (info (parent joy))"
  shows "\<exists>joy'. handle_pov_event joy st raw = Some joy' \<and> joy_wf joy' \<and>
     snapshot_axis joy' st 0 = Some (pov_p0 (sint raw)) \<and>
     snapshot_axis joy' st 1 = Some (pov_p1 (sint raw))"
proof -
  have k: "nat st < 8" "st < 8" using st joy_wf_bounds(2)[OF wf] by linarith+
  define joy1 where "joy1 = set_joystate joy ((joystate joy)\<lparr>state_stick :=
                 (state_stick (joystate joy))[nat st :=
                    ((state_stick (joystate joy) ! nat st)[0 := pov_p0 (sint raw)])[1 := pov_p1 (sint raw)]]\<rparr>)"
  have wf1: "joy_wf joy1" unfolding joy1_def by (rule joy_wf_state_stick_update2[OF wf k(1)])
  have ne: "state_stick (joystate joy) ! nat st \<noteq> []"
    using joy_wf_bounds(9)[OF wf k(1)] by auto
  have s1: "snapshot_axis joy1 st 0 = Some (pov_p0 (sint raw))"
    "snapshot_axis joy1 st 1 = Some (pov_p1 (sint raw))"
    using st k ne joy_wf_bounds(3)[OF wf] joy_wf_bounds(9)[OF wf k(1)]
    by (simp_all add: snapshot_axis_def joy1_def set_joystate_simps arr_get_def)
  show ?thesis
    unfolding handle_pov_event_in_range[OF wf st] Let_def joy1_def[symmetric]
    using wf1 s1
    by (simp add: snapshot_axis_generate_axis_event joy_wf_generate_axis_event)
qed

lemmas pad_unfold =
  pad_def pad_info_def pad_caps_def full_pad_def pad_right_def
  zero_joystick_def zero_joystate_def zero_stick_info_def zero_mapping_def zero_caps_def
  AL_MAX_JOYSTICK_AXES_def AL_MAX_JOYSTICK_STICKS_def AL_MAX_JOYSTICK_BUTTONS_def
  MAX_SLIDERS_def MAX_POVS_def MAX_BUTTONS_def set_es_def set_joystate_def

lemma pad_wf: "joy_wf pad"
  by (simp add: joy_wf_def pad_unfold)

lemma full_pad_wf: "joy_wf full_pad"
  by (simp add: joy_wf_def pad_unfold)

text \<open>
  The theorem at the pad: a delta of its Y axis with the raw value 32767.
\<close>

theorem handle_axis_event_stores_and_emits_witness:
  "joy_wf pad \<and> in_schema pad (stick (y_mapping pad)) (axis (y_mapping pad)) \<and>
   accepts pad AL_EVENT_JOYSTICK_AXIS \<and> float_rounding (\<lambda>x. x) \<and>
   - 32767 \<le> sint (32767 :: 32 word) \<and> sint (32767 :: 32 word) \<le> 32767 \<and>
   snapshot_in_range pad \<and>
   (\<exists>joy'. handle_axis_event (\<lambda>x. x) pad (y_mapping pad) 32767 = Some joy' \<and>
      snapshot_axis joy' 0 1 = Some 1 \<and> emitted joy' = [axis_event 0 1 1] \<and>
      snapshot_in_range joy')"
proof -
  have sch: "in_schema pad (stick (y_mapping pad)) (axis (y_mapping pad))"
    by (simp add: in_schema_def pad_unfold)
  have acc: "accepts pad AL_EVENT_JOYSTICK_AXIS" by (simp add: accepts_def pad_unfold)
  have fr: "float_rounding (\<lambda>x. x)" by (simp add: float_rounding_def)
  have rng: "snapshot_in_range pad" by (simp add: snapshot_in_range_def pad_unfold)
  have m: "stick (y_mapping pad) = 0" "axis (y_mapping pad) = 1" "emitted pad = []"
    by (simp_all add: pad_unfold emitted_def)
  show ?thesis
    using handle_axis_event_stores_and_emits [OF pad_wf sch, of "\<lambda>x. x" 32767]
      pad_wf sch acc fr rng
    by (simp add: m, blast)
qed

text \<open>
  C3, as amended. For a hat delta on a stick of the schema, \<^verbatim>\<open>handle_pov_event\<close>
  returns and stores into the stick's two axes: x = +1 if 0 < raw < 18000, x = -1 if
  18000 < raw < 36000, else x = 0; y = -1 if 0 <= raw < 9000 or 27000 < raw <= 36000,
  y = +1 if 9000 < raw < 27000, else y = 0. The centered sentinel (any value outside
  0 to 36000) yields (0, 0), and both axes are always in {-1, 0, +1}.
\<close>

theorem handle_pov_event_decision_rule:
  assumes "joy_wf joy" and "0 \<le> st" and "st < num_sticks (info (parent joy))"
  shows "\<exists>joy'. handle_pov_event joy st raw = Some joy' \<and>
     snapshot_axis joy' st 0 =
       Some (if 0 < sint raw \<and> sint raw < 18000 then 1
             else if 18000 < sint raw \<and> sint raw < 36000 then - 1 else 0) \<and>
     snapshot_axis joy' st 1 =
       Some (if (0 \<le> sint raw \<and> sint raw < 9000) \<or> (27000 < sint raw \<and> sint raw \<le> 36000) then - 1
             else if 9000 < sint raw \<and> sint raw < 27000 then 1 else 0) \<and>
     (sint raw < 0 \<or> 36000 < sint raw \<longrightarrow>
        snapshot_axis joy' st 0 = Some 0 \<and> snapshot_axis joy' st 1 = Some 0) \<and>
     snapshot_axis joy' st 0 \<in> {Some (- 1), Some 0, Some 1} \<and>
     snapshot_axis joy' st 1 \<in> {Some (- 1), Some 0, Some 1}"
proof -
  from handle_pov_event_snapshot[OF assms] obtain joy' where
    j: "handle_pov_event joy st raw = Some joy'"
    "snapshot_axis joy' st 0 = Some (pov_p0 (sint raw))"
    "snapshot_axis joy' st 1 = Some (pov_p1 (sint raw))" by blast
  have p0: "pov_p0 (sint raw) =
       (if 0 < sint raw \<and> sint raw < 18000 then 1
        else if 18000 < sint raw \<and> sint raw < 36000 then - 1 else 0)"
    by (simp add: pov_p0_def JOY_POVFORWARD_def JOY_POVBACKWARD_def JOY_POVFORWARD_WRAP_def)
  have p1: "pov_p1 (sint raw) =
       (if (0 \<le> sint raw \<and> sint raw < 9000) \<or> (27000 < sint raw \<and> sint raw \<le> 36000) then - 1
        else if 9000 < sint raw \<and> sint raw < 27000 then 1 else 0)"
    by (auto simp add: pov_p1_def JOY_POVFORWARD_def JOY_POVRIGHT_def JOY_POVLEFT_def
        JOY_POVFORWARD_WRAP_def)
  show ?thesis
    unfolding j p0 p1 by (rule exI[of _ joy']) (auto simp: j(2,3) p0 p1)
qed

text \<open>The theorem at the pad, its hat pushed to the left (27000).\<close>

theorem handle_pov_event_decision_rule_witness:
  "joy_wf pad \<and> (0::int) \<le> 1 \<and> 1 < num_sticks (info (parent pad)) \<and>
   (\<exists>joy'. handle_pov_event pad 1 27000 = Some joy' \<and>
      snapshot_axis joy' 1 0 = Some (- 1) \<and> snapshot_axis joy' 1 1 = Some 0)"
proof -
  have n: "1 < num_sticks (info (parent pad))" by (simp add: pad_unfold)
  show ?thesis
    using handle_pov_event_decision_rule [OF pad_wf _ n, of 27000] pad_wf n by (simp, blast)
qed

text \<open>
  C3 as the claim states it fails: for the hat pushed to the right (9000) the source
  stores (x, y) = (+1, 0), the rule of the claim gives (0, -1).
\<close>

theorem spec_hat_rule_counterexample:
  "handle_pov_event pad 1 9000 = Some pad_right \<and>
   snapshot_axis pad_right 1 0 = Some 1 \<and> snapshot_axis pad_right 1 1 = Some 0 \<and>
   spec_hat_x (sint (9000 :: 32 word)) = 0 \<and> spec_hat_y (sint (9000 :: 32 word)) = - 1"
proof -
  have n: "0 \<le> (1::int)" "1 < num_sticks (info (parent pad))" by (simp_all add: pad_unfold)
  have acc: "accepts pad AL_EVENT_JOYSTICK_AXIS" by (simp add: accepts_def pad_unfold)
  have p: "pov_p0 (sint (9000 :: 32 word)) = 1" "pov_p1 (sint (9000 :: 32 word)) = 0"
    by (simp_all add: pov_p0_def pov_p1_def JOY_POVFORWARD_def JOY_POVRIGHT_def JOY_POVLEFT_def
        JOY_POVFORWARD_WRAP_def JOY_POVBACKWARD_def)
  have "handle_pov_event pad 1 9000 = Some pad_right"
    unfolding handle_pov_event_in_range[OF pad_wf n] p Let_def
    by (simp add: generate_axis_event_accepts accepts_def axis_event_def pad_unfold
        eval_nat_numeral)
  moreover have "snapshot_axis pad_right 1 0 = Some 1" "snapshot_axis pad_right 1 1 = Some 0"
    by (simp_all add: snapshot_axis_def arr_get_def pad_unfold)
  moreover have "spec_hat_x (sint (9000 :: 32 word)) = 0" "spec_hat_y (sint (9000 :: 32 word)) = - 1"
    by (simp_all add: spec_hat_x_def spec_hat_y_def)
  ultimately show ?thesis by simp
qed

lemma emitted_generate_axis_event_if:
  "emitted (generate_axis_event joy st ax pos) =
     emitted joy @ (if accepts joy AL_EVENT_JOYSTICK_AXIS then [axis_event st ax pos] else [])"
  by (simp add: emitted_generate_axis_event)

lemma accepts_after_axis_event:
  "accepts (generate_axis_event joy st ax pos) t \<longleftrightarrow>
     t \<in> set (es_wanted (es (parent joy))) \<and>
     (if AL_EVENT_JOYSTICK_AXIS \<in> set (es_wanted (es (parent joy)))
      then 2 \<le> es_unused (es (parent joy)) else 1 \<le> es_unused (es (parent joy)))"
  by (cases "accepts joy AL_EVENT_JOYSTICK_AXIS")
     (auto simp add: generate_axis_event_accepts generate_axis_event_rejects accepts_def set_es_def)

lemma snapshot_axis_row:
  assumes "joy_wf joy" "0 \<le> st" "st < num_sticks (info (parent joy))"
  shows "snapshot_axis joy st 0 = Some (state_stick (joystate joy) ! nat st ! 0)"
    "snapshot_axis joy st 1 = Some (state_stick (joystate joy) ! nat st ! 1)"
proof -
  have k: "nat st < 8" "st < 8" using assms(2,3) joy_wf_bounds(2)[OF assms(1)] by linarith+
  show "snapshot_axis joy st 0 = Some (state_stick (joystate joy) ! nat st ! 0)"
    "snapshot_axis joy st 1 = Some (state_stick (joystate joy) ! nat st ! 1)"
    using assms(2) k joy_wf_bounds(3)[OF assms(1)] joy_wf_bounds(9)[OF assms(1) k(1)]
    by (auto simp add: snapshot_axis_def arr_get_def)
qed

text \<open>
  C4. A hat delta emits axis events on edges only. The events it adds to the stream are
  among the edge events, one for each axis whose new value differs from the value the
  snapshot held: when the new value of axis 0 (of axis 1) equals the stored one, no event
  for that axis is added; and when a subscriber wants axis events and two slots are
  free, the events added are exactly the edge events, each carrying the new value.
\<close>

theorem hat_events_on_edges_only:
  assumes wf: "joy_wf joy" and st: "0 \<le> st" "st < num_sticks (info (parent joy))"
    and old: "snapshot_axis joy st 0 = Some old0" "snapshot_axis joy st 1 = Some old1"
  shows "\<exists>joy' new. handle_pov_event joy st raw = Some joy' \<and>
     emitted joy' = emitted joy @ new \<and>
     set new \<subseteq> set (hat_edges st old0 old1 (sint raw)) \<and>
     (old0 = pov_p0 (sint raw) \<longrightarrow> (\<forall>e \<in> set new. ev_axis e \<noteq> 0)) \<and>
     (old1 = pov_p1 (sint raw) \<longrightarrow> (\<forall>e \<in> set new. ev_axis e \<noteq> 1)) \<and>
     (AL_EVENT_JOYSTICK_AXIS \<in> set (es_wanted (es (parent joy))) \<and>
      2 \<le> es_unused (es (parent joy)) \<longrightarrow> new = hat_edges st old0 old1 (sint raw))"
proof -
  define row where "row = state_stick (joystate joy) ! nat st"
  have o: "row ! 0 = old0" "row ! 1 = old1"
    using old snapshot_axis_row[OF wf st] by (simp_all add: row_def)
  define joy1 where "joy1 = set_joystate joy ((joystate joy)\<lparr>state_stick :=
                 (state_stick (joystate joy))[nat st :=
                    (row[0 := pov_p0 (sint raw)])[1 := pov_p1 (sint raw)]]\<rparr>)"
  define joy2 where "joy2 = (if old0 \<noteq> pov_p0 (sint raw)
                       then generate_axis_event joy1 st 0 (pov_p0 (sint raw)) else joy1)"
  define joy' where "joy' = (if old1 \<noteq> pov_p1 (sint raw)
                       then generate_axis_event joy2 st 1 (pov_p1 (sint raw)) else joy2)"
  define new where "new =
     (if old0 \<noteq> pov_p0 (sint raw) \<and> accepts joy1 AL_EVENT_JOYSTICK_AXIS
      then [axis_event st 0 (pov_p0 (sint raw))] else []) @
     (if old1 \<noteq> pov_p1 (sint raw) \<and> accepts joy2 AL_EVENT_JOYSTICK_AXIS
      then [axis_event st 1 (pov_p1 (sint raw))] else [])"
  have run: "handle_pov_event joy st raw = Some joy'"
    unfolding handle_pov_event_in_range[OF wf st] Let_def row_def[symmetric] o
      joy1_def[symmetric] joy2_def[symmetric] joy'_def ..
  have e1: "emitted joy1 = emitted joy" by (simp add: joy1_def set_joystate_simps)
  have em: "emitted joy' = emitted joy @ new"
    by (simp add: joy'_def joy2_def new_def emitted_generate_axis_event_if e1)
  have sub: "set new \<subseteq> set (hat_edges st old0 old1 (sint raw))"
    by (auto simp add: new_def hat_edges_def)
  have ax0: "\<forall>e \<in> set new. ev_axis e \<noteq> 0" if "old0 = pov_p0 (sint raw)"
    using that by (auto simp add: new_def axis_event_def)
  have ax1: "\<forall>e \<in> set new. ev_axis e \<noteq> 1" if "old1 = pov_p1 (sint raw)"
    using that by (auto simp add: new_def axis_event_def)
  have all: "new = hat_edges st old0 old1 (sint raw)"
    if "AL_EVENT_JOYSTICK_AXIS \<in> set (es_wanted (es (parent joy)))"
      "2 \<le> es_unused (es (parent joy))"
  proof -
    have a1: "accepts joy1 AL_EVENT_JOYSTICK_AXIS"
      using that by (simp add: joy1_def set_joystate_simps accepts_def)
    have a2: "accepts joy2 AL_EVENT_JOYSTICK_AXIS"
      using that a1 by (simp add: joy2_def accepts_after_axis_event)
        (simp add: joy1_def set_joystate_def accepts_def)
    show ?thesis by (simp add: new_def hat_edges_def a1 a2)
  qed
  show ?thesis using run em sub ax0 ax1 all by blast
qed

text \<open>
  The theorem at the pad with its hat to the right, moved to down-right (13500): the
  x axis keeps its value, the y axis changes, one event for the y axis.
\<close>

theorem hat_events_on_edges_only_witness:
  "joy_wf pad_right \<and> (0::int) \<le> 1 \<and> 1 < num_sticks (info (parent pad_right)) \<and>
   snapshot_axis pad_right 1 0 = Some 1 \<and> snapshot_axis pad_right 1 1 = Some 0 \<and>
   AL_EVENT_JOYSTICK_AXIS \<in> set (es_wanted (es (parent pad_right))) \<and>
   2 \<le> es_unused (es (parent pad_right)) \<and>
   (\<exists>joy'. handle_pov_event pad_right 1 13500 = Some joy' \<and>
      emitted joy' = emitted pad_right @ [axis_event 1 1 1])"
proof -
  have wf: "joy_wf pad_right" by (simp add: joy_wf_def pad_unfold)
  have n: "1 < num_sticks (info (parent pad_right))" by (simp add: pad_unfold)
  have old: "snapshot_axis pad_right 1 0 = Some 1" "snapshot_axis pad_right 1 1 = Some 0"
    by (simp_all add: snapshot_axis_def arr_get_def pad_unfold)
  have es: "AL_EVENT_JOYSTICK_AXIS \<in> set (es_wanted (es (parent pad_right)))"
    "2 \<le> es_unused (es (parent pad_right))"
    by (simp_all add: pad_unfold)
  have e: "hat_edges 1 1 0 (sint (13500 :: 32 word)) = [axis_event 1 1 1]"
    by (simp add: hat_edges_def pov_p0_def pov_p1_def JOY_POVFORWARD_def JOY_POVRIGHT_def
        JOY_POVLEFT_def JOY_POVFORWARD_WRAP_def JOY_POVBACKWARD_def)
  have z: "(0::int) \<le> 1" by simp
  from hat_events_on_edges_only [OF wf z n old, of 13500] obtain joy' new where
    j: "handle_pov_event pad_right 1 13500 = Some joy'"
      "emitted joy' = emitted pad_right @ new"
      "AL_EVENT_JOYSTICK_AXIS \<in> set (es_wanted (es (parent pad_right))) \<and>
       2 \<le> es_unused (es (parent pad_right)) \<longrightarrow>
         new = hat_edges 1 1 0 (sint (13500 :: 32 word))"
    by blast
  have "new = [axis_event 1 1 1]" using j(3) es e by simp
  then show ?thesis using j(1,2) wf z n old es by simp
qed

lemma handle_button_event_in_range:
  assumes wf: "joy_wf joy" and b: "0 \<le> b" "b < info_num_buttons (info (parent joy))"
  shows "handle_button_event joy b down =
     Some (generate_button_event
       (set_joystate joy ((joystate joy)\<lparr>state_button :=
          (state_button (joystate joy))[nat b := (if down then 32767 else 0)]\<rparr>))
       b (if down then AL_EVENT_JOYSTICK_BUTTON_DOWN else AL_EVENT_JOYSTICK_BUTTON_UP))"
proof -
  have k: "b < 32" using b joy_wf_bounds(5)[OF wf] by linarith
  show ?thesis
    using b k joy_wf_bounds(4)[OF wf]
    by (simp add: handle_button_event_def arr_set_def)
qed

lemma joy_wf_state_button_update:
  assumes "joy_wf joy"
  shows "joy_wf (set_joystate joy ((joystate joy)\<lparr>state_button :=
     (state_button (joystate joy))[k := v]\<rparr>))"
  using assms by (simp add: joy_wf_def set_joystate_def)

lemma full_rejects:
  "es_unused (es (parent joy)) = 0 \<Longrightarrow> \<not> accepts joy t"
  by (simp add: accepts_def)

text \<open>
  C9. When the event source has no unused slot, the state mutation stands and no event
  is delivered: an axis delta inside the schema, a hat delta on a stick of the schema
  and a button delta inside the schema each return with the new value in the snapshot
  and the event source untouched. For an axis delta the snapshot is written first:
  \<^verbatim>\<open>generate_axis_event\<close>, the only place where a slot is asked for, runs on the record
  that already holds the new position, and returns it as it is.
\<close>

theorem queue_full_state_stands:
  assumes wf: "joy_wf joy" and full: "es_unused (es (parent joy)) = 0"
  shows
    "(in_schema joy (stick m) (axis m) \<longrightarrow>
        (\<exists>joy1. snapshot_axis joy1 (stick m) (axis m) =
                    Some (to_float (real_of_int (sint raw) / 32767)) \<and>
           handle_axis_event to_float joy m raw =
             Some (generate_axis_event joy1 (stick m) (axis m)
                     (to_float (real_of_int (sint raw) / 32767))) \<and>
           generate_axis_event joy1 (stick m) (axis m)
             (to_float (real_of_int (sint raw) / 32767)) = joy1 \<and>
           es (parent joy1) = es (parent joy))) \<and>
     (0 \<le> st \<and> st < num_sticks (info (parent joy)) \<longrightarrow>
        (\<exists>joy'. handle_pov_event joy st hat_raw = Some joy' \<and>
           snapshot_axis joy' st 0 = Some (pov_p0 (sint hat_raw)) \<and>
           snapshot_axis joy' st 1 = Some (pov_p1 (sint hat_raw)) \<and>
           es (parent joy') = es (parent joy))) \<and>
     (0 \<le> b \<and> b < info_num_buttons (info (parent joy)) \<longrightarrow>
        (\<exists>joy'. handle_button_event joy b down = Some joy' \<and>
           snapshot_button joy' b = Some (if down then 32767 else 0) \<and>
           es (parent joy') = es (parent joy)))"
proof (intro conjI impI)
  assume sch: "in_schema joy (stick m) (axis m)"
  define pos where "pos = to_float (real_of_int (sint raw) / 32767)"
  define joy1 where "joy1 = set_joystate joy ((joystate joy)\<lparr>state_stick :=
          (state_stick (joystate joy))[nat (stick m) :=
             (state_stick (joystate joy) ! nat (stick m))[nat (axis m) := pos]]\<rparr>)"
  have s: "0 \<le> stick m" "stick m < num_sticks (info (parent joy))" "0 \<le> axis m"
    "axis m < num_axes (info_stick (info (parent joy)) ! nat (stick m))"
    using sch by (simp_all add: in_schema_def)
  have k: "nat (stick m) < 8" "stick m < 8" using s(1,2) joy_wf_bounds(2)[OF wf] by linarith+
  have a: "nat (axis m) < 3" "axis m < 3" using s(3,4) joy_wf_bounds(8)[OF wf k(1)] by linarith+
  have snap: "snapshot_axis joy1 (stick m) (axis m) = Some pos"
    using s k a joy_wf_bounds(3)[OF wf] joy_wf_bounds(9)[OF wf k(1)]
    by (simp add: snapshot_axis_def joy1_def set_joystate_simps arr_get_def)
  have run: "handle_axis_event to_float joy m raw =
      Some (generate_axis_event joy1 (stick m) (axis m) pos)"
    unfolding joy1_def pos_def by (rule handle_axis_event_in_schema[OF wf sch])
  have rej: "\<not> accepts joy1 AL_EVENT_JOYSTICK_AXIS"
    using full by (simp add: joy1_def set_joystate_simps full_rejects)
  have same: "es (parent joy1) = es (parent joy)" by (simp add: joy1_def set_joystate_simps)
  show "\<exists>joy1. snapshot_axis joy1 (stick m) (axis m) =
                    Some (to_float (real_of_int (sint raw) / 32767)) \<and>
           handle_axis_event to_float joy m raw =
             Some (generate_axis_event joy1 (stick m) (axis m)
                     (to_float (real_of_int (sint raw) / 32767))) \<and>
           generate_axis_event joy1 (stick m) (axis m)
             (to_float (real_of_int (sint raw) / 32767)) = joy1 \<and>
           es (parent joy1) = es (parent joy)"
    using snap run generate_axis_event_rejects[OF rej] same unfolding pos_def by blast
next
  assume st: "0 \<le> st \<and> st < num_sticks (info (parent joy))"
  then have st': "0 \<le> st" "st < num_sticks (info (parent joy))" by simp_all
  have k: "nat st < 8" "st < 8" using st' joy_wf_bounds(2)[OF wf] by linarith+
  define joy1 where "joy1 = set_joystate joy ((joystate joy)\<lparr>state_stick :=
                 (state_stick (joystate joy))[nat st :=
                    ((state_stick (joystate joy) ! nat st)[0 := pov_p0 (sint hat_raw)])[1 := pov_p1 (sint hat_raw)]]\<rparr>)"
  have rej: "\<not> accepts joy1 AL_EVENT_JOYSTICK_AXIS"
    using full by (simp add: joy1_def set_joystate_simps full_rejects)
  have run: "handle_pov_event joy st hat_raw = Some joy1"
    unfolding handle_pov_event_in_range[OF wf st'] Let_def joy1_def[symmetric]
    by (simp add: generate_axis_event_rejects[OF rej])
  have ne: "state_stick (joystate joy) ! nat st \<noteq> []"
    using joy_wf_bounds(9)[OF wf k(1)] by auto
  have s1: "snapshot_axis joy1 st 0 = Some (pov_p0 (sint hat_raw))"
    "snapshot_axis joy1 st 1 = Some (pov_p1 (sint hat_raw))"
    using st' k ne joy_wf_bounds(3)[OF wf] joy_wf_bounds(9)[OF wf k(1)]
    by (simp_all add: snapshot_axis_def joy1_def set_joystate_simps arr_get_def)
  have same: "es (parent joy1) = es (parent joy)" by (simp add: joy1_def set_joystate_simps)
  show "\<exists>joy'. handle_pov_event joy st hat_raw = Some joy' \<and>
           snapshot_axis joy' st 0 = Some (pov_p0 (sint hat_raw)) \<and>
           snapshot_axis joy' st 1 = Some (pov_p1 (sint hat_raw)) \<and>
           es (parent joy') = es (parent joy)"
    using run s1 same by blast
next
  assume b: "0 \<le> b \<and> b < info_num_buttons (info (parent joy))"
  then have b': "0 \<le> b" "b < info_num_buttons (info (parent joy))" by simp_all
  have k: "b < 32" using b' joy_wf_bounds(5)[OF wf] by linarith
  define joy1 where "joy1 = set_joystate joy ((joystate joy)\<lparr>state_button :=
          (state_button (joystate joy))[nat b := (if down then 32767 else 0)]\<rparr>)"
  have rej: "\<And>t. \<not> accepts joy1 t"
    using full by (simp add: joy1_def set_joystate_simps full_rejects)
  have run: "handle_button_event joy b down = Some joy1"
    unfolding handle_button_event_in_range[OF wf b'] joy1_def[symmetric]
    by (simp add: generate_button_event_rejects[OF rej])
  have s1: "snapshot_button joy1 b = Some (if down then 32767 else 0)"
    using b' k joy_wf_bounds(4)[OF wf]
    by (simp add: snapshot_button_def joy1_def set_joystate_simps arr_get_def)
  have same: "es (parent joy1) = es (parent joy)" by (simp add: joy1_def set_joystate_simps)
  show "\<exists>joy'. handle_button_event joy b down = Some joy' \<and>
           snapshot_button joy' b = Some (if down then 32767 else 0) \<and>
           es (parent joy') = es (parent joy)"
    using run s1 same by blast
qed

text \<open>The theorem at the pad whose event source has no slot left.\<close>

theorem queue_full_state_stands_witness:
  "joy_wf full_pad \<and> es_unused (es (parent full_pad)) = 0 \<and>
   in_schema full_pad (stick (x_mapping full_pad)) (axis (x_mapping full_pad)) \<and>
   (0::int) \<le> 1 \<and> 1 < num_sticks (info (parent full_pad)) \<and>
   (0::int) \<le> 2 \<and> 2 < info_num_buttons (info (parent full_pad)) \<and>
   (\<exists>joy'. handle_axis_event (\<lambda>x. x) full_pad (x_mapping full_pad) 32767 = Some joy' \<and>
      snapshot_axis joy' 0 0 = Some 1 \<and> emitted joy' = []) \<and>
   (\<exists>joy'. handle_pov_event full_pad 1 18000 = Some joy' \<and>
      snapshot_axis joy' 1 0 = Some 0 \<and> snapshot_axis joy' 1 1 = Some 1 \<and> emitted joy' = []) \<and>
   (\<exists>joy'. handle_button_event full_pad 2 True = Some joy' \<and>
      snapshot_button joy' 2 = Some 32767 \<and> emitted joy' = [])"
proof -
  have full: "es_unused (es (parent full_pad)) = 0" by (simp add: pad_unfold)
  have sch: "in_schema full_pad (stick (x_mapping full_pad)) (axis (x_mapping full_pad))"
    by (simp add: in_schema_def pad_unfold)
  have n: "1 < num_sticks (info (parent full_pad))" "2 < info_num_buttons (info (parent full_pad))"
    by (simp_all add: pad_unfold)
  have m: "stick (x_mapping full_pad) = 0" "axis (x_mapping full_pad) = 0"
    "es_emitted (es (parent full_pad)) = []"
    by (simp_all add: pad_unfold)
  have p: "pov_p0 (sint (18000 :: 32 word)) = 0" "pov_p1 (sint (18000 :: 32 word)) = 1"
    by (simp_all add: pov_p0_def pov_p1_def JOY_POVFORWARD_def JOY_POVRIGHT_def JOY_POVLEFT_def
        JOY_POVFORWARD_WRAP_def JOY_POVBACKWARD_def)
  note q = queue_full_state_stands [OF full_pad_wf full,
      where m = "x_mapping full_pad" and to_float = "\<lambda>x. x" and raw = 32767 and st = 1
        and hat_raw = 18000 and b = 2 and down = True]
  have z: "(0::int) \<le> 1 \<and> 1 < num_sticks (info (parent full_pad))"
    "(0::int) \<le> 2 \<and> 2 < info_num_buttons (info (parent full_pad))"
    using n by simp_all
  from q[THEN conjunct1, THEN mp, OF sch] obtain j1 where
    j1: "snapshot_axis j1 0 0 = Some 1"
    "handle_axis_event (\<lambda>x. x) full_pad (x_mapping full_pad) 32767 = Some j1"
    "es (parent j1) = es (parent full_pad)"
    by (auto simp add: m generate_axis_event_def)
  from q[THEN conjunct2, THEN conjunct1, THEN mp, OF z(1)] obtain j2 where
    j2: "handle_pov_event full_pad 1 18000 = Some j2"
    "snapshot_axis j2 1 0 = Some (pov_p0 (sint (18000 :: 32 word)))"
    "snapshot_axis j2 1 1 = Some (pov_p1 (sint (18000 :: 32 word)))"
    "es (parent j2) = es (parent full_pad)"
    by blast
  from q[THEN conjunct2, THEN conjunct2, THEN mp, OF z(2)] obtain j3 where
    j3: "handle_button_event full_pad 2 True = Some j3"
    "snapshot_button j3 2 = Some 32767" "es (parent j3) = es (parent full_pad)"
    by auto
  show ?thesis
    using full_pad_wf full sch n j1 j2 j3 unfolding p by (simp add: emitted_def m)
qed

text \<open>
  The test of \<^verbatim>\<open>handle_button_event\<close> itself is the conjunction
  \<^verbatim>\<open>button < 0 && button >= N\<close>, which no index satisfies, so the handler rejects
  nothing: called with the index 4 on the four-button pad it would write the snapshot
  and emit a button-down event. The drain never calls it so; it tests the index first.
\<close>

lemma handle_button_event_rejects_nothing:
  "info_num_buttons (info (parent pad)) = 4 \<and> snapshot_button pad 4 = Some 0 \<and>
   emitted pad = [] \<and>
   handle_button_event pad 4 True = Some pad_button4 \<and>
   snapshot_button pad_button4 4 = Some 32767 \<and>
   emitted pad_button4 = [button_event AL_EVENT_JOYSTICK_BUTTON_DOWN 4]"
  by (simp add: handle_button_event_def generate_button_event_def arr_set_def arr_get_def
      snapshot_button_def emitted_def button_event_def pad_button4_def
      al_event_source_needs_to_generate_event_def al_event_source_get_unused_event_def
      al_event_source_emit_event_def pad_unfold eval_nat_numeral)


section \<open>The drain, and the poller after a release\<close>

lemmas offsets =
  DIJOFS_X_def DIJOFS_Y_def DIJOFS_Z_def DIJOFS_RX_def DIJOFS_RY_def DIJOFS_RZ_def
  DIJOFS_SLIDER_def DIJOFS_POV_def DIJOFS_BUTTON_def DIJOFS_BUTTON0_def DIJOFS_BUTTON1_def

lemma dispatch_item_button:
  assumes "is_button_delta joy item"
  shows "dispatch_item to_float joy item = handle_button_event joy (button_index item) (pressed item)"
  using assms
  by (simp add: dispatch_item_def is_button_delta_def button_index_def pressed_def offsets Let_def)

lemma dispatch_item_button_dropped:
  assumes "DIJOFS_BUTTON (info_num_buttons (info (parent joy))) \<le> sint (dwOfs item)"
    and "0 \<le> info_num_buttons (info (parent joy))"
  shows "dispatch_item to_float joy item = Some joy"
  using assms
  by (simp add: dispatch_item_def offsets Let_def)

lemma button_step:
  assumes wf: "joy_wf joy" and d: "is_button_delta joy item"
    and w: "AL_EVENT_JOYSTICK_BUTTON_DOWN \<in> set (es_wanted (es (parent joy)))"
      "AL_EVENT_JOYSTICK_BUTTON_UP \<in> set (es_wanted (es (parent joy)))"
    and u: "0 < es_unused (es (parent joy))"
  shows "\<exists>joy1. dispatch_item to_float joy item = Some joy1 \<and> joy_wf joy1 \<and>
     info (parent joy1) = info (parent joy) \<and>
     es_wanted (es (parent joy1)) = es_wanted (es (parent joy)) \<and>
     es_unused (es (parent joy1)) = es_unused (es (parent joy)) - 1 \<and>
     emitted joy1 = emitted joy @ [delta_event item] \<and>
     state_button (joystate joy1) =
       (state_button (joystate joy))[nat (button_index item) := (if pressed item then 32767 else 0)]"
proof -
  have b: "0 \<le> button_index item" "button_index item < info_num_buttons (info (parent joy))"
    using d by (simp_all add: is_button_delta_def button_index_def offsets)
  define joy0 where "joy0 = set_joystate joy ((joystate joy)\<lparr>state_button :=
          (state_button (joystate joy))[nat (button_index item) := (if pressed item then 32767 else 0)]\<rparr>)"
  define t where "t = (if pressed item then AL_EVENT_JOYSTICK_BUTTON_DOWN else AL_EVENT_JOYSTICK_BUTTON_UP)"
  have acc: "accepts joy0 t"
    using w u by (simp add: accepts_def joy0_def t_def set_joystate_def)
  have run: "dispatch_item to_float joy item = Some (generate_button_event joy0 (button_index item) t)"
    unfolding dispatch_item_button[OF d] handle_button_event_in_range[OF wf b] joy0_def t_def ..
  have wf0: "joy_wf joy0" unfolding joy0_def by (rule joy_wf_state_button_update[OF wf])
  show ?thesis
    unfolding run generate_button_event_accepts[OF acc]
    using wf0
    by (simp add: joy_wf_def set_es_def emitted_def delta_event_def t_def joy0_def set_joystate_def)
qed

lemma dispatch_items_buttons:
  assumes "joy_wf joy" and "\<forall>item \<in> set items. is_button_delta joy item"
    and "AL_EVENT_JOYSTICK_BUTTON_DOWN \<in> set (es_wanted (es (parent joy)))"
      "AL_EVENT_JOYSTICK_BUTTON_UP \<in> set (es_wanted (es (parent joy)))"
    and "length items \<le> es_unused (es (parent joy))"
  shows "\<exists>joy'. dispatch_items to_float joy items = Some joy' \<and>
     emitted joy' = emitted joy @ map delta_event items \<and>
     (\<forall>b. 0 \<le> b \<and> b < 32 \<longrightarrow>
        snapshot_button joy' b =
          (case last_delta b items of
             Some p \<Rightarrow> Some (if p then 32767 else 0)
           | None \<Rightarrow> snapshot_button joy b)) \<and>
     (buttons_binary joy \<longrightarrow> buttons_binary joy')"
  using assms
proof (induction items arbitrary: joy)
  case Nil
  then show ?case by simp
next
  case (Cons item items)
  have d: "is_button_delta joy item" using Cons.prems(2) by simp
  have u: "0 < es_unused (es (parent joy))" using Cons.prems(5) by simp
  from button_step[OF Cons.prems(1) d Cons.prems(3,4) u, of to_float] obtain joy1 where
    j1: "dispatch_item to_float joy item = Some joy1" "joy_wf joy1"
    "info (parent joy1) = info (parent joy)"
    "es_wanted (es (parent joy1)) = es_wanted (es (parent joy))"
    "es_unused (es (parent joy1)) = es_unused (es (parent joy)) - 1"
    "emitted joy1 = emitted joy @ [delta_event item]"
    "state_button (joystate joy1) =
       (state_button (joystate joy))[nat (button_index item) := (if pressed item then 32767 else 0)]"
    by blast
  have all1: "\<forall>item \<in> set items. is_button_delta joy1 item"
    using Cons.prems(2) j1(3) by (simp add: is_button_delta_def)
  have u1: "length items \<le> es_unused (es (parent joy1))" using Cons.prems(5) j1(5) by simp
  from Cons.IH[OF j1(2) all1 _ _ u1] Cons.prems(3,4) j1(4) obtain joy' where
    j': "dispatch_items to_float joy1 items = Some joy'"
    "emitted joy' = emitted joy1 @ map delta_event items"
    "\<forall>b. 0 \<le> b \<and> b < 32 \<longrightarrow>
        snapshot_button joy' b =
          (case last_delta b items of
             Some p \<Rightarrow> Some (if p then 32767 else 0)
           | None \<Rightarrow> snapshot_button joy1 b)"
    "buttons_binary joy1 \<longrightarrow> buttons_binary joy'"
    by auto
  have b: "0 \<le> button_index item" "button_index item < 32"
    using d joy_wf_bounds(5)[OF Cons.prems(1)]
    by (simp_all add: is_button_delta_def button_index_def offsets)
  have s1: "snapshot_button joy1 b =
      (if button_index item = b then Some (if pressed item then 32767 else 0)
       else snapshot_button joy b)" if "0 \<le> b" "b < 32" for b
    using that b joy_wf_bounds(4)[OF Cons.prems(1)]
    by (auto simp add: snapshot_button_def arr_get_def j1(7))
  have bin1: "buttons_binary joy1" if "buttons_binary joy"
  proof -
    have "set (state_button (joystate joy1)) \<subseteq>
        insert (if pressed item then 32767 else 0) (set (state_button (joystate joy)))"
      unfolding j1(7) by (rule set_update_subset_insert)
    then show ?thesis using that
      by (cases "pressed item") (auto simp add: buttons_binary_def)
  qed
  have run: "dispatch_items to_float joy (item # items) = Some joy'"
    by (simp add: j1(1) j')
  have em: "emitted joy' = emitted joy @ map delta_event (item # items)"
    by (simp add: j'(2) j1(6))
  have snap: "\<forall>b. 0 \<le> b \<and> b < 32 \<longrightarrow>
        snapshot_button joy' b =
          (case last_delta b (item # items) of
             Some p \<Rightarrow> Some (if p then 32767 else 0)
           | None \<Rightarrow> snapshot_button joy b)"
    using j'(3) s1 by (auto split: option.splits)
  show ?case using run em snap bin1 j'(4) by blast
qed

text \<open>
  C6. A drain of at most 10 button deltas, each inside the button range of the schema,
  while a subscriber wants both button events and a slot is free for each delta:
  \<^verbatim>\<open>update_joystick\<close> returns, one event per delta is emitted, in order, a button-down
  for a press and a button-up for a release; afterwards the intensity of every button
  is 32767 if its last delta was a press, 0 if it was a release, and what it was if no
  delta named it; and intensities that were all 0 or 32767 still are.
\<close>

theorem button_deltas_round_trip:
  assumes wf: "joy_wf joy" and len: "length items \<le> DEVICE_BUFFER_SIZE"
    and hr: "hr = DI_OK \<or> hr = DI_BUFFEROVERFLOW"
    and all: "\<forall>item \<in> set items. is_button_delta joy item"
    and sub: "AL_EVENT_JOYSTICK_BUTTON_DOWN \<in> set (es_wanted (es (parent joy)))"
      "AL_EVENT_JOYSTICK_BUTTON_UP \<in> set (es_wanted (es (parent joy)))"
    and slots: "length items \<le> es_unused (es (parent joy))"
  shows "\<exists>joy'. update_joystick to_float joy hr items = Some (joy', False) \<and>
     emitted joy' = emitted joy @ map delta_event items \<and>
     length (emitted joy') = length (emitted joy) + length items \<and>
     (\<forall>b. 0 \<le> b \<and> b < 32 \<longrightarrow>
        snapshot_button joy' b =
          (case last_delta b items of
             Some p \<Rightarrow> Some (if p then 32767 else 0)
           | None \<Rightarrow> snapshot_button joy b)) \<and>
     (buttons_binary joy \<longrightarrow> buttons_binary joy')"
proof -
  from dispatch_items_buttons[OF wf all sub slots, of to_float] obtain joy' where
    j: "dispatch_items to_float joy items = Some joy'"
    "emitted joy' = emitted joy @ map delta_event items"
    "\<forall>b. 0 \<le> b \<and> b < 32 \<longrightarrow>
        snapshot_button joy' b =
          (case last_delta b items of
             Some p \<Rightarrow> Some (if p then 32767 else 0)
           | None \<Rightarrow> snapshot_button joy b)"
    "buttons_binary joy \<longrightarrow> buttons_binary joy'"
    by blast
  have tk: "take DEVICE_BUFFER_SIZE items = items" using len by simp
  have run: "update_joystick to_float joy hr items = Some (joy', False)"
  proof (cases items)
    case Nil
    then show ?thesis using hr j(1) by (auto simp add: update_joystick_def Let_def)
  next
    case (Cons a list)
    then have "length items \<noteq> 0" by simp
    then show ?thesis using hr j(1) tk by (auto simp add: update_joystick_def Let_def)
  qed
  have ln: "length (emitted joy') = length (emitted joy) + length items" by (simp add: j(2))
  show ?thesis using run j(2,3,4) ln by blast
qed

text \<open>
  The theorem at the pad: button 1 pressed, button 0 pressed, button 1 released.
\<close>

theorem button_deltas_round_trip_witness:
  "joy_wf pad \<and> length example_deltas \<le> DEVICE_BUFFER_SIZE \<and>
   list_all (is_button_delta pad) example_deltas \<and>
   AL_EVENT_JOYSTICK_BUTTON_DOWN \<in> set (es_wanted (es (parent pad))) \<and>
   AL_EVENT_JOYSTICK_BUTTON_UP \<in> set (es_wanted (es (parent pad))) \<and>
   length example_deltas \<le> es_unused (es (parent pad)) \<and> buttons_binary pad \<and>
   (\<exists>joy'. update_joystick (\<lambda>x. x) pad DI_OK example_deltas = Some (joy', False) \<and>
      emitted joy' =
        [button_event AL_EVENT_JOYSTICK_BUTTON_DOWN 1,
         button_event AL_EVENT_JOYSTICK_BUTTON_DOWN 0,
         button_event AL_EVENT_JOYSTICK_BUTTON_UP 1] \<and>
      snapshot_button joy' 0 = Some 32767 \<and> snapshot_button joy' 1 = Some 0 \<and>
      snapshot_button joy' 2 = Some 0 \<and> buttons_binary joy')"
proof -
  have len: "length example_deltas \<le> DEVICE_BUFFER_SIZE"
    by (simp add: example_deltas_def DEVICE_BUFFER_SIZE_def)
  have all: "\<forall>item \<in> set example_deltas. is_button_delta pad item"
    by (simp add: example_deltas_def is_button_delta_def offsets pad_unfold)
  have sub: "AL_EVENT_JOYSTICK_BUTTON_DOWN \<in> set (es_wanted (es (parent pad)))"
    "AL_EVENT_JOYSTICK_BUTTON_UP \<in> set (es_wanted (es (parent pad)))"
    by (simp_all add: pad_unfold)
  have slots: "length example_deltas \<le> es_unused (es (parent pad))"
    by (simp add: example_deltas_def pad_unfold)
  have bin: "buttons_binary pad" by (simp add: buttons_binary_def pad_unfold)
  have ev: "map delta_event example_deltas =
        [button_event AL_EVENT_JOYSTICK_BUTTON_DOWN 1,
         button_event AL_EVENT_JOYSTICK_BUTTON_DOWN 0,
         button_event AL_EVENT_JOYSTICK_BUTTON_UP 1]"
    by (simp add: example_deltas_def delta_event_def pressed_def button_index_def offsets)
  have ld: "last_delta 0 example_deltas = Some True" "last_delta 1 example_deltas = Some False"
    "last_delta 2 example_deltas = None"
    by (simp_all add: example_deltas_def pressed_def button_index_def offsets)
  have old: "snapshot_button pad 2 = Some 0" "emitted pad = []"
    by (simp_all add: snapshot_button_def arr_get_def emitted_def pad_unfold)
  from button_deltas_round_trip [OF pad_wf len _ all sub slots, of DI_OK "\<lambda>x. x"]
  obtain joy' where j: "update_joystick (\<lambda>x. x) pad DI_OK example_deltas = Some (joy', False)"
    "emitted joy' = emitted pad @ map delta_event example_deltas"
    "\<forall>b. 0 \<le> b \<and> b < 32 \<longrightarrow>
        snapshot_button joy' b =
          (case last_delta b example_deltas of
             Some p \<Rightarrow> Some (if p then 32767 else 0)
           | None \<Rightarrow> snapshot_button pad b)"
    "buttons_binary pad \<longrightarrow> buttons_binary joy'"
    by auto
  have s: "snapshot_button joy' 0 = Some 32767" "snapshot_button joy' 1 = Some 0"
    "snapshot_button joy' 2 = Some 0"
    using j(3)[rule_format, of 0] j(3)[rule_format, of 1] j(3)[rule_format, of 2]
    by (simp_all add: ld old)
  have a: "list_all (is_button_delta pad) example_deltas" using all by (simp add: list_all_iff)
  show ?thesis
    using pad_wf len a sub slots bin j(1,2,4) s by (simp add: ev old)
qed

text \<open>
  The default case of the \<^verbatim>\<open>switch\<close>: a delta that is not for an axis, a slider or a
  hat reaches \<^verbatim>\<open>handle_button_event\<close> exactly when its index is inside the schema.
\<close>

lemma dispatch_item_default:
  assumes "\<not> is_axis_or_hat_delta item"
  shows "dispatch_item to_float joy item =
     (if is_button_delta joy item
      then handle_button_event joy (button_index item) (pressed item)
      else Some joy)"
  using assms
  by (simp add: dispatch_item_def is_axis_or_hat_delta_def is_button_delta_def
      button_index_def pressed_def Let_def DIJOFS_BUTTON0_def DIJOFS_BUTTON1_def DIJOFS_BUTTON_def)

lemma is_button_delta_index:
  "is_button_delta joy item \<longleftrightarrow>
     0 \<le> button_index item \<and> button_index item < info_num_buttons (info (parent joy))"
  by (auto simp add: is_button_delta_def button_index_def DIJOFS_BUTTON0_def DIJOFS_BUTTON_def)

lemma dispatch_item_outside:
  assumes "button_outside_schema joy item"
  shows "dispatch_item to_float joy item = Some joy"
proof -
  from assms have n: "\<not> is_axis_or_hat_delta item" and
    o: "\<not> is_button_delta joy item"
    by (auto simp add: button_outside_schema_def is_button_delta_index)
  show ?thesis unfolding dispatch_item_default[OF n] using o by simp
qed

lemma dispatch_items_outside:
  "\<forall>item \<in> set items. button_outside_schema joy item \<Longrightarrow>
   dispatch_items to_float joy items = Some joy"
  by (induction items) (simp_all add: dispatch_item_outside)

text \<open>
  C7. A delta that names a button index outside [0, num_buttons) of the schema is
  silently ignored: the drain returns the device record as it was, the snapshot and the
  event source with it, whatever else the buffer holds after the delta. It is
  \<^verbatim>\<open>update_joystick\<close> that ignores it (lines 951 and 952): the index is tested before
  \<^verbatim>\<open>handle_button_event\<close> is called, so the handler only receives indices of the schema,
  and its own test, which rejects nothing, is never the one that decides.
\<close>

theorem button_delta_outside_schema_ignored:
  assumes out: "\<forall>item \<in> set items. button_outside_schema joy item"
  shows "update_joystick to_float joy hr items =
       Some (joy, hr = DIERR_NOTACQUIRED \<or> hr = DIERR_INPUTLOST) \<and>
     (\<forall>item \<in> set items. dispatch_item to_float joy item = Some joy \<and>
        (\<forall>rest. dispatch_items to_float joy (item # rest) = dispatch_items to_float joy rest))"
proof -
  have "\<forall>item \<in> set (take DEVICE_BUFFER_SIZE items). button_outside_schema joy item"
    using out by (meson in_set_takeD)
  then have d: "dispatch_items to_float joy (take DEVICE_BUFFER_SIZE items) = Some joy"
    by (rule dispatch_items_outside)
  have u: "update_joystick to_float joy hr items =
       Some (joy, hr = DIERR_NOTACQUIRED \<or> hr = DIERR_INPUTLOST)"
    by (cases hr) (simp_all add: update_joystick_def Let_def d)
  have s: "\<forall>item \<in> set items. dispatch_item to_float joy item = Some joy \<and>
        (\<forall>rest. dispatch_items to_float joy (item # rest) = dispatch_items to_float joy rest)"
    using out by (simp add: dispatch_item_outside)
  from u s show ?thesis by simp
qed

text \<open>
  The theorem at the four-button pad, for a buffer that holds a press of button 4.
\<close>

theorem button_delta_outside_schema_ignored_witness:
  "info_num_buttons (info (parent pad)) = 4 \<and> button_index button4_pressed = 4 \<and>
   button_outside_schema pad button4_pressed \<and>
   update_joystick (\<lambda>x. x) pad DI_OK [button4_pressed] = Some (pad, False) \<and>
   dispatch_item (\<lambda>x. x) pad button4_pressed = Some pad"
proof -
  have n: "info_num_buttons (info (parent pad)) = 4"
    by (simp add: pad_unfold)
  have i: "button_index button4_pressed = 4"
    by (simp add: button4_pressed_def button_index_def DIJOFS_BUTTON0_def DIJOFS_BUTTON_def)
  have o: "button_outside_schema pad button4_pressed"
    unfolding button_outside_schema_def n i
    by (simp add: is_axis_or_hat_delta_def button4_pressed_def offsets)
  from button_delta_outside_schema_ignored[of "[button4_pressed]" pad "\<lambda>x. x" DI_OK] o
  show ?thesis using n i by simp
qed

lemma handle_axis_event_total:
  assumes wf: "joy_wf joy"
  shows "\<exists>joy'. handle_axis_event to_float joy m raw = Some joy' \<and> joy_wf joy'"
proof (cases "in_schema joy (stick m) (axis m)")
  case True
  then have s: "0 \<le> stick m" "stick m < num_sticks (info (parent joy))"
    by (simp_all add: in_schema_def)
  have k: "nat (stick m) < 8" using s joy_wf_bounds(2)[OF wf] by linarith
  show ?thesis
    unfolding handle_axis_event_in_schema[OF wf True]
    using joy_wf_state_stick_update[OF wf k] by (simp add: joy_wf_generate_axis_event)
next
  case False
  then show ?thesis using handle_axis_event_out_of_schema[OF wf False] wf by simp
qed

lemma handle_pov_event_total:
  assumes wf: "joy_wf joy"
  shows "\<exists>joy'. handle_pov_event joy st raw = Some joy' \<and> joy_wf joy'"
proof (cases "st < 0 \<or> st \<ge> num_sticks (info (parent joy))")
  case True
  then show ?thesis using handle_pov_event_out_of_range[OF True] wf by simp
next
  case False
  then have "0 \<le> st" "st < num_sticks (info (parent joy))" by simp_all
  from handle_pov_event_snapshot[OF wf this] show ?thesis by blast
qed

lemma handle_button_event_total:
  assumes wf: "joy_wf joy" and b: "0 \<le> b" "b < info_num_buttons (info (parent joy))"
  shows "\<exists>joy'. handle_button_event joy b down = Some joy' \<and> joy_wf joy'"
  unfolding handle_button_event_in_range[OF wf b]
  using joy_wf_state_button_update[OF wf] by (simp add: joy_wf_generate_button_event)

lemma dispatch_item_total:
  assumes wf: "joy_wf joy"
  shows "\<exists>joy'. dispatch_item to_float joy item = Some joy' \<and> joy_wf joy'"
proof -
  have sl: "arr_get (slider_mapping joy) 0 = Some (slider_mapping joy ! 0)"
    "arr_get (slider_mapping joy) 1 = Some (slider_mapping joy ! 1)"
    using joy_wf_bounds(6)[OF wf] by (simp_all add: arr_get_def)
  have pv: "arr_get (pov_mapping_stick joy) 0 = Some (pov_mapping_stick joy ! 0)"
    "arr_get (pov_mapping_stick joy) 1 = Some (pov_mapping_stick joy ! 1)"
    "arr_get (pov_mapping_stick joy) 2 = Some (pov_mapping_stick joy ! 2)"
    "arr_get (pov_mapping_stick joy) 3 = Some (pov_mapping_stick joy ! 3)"
    using joy_wf_bounds(7)[OF wf] by (simp_all add: arr_get_def)
  have bt: "\<exists>joy'. handle_button_event joy (sint (dwOfs item) - 48) down = Some joy' \<and> joy_wf joy'"
    if "48 \<le> sint (dwOfs item)" "sint (dwOfs item) < 48 + info_num_buttons (info (parent joy))"
    for down
    using handle_button_event_total[OF wf, of "sint (dwOfs item) - 48" down] that by simp
  show ?thesis
    using handle_axis_event_total[OF wf] handle_pov_event_total[OF wf] bt wf
    by (simp add: dispatch_item_def Let_def sl pv offsets)
qed

lemma dispatch_items_total:
  "joy_wf joy \<Longrightarrow> \<exists>joy'. dispatch_items to_float joy items = Some joy' \<and> joy_wf joy'"
proof (induction items arbitrary: joy)
  case Nil
  then show ?case by simp
next
  case (Cons item items)
  from dispatch_item_total[OF Cons.prems, of to_float item] obtain joy1 where
    "dispatch_item to_float joy item = Some joy1" "joy_wf joy1" by blast
  then show ?case using Cons.IH[of joy1] by simp
qed

lemma update_joystick_total:
  assumes "joy_wf joy"
  shows "\<exists>joy' s. update_joystick to_float joy hr items = Some (joy', s) \<and> joy_wf joy'"
  using dispatch_items_total[OF assms, of to_float "take DEVICE_BUFFER_SIZE items"] assms
  by (auto simp add: update_joystick_def Let_def)

lemma driver_wf_bounds:
  assumes "driver_wf drv"
  shows "0 \<le> joydx_num_joysticks drv" "joydx_num_joysticks drv \<le> 8"
    "length (joydx_joystick drv) = 8" "length (joydx_thread_wakers drv) = 9"
    "\<And>k. k < 8 \<Longrightarrow> joy_wf (joydx_joystick drv ! k)"
  using assms by (simp_all add: driver_wf_def MAX_JOYSTICKS_def)

lemma driver_wf_update:
  assumes "driver_wf drv" "joy_wf joy"
  shows "driver_wf (drv\<lparr>joydx_joystick := (joydx_joystick drv)[k := joy]\<rparr>)"
proof -
  have "set ((joydx_joystick drv)[k := joy]) \<subseteq> insert joy (set (joydx_joystick drv))"
    by (rule set_update_subset_insert)
  then show ?thesis using assms by (auto simp add: driver_wf_def)
qed

lemma joy_wf_frame:
  "joy_wf (set_es joy src) = joy_wf joy" "joy_wf (joy\<lparr>gotten := g\<rparr>) = joy_wf joy"
  by (simp_all add: joy_wf_def set_es_def)

lemma liftO_simps: "liftO (Some x) = Inr x" "liftO None = Inl ArrayOutOfBounds"
  by (simp_all add: liftO_def)

lemma bindE_simps: "bindE (Inr x) f = f x" "bindE (Inl e) f = Inl e"
  by (simp_all add: bindE_def)

lemma bindE_Inr: "bindE x f = Inr y \<longleftrightarrow> (\<exists>z. x = Inr z \<and> f z = Inr y)"
  by (cases x) (simp_all add: bindE_def)

lemma liftO_Inr: "liftO x = Inr y \<longleftrightarrow> x = Some y"
  by (cases x) (simp_all add: liftO_def)

lemma arr_get_Some: "arr_get xs i = Some x \<longleftrightarrow> 0 \<le> i \<and> nat i < length xs \<and> x = xs ! nat i"
  by (auto simp add: arr_get_def)

lemma arr_set_Some: "arr_set xs i v = Some ys \<longleftrightarrow> 0 \<le> i \<and> nat i < length xs \<and> ys = xs[nat i := v]"
  by (auto simp add: arr_set_def)

lemma thread_iteration_total:
  assumes wf: "driver_wf drv"
  shows "joydx_thread_iteration to_float drv w = Inr Break \<or>
     (\<exists>drv' s. joydx_thread_iteration to_float drv w = Inr (Continue drv' s) \<and> driver_wf drv' \<and>
        joydx_num_joysticks drv' = joydx_num_joysticks drv)"
proof -
  define n where "n = sint (wait_result w - WAIT_OBJECT_0 - 1)"
  show ?thesis
  proof (cases "wait_result w = WAIT_OBJECT_0 \<or> n < 0 \<or> n \<ge> joydx_num_joysticks drv")
    case True
    then show ?thesis using wf by (auto simp add: joydx_thread_iteration_def Let_def n_def)
  next
    case False
    then have r: "0 \<le> n" "n < joydx_num_joysticks drv" "wait_result w \<noteq> WAIT_OBJECT_0" by simp_all
    have k: "nat n < 8" "n < 8" using r driver_wf_bounds(2)[OF wf] by linarith+
    have g: "arr_get (joydx_joystick drv) n = Some (joydx_joystick drv ! nat n)"
      using r k driver_wf_bounds(3)[OF wf] by (simp add: arr_get_def)
    have jw: "joy_wf (joydx_joystick drv ! nat n)" by (rule driver_wf_bounds(5)[OF wf k(1)])
    from update_joystick_total[OF jw, of to_float "data_hr w" "data_items w"] obtain joy' s where
      u: "update_joystick to_float (joydx_joystick drv ! nat n) (data_hr w) (data_items w) = Some (joy', s)"
      "joy_wf joy'" by blast
    have st: "arr_set (joydx_joystick drv) n joy' = Some ((joydx_joystick drv)[nat n := joy'])"
      using r k driver_wf_bounds(3)[OF wf] by (simp add: arr_set_def)
    show ?thesis
      using r g u st wf driver_wf_update[OF wf u(2), of "nat n"]
      by (auto simp add: joydx_thread_iteration_def Let_def n_def[symmetric] liftO_simps bindE_simps)
  qed
qed

lemma driver_step_total:
  assumes wf: "driver_wf drv" and safe: "action_safe debugmode drv a"
  shows "\<exists>drv'. driver_step debugmode to_float drv a = Inr drv' \<and> driver_wf drv' \<and>
     joydx_num_joysticks drv' = joydx_num_joysticks drv"
proof (cases a)
  case (Take n)
  then have r: "\<not> debugmode" "0 \<le> n" "n < joydx_num_joysticks drv"
    using safe by (simp_all add: action_safe_def)
  have k: "nat n < 8" "n < 8" using r driver_wf_bounds(2)[OF wf] by linarith+
  have jw: "joy_wf (joydx_joystick drv ! nat n)" by (rule driver_wf_bounds(5)[OF wf k(1)])
  show ?thesis
    using Take r k driver_wf_bounds(3)[OF wf] jw
      driver_wf_update[OF wf, of "(set_es (joydx_joystick drv ! nat n) al_event_source_init)\<lparr>gotten := True\<rparr>" "nat n"]
    by (simp add: joydx_get_joystick_def arr_get_def arr_set_def liftO_simps bindE_simps
        ASSERT_fails_def joy_wf_frame)
next
  case (Release n)
  then have r: "\<not> debugmode" "0 \<le> n" "n < joydx_num_joysticks drv"
    using safe by (simp_all add: action_safe_def)
  have k: "nat n < 8" "n < 8" using r driver_wf_bounds(2)[OF wf] by linarith+
  have jw: "joy_wf (joydx_joystick drv ! nat n)" by (rule driver_wf_bounds(5)[OF wf k(1)])
  show ?thesis
    using Release r k driver_wf_bounds(3)[OF wf] jw
      driver_wf_update[OF wf, of "set_es ((joydx_joystick drv ! nat n)\<lparr>gotten := False\<rparr>)
         (al_event_source_free (es (parent (joydx_joystick drv ! nat n))))" "nat n"]
    by (simp add: joydx_release_joystick_def arr_get_def arr_set_def liftO_simps bindE_simps
        ASSERT_fails_def joy_wf_frame)
next
  case (Wake w)
  then show ?thesis
    using thread_iteration_total[OF wf, of to_float w] wf
    by (auto simp add: bindE_simps)
qed

lemma action_safe_count:
  "joydx_num_joysticks drv1 = joydx_num_joysticks drv \<Longrightarrow>
   action_safe debugmode drv1 a = action_safe debugmode drv a"
  by (cases a) (simp_all add: action_safe_def)

lemma driver_run_total:
  assumes "driver_wf drv" and "\<forall>a \<in> set as. action_safe debugmode drv a"
  shows "\<exists>drv'. driver_run debugmode to_float drv as = Inr drv' \<and> driver_wf drv'"
  using assms
proof (induction as arbitrary: drv)
  case Nil
  then show ?case by simp
next
  case (Cons a as)
  have "action_safe debugmode drv a" using Cons.prems(2) by simp
  from driver_step_total[OF Cons.prems(1) this, of to_float] obtain drv1 where
    s: "driver_step debugmode to_float drv a = Inr drv1" "driver_wf drv1"
    "joydx_num_joysticks drv1 = joydx_num_joysticks drv" by blast
  have "\<forall>a \<in> set as. action_safe debugmode drv1 a"
    using Cons.prems(2) by (simp add: action_safe_count[OF s(3)])
  from Cons.IH[OF s(2) this] show ?case by (simp add: s(1) bindE_simps)
qed

lemma released_idem:
  assumes "released joy"
  shows "set_es (joy\<lparr>gotten := False\<rparr>) (al_event_source_free (es (parent joy))) = joy"
proof -
  have g: "gotten joy = False" and e: "al_event_source_free (es (parent joy)) = es (parent joy)"
    using assms by (simp_all add: released_def)
  have "joy\<lparr>gotten := False\<rparr> = joy" using g by (cases joy) simp
  then show ?thesis unfolding e by (simp add: set_es_def)
qed

lemma thread_iteration_cases:
  assumes a: "joydx_thread_iteration to_float drv w = Inr r"
  shows "r = Break \<or> (\<exists>s. r = Continue drv s) \<or>
     (\<exists>joy s n. 0 \<le> n \<and> gotten (joydx_joystick drv ! nat n) \<and>
        r = Continue (drv\<lparr>joydx_joystick := (joydx_joystick drv)[nat n := joy]\<rparr>) s)"
proof -
  define n where "n = sint (wait_result w - WAIT_OBJECT_0 - 1)"
  consider (stop) "wait_result w = WAIT_OBJECT_0"
    | (out) "wait_result w \<noteq> WAIT_OBJECT_0" "n < 0 \<or> n \<ge> joydx_num_joysticks drv"
    | (dev) "wait_result w \<noteq> WAIT_OBJECT_0" "0 \<le> n" "n < joydx_num_joysticks drv"
    by linarith
  then show ?thesis
  proof cases
    case stop
    then show ?thesis using a by (simp add: joydx_thread_iteration_def)
  next
    case out
    then show ?thesis using a by (auto simp add: joydx_thread_iteration_def Let_def n_def)
  next
    case dev
    from a dev obtain joy where j: "arr_get (joydx_joystick drv) n = Some joy"
      by (auto simp add: joydx_thread_iteration_def Let_def n_def[symmetric] bindE_Inr liftO_Inr)
    then have jn: "joy = joydx_joystick drv ! nat n" by (simp add: arr_get_Some)
    show ?thesis
    proof (cases "gotten joy")
      case False
      then show ?thesis using a dev j
        by (auto simp add: joydx_thread_iteration_def Let_def n_def[symmetric] bindE_simps liftO_simps)
    next
      case True
      from a dev j True obtain joy' s where
        "update_joystick to_float joy (data_hr w) (data_items w) = Some (joy', s)"
        "arr_set (joydx_joystick drv) n joy' = Some ((joydx_joystick drv)[nat n := joy'])"
        "r = Continue (drv\<lparr>joydx_joystick := (joydx_joystick drv)[nat n := joy']\<rparr>) s"
        by (auto simp add: joydx_thread_iteration_def Let_def n_def[symmetric] bindE_simps
            liftO_simps bindE_Inr liftO_Inr arr_set_Some)
      then show ?thesis using dev(2) True jn by blast
    qed
  qed
qed

lemma driver_step_released:
  assumes s: "driver_step debugmode to_float drv a = Inr drv'" and nt: "a \<noteq> Take h"
    and h: "0 \<le> h" and rel: "released (joydx_joystick drv ! nat h)"
  shows "joydx_joystick drv' ! nat h = joydx_joystick drv ! nat h"
proof (cases a)
  case (Take n)
  then have ne: "n \<noteq> h" using nt by simp
  from s Take obtain joy where "0 \<le> n" 
    "drv' = drv\<lparr>joydx_joystick := (joydx_joystick drv)[nat n := joy]\<rparr>"
    by (auto simp add: joydx_get_joystick_def bindE_Inr liftO_Inr arr_get_Some arr_set_Some
        split: if_splits)
  then show ?thesis using ne h by simp
next
  case (Release n)
  show ?thesis
  proof (cases "n = h")
    case True
    from s Release True have "nat h < length (joydx_joystick drv)"
      "drv' = drv\<lparr>joydx_joystick := (joydx_joystick drv)[nat h :=
         set_es ((joydx_joystick drv ! nat h)\<lparr>gotten := False\<rparr>)
           (al_event_source_free (es (parent (joydx_joystick drv ! nat h))))]\<rparr>"
      by (auto simp add: joydx_release_joystick_def bindE_Inr liftO_Inr arr_get_Some arr_set_Some
          split: if_splits)
    then show ?thesis by (simp add: released_idem[OF rel])
  next
    case False
    from s Release obtain joy where "0 \<le> n" 
      "drv' = drv\<lparr>joydx_joystick := (joydx_joystick drv)[nat n := joy]\<rparr>"
      by (auto simp add: joydx_release_joystick_def bindE_Inr liftO_Inr arr_get_Some arr_set_Some
          split: if_splits)
    then show ?thesis using False h by simp
  qed
next
  case (Wake w)
  have ng: "\<not> gotten (joydx_joystick drv ! nat h)" using rel by (simp add: released_def)
  from s Wake obtain r where r: "joydx_thread_iteration to_float drv w = Inr r"
    "(case r of Break \<Rightarrow> Inr drv | Continue d sc \<Rightarrow> Inr d) = (Inr drv' :: fault + driver)"
    by (auto simp add: bindE_Inr)
  from thread_iteration_cases[OF r(1)] show ?thesis
  proof (elim disjE exE conjE)
    assume "r = Break" then show ?thesis using r(2) by simp
  next
    fix sc assume "r = Continue drv sc" then show ?thesis using r(2) by simp
  next
    fix joy sc n assume j: "0 \<le> n" "gotten (joydx_joystick drv ! nat n)"
      "r = Continue (drv\<lparr>joydx_joystick := (joydx_joystick drv)[nat n := joy]\<rparr>) sc"
    have "nat n \<noteq> nat h" using j(2) ng by auto
    then show ?thesis using j(3) r(2) by auto
  qed
qed

lemma driver_run_released:
  assumes "driver_run debugmode to_float drv as = Inr drv'" and "Take h \<notin> set as"
    and "0 \<le> h" and "released (joydx_joystick drv ! nat h)"
  shows "joydx_joystick drv' ! nat h = joydx_joystick drv ! nat h"
  using assms
proof (induction as arbitrary: drv)
  case Nil
  then show ?case by simp
next
  case (Cons a as)
  from Cons.prems(1) obtain drv1 where
    s: "driver_step debugmode to_float drv a = Inr drv1"
    "driver_run debugmode to_float drv1 as = Inr drv'"
    by (auto simp add: bindE_Inr)
  have a: "a \<noteq> Take h" "Take h \<notin> set as" using Cons.prems(2) by auto
  have e: "joydx_joystick drv1 ! nat h = joydx_joystick drv ! nat h"
    by (rule driver_step_released[OF s(1) a(1) Cons.prems(3,4)])
  have "joydx_joystick drv' ! nat h = joydx_joystick drv1 ! nat h"
    using Cons.IH[OF s(2) a(2) Cons.prems(3)] Cons.prems(4) e by simp
  then show ?case using e by simp
qed

lemma release_result:
  assumes wf: "driver_wf drv" and h: "0 \<le> h" "h < joydx_num_joysticks drv"
    and g: "gotten (joydx_joystick drv ! nat h)"
  shows "joydx_release_joystick debugmode drv h =
     Inr (drv\<lparr>joydx_joystick := (joydx_joystick drv)[nat h :=
         set_es ((joydx_joystick drv ! nat h)\<lparr>gotten := False\<rparr>)
           (al_event_source_free (es (parent (joydx_joystick drv ! nat h))))]\<rparr>)"
proof -
  have k: "nat h < 8" "h < 8" using h driver_wf_bounds(2)[OF wf] by linarith+
  show ?thesis
    using h k g driver_wf_bounds(3)[OF wf]
    by (simp add: joydx_release_joystick_def arr_get_def arr_set_def liftO_simps bindE_simps
        ASSERT_fails_def)
qed

text \<open>
  C5. After \<^verbatim>\<open>release(h)\<close> the gotten flag of device \<open>h\<close> is false; a wake-up of the
  poller for device \<open>h\<close> then does not call the update routine and leaves the driver as
  it is; and over any sequence of takes, releases and wake-ups that does not take
  device \<open>h\<close> again, the record of device \<open>h\<close> (its snapshot and its event stream with
  it) stays what the release left. Such a sequence runs to its end whenever its
  actions are safe (wake-ups always are).
\<close>

theorem released_device_emits_nothing:
  assumes wf: "driver_wf drv" and h: "0 \<le> h" "h < joydx_num_joysticks drv"
    and g: "gotten (joydx_joystick drv ! nat h)"
    and nt: "Take h \<notin> set as"
  shows "\<exists>drv1. joydx_release_joystick debugmode drv h = Inr drv1 \<and>
     \<not> gotten (joydx_joystick drv1 ! nat h) \<and>
     (\<forall>w. wait_result w \<noteq> WAIT_OBJECT_0 \<and> sint (wait_result w - WAIT_OBJECT_0 - 1) = h \<longrightarrow>
          joydx_thread_iteration to_float drv1 w = Inr (Continue drv1 False)) \<and>
     (\<forall>drv'. driver_run debugmode to_float drv1 as = Inr drv' \<longrightarrow>
        joydx_joystick drv' ! nat h = joydx_joystick drv1 ! nat h) \<and>
     ((\<forall>a \<in> set as. action_safe debugmode drv a) \<longrightarrow>
        (\<exists>drv'. driver_run debugmode to_float drv1 as = Inr drv'))"
proof -
  define J where "J = set_es ((joydx_joystick drv ! nat h)\<lparr>gotten := False\<rparr>)
           (al_event_source_free (es (parent (joydx_joystick drv ! nat h))))"
  define drv1 where "drv1 = drv\<lparr>joydx_joystick := (joydx_joystick drv)[nat h := J]\<rparr>"
  have k: "nat h < 8" "h < 8" using h driver_wf_bounds(2)[OF wf] by linarith+
  have rel: "joydx_release_joystick debugmode drv h = Inr drv1"
    unfolding drv1_def J_def by (rule release_result[OF wf h g])
  have Jh: "joydx_joystick drv1 ! nat h = J"
    using k driver_wf_bounds(3)[OF wf] by (simp add: drv1_def)
  have Jr: "released J"
    by (simp add: released_def J_def set_es_def al_event_source_free_def)
  have ng: "\<not> gotten (joydx_joystick drv1 ! nat h)" using Jr Jh by (simp add: released_def)
  have jw: "joy_wf J"
    unfolding J_def using driver_wf_bounds(5)[OF wf k(1)] by (simp add: joy_wf_frame)
  have wf1: "driver_wf drv1" unfolding drv1_def by (rule driver_wf_update[OF wf jw])
  have c1: "joydx_num_joysticks drv1 = joydx_num_joysticks drv" by (simp add: drv1_def)
  have idle: "joydx_thread_iteration to_float drv1 w = Inr (Continue drv1 False)"
    if "wait_result w \<noteq> WAIT_OBJECT_0 \<and> sint (wait_result w - WAIT_OBJECT_0 - 1) = h" for w
    using that h k ng driver_wf_bounds(3)[OF wf1] c1
    by (simp add: joydx_thread_iteration_def Let_def arr_get_def liftO_simps bindE_simps)
  have frame: "joydx_joystick drv' ! nat h = joydx_joystick drv1 ! nat h"
    if "driver_run debugmode to_float drv1 as = Inr drv'" for drv'
    using driver_run_released[OF that nt h(1)] Jr Jh by simp
  have total: "\<exists>drv'. driver_run debugmode to_float drv1 as = Inr drv'"
    if "\<forall>a \<in> set as. action_safe debugmode drv a"
  proof -
    have "\<forall>a \<in> set as. action_safe debugmode drv1 a"
      using that by (simp add: action_safe_count[OF c1])
    from driver_run_total[OF wf1 this] show ?thesis by blast
  qed
  show ?thesis using rel ng idle frame total by blast
qed

lemma zero_joystick_wf: "joy_wf zero_joystick"
  by (simp add: joy_wf_def zero_joystick_def zero_info_def zero_joystate_def zero_stick_info_def
      AL_MAX_JOYSTICK_AXES_def AL_MAX_JOYSTICK_STICKS_def AL_MAX_JOYSTICK_BUTTONS_def
      MAX_SLIDERS_def MAX_POVS_def MAX_BUTTONS_def)

lemma two_pads_wf: "driver_wf two_pads"
proof -
  have "joy_wf (pad\<lparr>gotten := False\<rparr>)" using pad_wf by (simp add: joy_wf_frame)
  then show ?thesis
    using pad_wf zero_joystick_wf
    by (simp add: driver_wf_def two_pads_def initial_driver_def MAX_JOYSTICKS_def)
qed

text \<open>
  The theorem at the driver with two pads: device 0 is released, then the poller is
  woken for both devices and device 1 is taken.
\<close>

theorem released_device_emits_nothing_witness:
  "driver_wf two_pads \<and> (0::int) \<le> 0 \<and> 0 < joydx_num_joysticks two_pads \<and>
   gotten (joydx_joystick two_pads ! nat 0) \<and> Take 0 \<notin> set example_actions \<and>
   list_all (action_safe False two_pads) example_actions \<and>
   (\<exists>drv1 drv'. joydx_release_joystick False two_pads 0 = Inr drv1 \<and>
      driver_run False (\<lambda>x. x) drv1 example_actions = Inr drv' \<and>
      joydx_joystick drv' ! nat 0 = joydx_joystick drv1 ! nat 0)"
proof -
  have h: "(0::int) \<le> 0" "0 < joydx_num_joysticks two_pads"
    by (simp_all add: two_pads_def)
  have g: "gotten (joydx_joystick two_pads ! nat 0)" by (simp add: two_pads_def pad_def)
  have nt: "Take 0 \<notin> set example_actions" by (simp add: example_actions_def)
  have safe: "\<forall>a \<in> set example_actions. action_safe False two_pads a"
    by (simp add: example_actions_def action_safe_def two_pads_def)
  from released_device_emits_nothing [OF two_pads_wf h g nt, of False "\<lambda>x. x"]
  obtain drv1 where d: "joydx_release_joystick False two_pads 0 = Inr drv1"
    "\<forall>drv'. driver_run False (\<lambda>x. x) drv1 example_actions = Inr drv' \<longrightarrow>
        joydx_joystick drv' ! nat 0 = joydx_joystick drv1 ! nat 0"
    "(\<forall>a \<in> set example_actions. action_safe False two_pads a) \<longrightarrow>
        (\<exists>drv'. driver_run False (\<lambda>x. x) drv1 example_actions = Inr drv')"
    by blast
  from d(3) safe obtain drv' where r: "driver_run False (\<lambda>x. x) drv1 example_actions = Inr drv'"
    by blast
  have "joydx_joystick drv' ! nat 0 = joydx_joystick drv1 ! nat 0" using d(2) r by blast
  then show ?thesis
    using two_pads_wf h g nt safe d(1) r by (auto simp add: list_all_iff)
qed

section \<open>Enumeration of the attached controllers\<close>

subsection \<open>The slot of the next device\<close>

lemma enum_state_ok_bounds:
  assumes "enum_state_ok drv"
  shows "0 \<le> joydx_num_joysticks drv" "joydx_num_joysticks drv < 8"
    "length (joydx_joystick drv) = 8" "length (joydx_thread_wakers drv) = 9"
    "joydx_thread_wakers drv ! nat (1 + joydx_num_joysticks drv) = 0"
    "nat (joydx_num_joysticks drv) < 8" "nat (1 + joydx_num_joysticks drv) < 9"
  using assms by (auto simp add: enum_state_ok_def MAX_JOYSTICKS_def JOYSTICK_WAKER_def)

lemma set_slot_ok:
  assumes "enum_state_ok drv"
  shows "set_slot drv joy =
     Inr (drv\<lparr>joydx_joystick := (joydx_joystick drv)[nat (joydx_num_joysticks drv) := joy]\<rparr>)"
  using enum_state_ok_bounds[OF assms]
  by (simp add: set_slot_def arr_set_def liftO_simps bindE_simps)

lemma set_waker_bounds:
  assumes "0 \<le> joydx_num_joysticks drv" "joydx_num_joysticks drv < 8"
    "length (joydx_thread_wakers drv) = 9"
  shows "set_waker drv h =
     Inr (drv\<lparr>joydx_thread_wakers :=
            (joydx_thread_wakers drv)[nat (1 + joydx_num_joysticks drv) := h]\<rparr>)"
  using assms
  by (simp add: set_waker_def arr_set_def liftO_simps bindE_simps JOYSTICK_WAKER_def)

lemma set_waker_ok:
  assumes "enum_state_ok drv"
  shows "set_waker drv h =
     Inr (drv\<lparr>joydx_thread_wakers :=
            (joydx_thread_wakers drv)[nat (1 + joydx_num_joysticks drv) := h]\<rparr>)"
  using enum_state_ok_bounds[OF assms] by (intro set_waker_bounds)

lemma enum_state_ok_slot:
  "enum_state_ok drv \<Longrightarrow>
   enum_state_ok (drv\<lparr>joydx_joystick := (joydx_joystick drv)[k := joy]\<rparr>)"
  by (simp add: enum_state_ok_def)

text \<open>The exit through \<^verbatim>\<open>Error\<close> when the slot holds no wake handle.\<close>

lemma enum_error_no_waker:
  assumes "enum_state_ok drv"
  shows "enum_error drv os d =
     Inr (DIENUM_CONTINUE, drv, if d \<noteq> 0 then Release_interface d os else os)"
  using enum_state_ok_bounds[OF assms]
  by (simp add: enum_error_def arr_get_def liftO_simps bindE_simps JOYSTICK_WAKER_def)

text \<open>The exit through \<^verbatim>\<open>Error\<close> when the slot holds the wake handle \<open>h\<close>.\<close>

lemma enum_error_waker:
  assumes ok: "enum_state_ok drv" and h: "h \<noteq> 0"
  shows "enum_error
       (drv\<lparr>joydx_thread_wakers :=
            (joydx_thread_wakers drv)[nat (1 + joydx_num_joysticks drv) := h]\<rparr>) os d =
     Inr (DIENUM_CONTINUE, drv,
          if d \<noteq> 0 then Release_interface d (CloseHandle h os) else CloseHandle h os)"
proof -
  have "(joydx_thread_wakers drv)[nat (1 + joydx_num_joysticks drv) := 0] = joydx_thread_wakers drv"
    using enum_state_ok_bounds(5)[OF ok] by (metis list_update_id)
  then show ?thesis
    using enum_state_ok_bounds[OF ok] h
    by (simp add: enum_error_def set_waker_def arr_get_def arr_set_def liftO_simps bindE_simps
        JOYSTICK_WAKER_def)
qed

lemma handle_accounting:
  "open_handles (CloseHandle (fst (new_handle os)) (snd (new_handle os))) = open_handles os"
  "open_handles (CloseHandle 0 os) = open_handles os"
  "live_interfaces (CloseHandle h os) = live_interfaces os"
  "open_handles (Release_interface d os) = open_handles os"
  "live_interfaces (Release_interface (fst (new_interface os)) (snd (new_interface os))) =
     live_interfaces os"
  "open_handles (snd (new_interface os)) = open_handles os"
  "live_interfaces (snd (new_handle os)) = live_interfaces os"
  "fst (new_handle os) \<noteq> 0" "fst (new_interface os) \<noteq> 0"
  by (simp_all add: new_handle_def new_interface_def CloseHandle_def Release_interface_def)

text \<open>The wake-object stage when it fails.\<close>

lemma enum_wake_object_fails:
  assumes ok: "enum_state_ok drv"
    and f: "FAILED (hr_SetEventNotification c) \<or>
      (hr_SetEventNotification c = DI_POLLEDDEVICE \<and> \<not> CreateWaitableTimer_ok c)"
  shows "\<exists>os'. enum_wake_object drv os d c =
       Inr (DIENUM_CONTINUE, drv, if d \<noteq> 0 then Release_interface d os' else os') \<and>
     open_handles os' = open_handles os \<and> live_interfaces os' = live_interfaces os"
proof -
  have same: "(joydx_thread_wakers drv)[nat (1 + joydx_num_joysticks drv) := 0] = joydx_thread_wakers drv"
    using enum_state_ok_bounds(5)[OF ok] by (metis list_update_id)
  define os1 where "os1 = (if CreateEvent_ok c then snd (new_handle os) else os)"
  define ev where "ev = (if CreateEvent_ok c then fst (new_handle os) else 0)"
  define drv1 where "drv1 = drv\<lparr>joydx_thread_wakers :=
            (joydx_thread_wakers drv)[nat (1 + joydx_num_joysticks drv) := ev]\<rparr>"
  have pr: "(if CreateEvent_ok c then new_handle os else (0, os)) = (ev, os1)"
    by (simp add: ev_def os1_def)
  have sw1: "set_waker drv1 h =
     Inr (drv1\<lparr>joydx_thread_wakers :=
            (joydx_thread_wakers drv1)[nat (1 + joydx_num_joysticks drv1) := h]\<rparr>)" for h
    using enum_state_ok_bounds[OF ok] by (intro set_waker_bounds) (simp_all add: drv1_def)
  have restored: "drv1\<lparr>joydx_thread_wakers :=
            (joydx_thread_wakers drv1)[nat (1 + joydx_num_joysticks drv1) := 0]\<rparr> = drv"
    by (simp add: drv1_def same)
  have okb: "enum_state_ok (drv1\<lparr>joydx_thread_wakers :=
            (joydx_thread_wakers drv1)[nat (1 + joydx_num_joysticks drv1) := 0]\<rparr>)"
    unfolding restored by (rule ok)
  have acc: "open_handles (CloseHandle ev os1) = open_handles os"
    "live_interfaces (CloseHandle ev os1) = live_interfaces os"
    by (simp_all add: ev_def os1_def CloseHandle_def new_handle_def)
  have err: "enum_error drv1 os1 d =
      Inr (DIENUM_CONTINUE, drv,
           if d \<noteq> 0 then Release_interface d (CloseHandle ev os1) else CloseHandle ev os1)"
  proof (cases "CreateEvent_ok c")
    case True
    then have "ev \<noteq> 0" by (simp add: ev_def new_handle_def)
    from enum_error_waker[OF ok this, of os1 d] show ?thesis by (simp add: drv1_def)
  next
    case False
    then have e0: "ev = 0" "os1 = os" by (simp_all add: ev_def os1_def)
    have d1: "drv1 = drv" by (simp add: drv1_def e0 same)
    show ?thesis
      unfolding d1 e0 enum_error_no_waker[OF ok] by (simp add: CloseHandle_def)
  qed
  have run: "enum_wake_object drv os d c = enum_error drv1 os1 d"
  proof (cases "FAILED (hr_SetEventNotification c)")
    case True
    then show ?thesis
      by (simp add: enum_wake_object_def pr set_waker_ok[OF ok] bindE_simps drv1_def)
  next
    case False
    then have p: "hr_SetEventNotification c = DI_POLLEDDEVICE" "\<not> CreateWaitableTimer_ok c"
      using f by simp_all
    have "enum_wake_object drv os d c =
        enum_error (drv1\<lparr>joydx_thread_wakers :=
            (joydx_thread_wakers drv1)[nat (1 + joydx_num_joysticks drv1) := 0]\<rparr>)
          (CloseHandle ev os1) d"
      using p
      by (simp add: enum_wake_object_def pr set_waker_ok[OF ok] sw1 bindE_simps
          drv1_def[symmetric] Let_def)
    also have "\<dots> = Inr (DIENUM_CONTINUE, drv,
           if d \<noteq> 0 then Release_interface d (CloseHandle ev os1) else CloseHandle ev os1)"
      unfolding restored by (rule enum_error_no_waker[OF ok])
    finally show ?thesis by (simp add: err)
  qed
  show ?thesis unfolding run err using acc by blast
qed

subsection \<open>Objects and capability maps\<close>

lemma zero_caps_wf: "caps_wf zero_caps"
  by (simp add: caps_wf_def zero_caps_def MAX_SLIDERS_def MAX_POVS_def MAX_BUTTONS_def)

lemma object_enum_callback_wf:
  assumes "caps_wf can"
  shows "\<exists>can'. object_enum_callback can obj = Some can' \<and> caps_wf can'"
  using assms
  by (cases "guidType obj")
     (auto simp add: object_enum_callback_def caps_wf_def arr_set_def
        MAX_SLIDERS_def MAX_POVS_def MAX_BUTTONS_def)

lemma EnumObjects_wf:
  "caps_wf can \<Longrightarrow> \<exists>can'. EnumObjects can objs = Some can' \<and> caps_wf can'"
proof (induction objs arbitrary: can)
  case Nil
  then show ?case by simp
next
  case (Cons obj objs)
  from object_enum_callback_wf[OF Cons.prems, of obj] obtain can1 where
    "object_enum_callback can obj = Some can1" "caps_wf can1" by blast
  then show ?case using Cons.IH[of can1] by simp
qed

subsection \<open>A controller whose set-up fails\<close>

lemma interface_accounting:
  assumes n1: "new_interface os = (d1, os1)" and n2: "new_interface os1 = (d, os2)"
  shows "live_interfaces (Release_interface d1 os1) = live_interfaces os"
    "open_handles (Release_interface d1 os1) = open_handles os"
    "live_interfaces (Release_interface d (Release_interface d1 os2)) = live_interfaces os"
    "open_handles (Release_interface d (Release_interface d1 os2)) = open_handles os"
    "d \<noteq> 0"
  using n1 n2 by (auto simp add: new_interface_def Release_interface_def)

lemma enum_callback_entry:
  assumes ok: "enum_state_ok drv" and dbg: "debugmode \<longrightarrow> enum_entry_assertion drv"
  shows "joystick_enum_callback debugmode drv os c =
    (let drv1 = drv\<lparr>joydx_joystick := (joydx_joystick drv)[nat (joydx_num_joysticks drv) := zero_joystick]\<rparr> in
          if FAILED (hr_CreateDevice c) then enum_error drv1 os 0
          else
            let (dinput_device1, os1) = new_interface os in
            if FAILED (hr_QueryInterface c)
            then enum_error drv1 (Release_interface dinput_device1 os1) 0
            else
              let (dinput_device, os2) = new_interface os1;
                  os3 = Release_interface dinput_device1 os2 in
              if FAILED (hr_SetCooperativeLevel c) then enum_error drv1 os3 dinput_device
              else
                bindE (liftO (EnumObjects (caps_and_names zero_joystick) (objects c))) (\<lambda>can.
                  bindE (set_slot drv1 (zero_joystick\<lparr>caps_and_names := can\<rparr>)) (\<lambda>drv2.
                    if FAILED (hr_EnumObjects c) then enum_error drv2 os3 dinput_device
                    else if FAILED (hr_SetDataFormat c) then enum_error drv2 os3 dinput_device
                    else if FAILED (hr_SetProperty_RANGE c) then enum_error drv2 os3 dinput_device
                    else if FAILED (hr_SetProperty_DEADZONE c) then enum_error drv2 os3 dinput_device
                    else if FAILED (hr_SetProperty_BUFFERSIZE c) then enum_error drv2 os3 dinput_device
                    else
                      bindE (liftO (fill_joystick_info_using_caps_and_names
                                      (zero_joystick\<lparr>caps_and_names := can\<rparr>))) (\<lambda>joy.
                        bindE (set_slot drv2
                                 (joy\<lparr>parent := (parent joy)\<lparr>num := joydx_num_joysticks drv2\<rparr>,
                                      device := dinput_device, gotten := False\<rparr>))
                          (\<lambda>drv3. enum_wake_object drv3 os3 dinput_device c)))))"
proof -
  have w: "arr_get (joydx_thread_wakers drv) (JOYSTICK_WAKER (joydx_num_joysticks drv)) = Some 0"
    using enum_state_ok_bounds[OF ok] by (simp add: arr_get_def JOYSTICK_WAKER_def)
  have a1: "\<not> ASSERT_fails debugmode (enum_entry_assertion drv)"
    using dbg by (simp add: ASSERT_fails_def)
  have a2: "\<not> ASSERT_fails debugmode True"
    by (simp add: ASSERT_fails_def)
  show ?thesis
    unfolding joystick_enum_callback_def
    by (simp add: a1 a2 w set_slot_ok[OF ok] bindE_simps Let_def)
qed

lemma enum_callback_fails:
  assumes ok: "enum_state_ok drv" and dbg: "debugmode \<longrightarrow> enum_entry_assertion drv"
    and f: "init_fails c"
  shows "\<exists>joy os'. joystick_enum_callback debugmode drv os c =
       Inr (DIENUM_CONTINUE,
            drv\<lparr>joydx_joystick := (joydx_joystick drv)[nat (joydx_num_joysticks drv) := joy]\<rparr>,
            os') \<and>
     open_handles os' = open_handles os \<and> live_interfaces os' = live_interfaces os"
proof -
  define n where "n = nat (joydx_num_joysticks drv)"
  define slot where "slot joy = drv\<lparr>joydx_joystick := (joydx_joystick drv)[n := joy]\<rparr>" for joy
  have oks: "enum_state_ok (slot joy)" for joy
    unfolding slot_def by (rule enum_state_ok_slot[OF ok])
  have count: "joydx_num_joysticks (slot joy) = joydx_num_joysticks drv" for joy
    by (simp add: slot_def)
  have again: "set_slot (slot joy) joy' = Inr (slot joy')" for joy joy'
    unfolding set_slot_ok[OF oks] by (simp add: slot_def n_def)
  have err: "enum_error (slot joy) os' d =
      Inr (DIENUM_CONTINUE, slot joy, if d \<noteq> 0 then Release_interface d os' else os')" for joy os' d
    by (rule enum_error_no_waker[OF oks])
  obtain d1 os1 where n1: "new_interface os = (d1, os1)" by (cases "new_interface os")
  obtain d os2 where n2: "new_interface os1 = (d, os2)" by (cases "new_interface os1")
  note acc = interface_accounting[OF n1 n2]
  define os3 where "os3 = Release_interface d1 os2"
  obtain can where can: "EnumObjects (caps_and_names zero_joystick) (objects c) = Some can"
    and wf: "caps_wf can"
    using EnumObjects_wf[OF zero_caps_wf, of "objects c"] by (auto simp add: zero_joystick_def)
  obtain joy where joy: "fill_joystick_info_using_caps_and_names
      (zero_joystick\<lparr>caps_and_names := can\<rparr>) = Some joy"
    using fill_joy_wf[OF wf] by blast
  define joy3 where "joy3 = joy\<lparr>parent := (parent joy)\<lparr>num := joydx_num_joysticks drv\<rparr>,
                                      device := d, gotten := False\<rparr>"
  have run: "joystick_enum_callback debugmode drv os c =
    (if FAILED (hr_CreateDevice c) then Inr (DIENUM_CONTINUE, slot zero_joystick, os)
     else if FAILED (hr_QueryInterface c)
       then Inr (DIENUM_CONTINUE, slot zero_joystick, Release_interface d1 os1)
     else if FAILED (hr_SetCooperativeLevel c)
       then Inr (DIENUM_CONTINUE, slot zero_joystick, Release_interface d os3)
     else if FAILED (hr_EnumObjects c) \<or> FAILED (hr_SetDataFormat c) \<or>
          FAILED (hr_SetProperty_RANGE c) \<or> FAILED (hr_SetProperty_DEADZONE c) \<or>
          FAILED (hr_SetProperty_BUFFERSIZE c)
       then Inr (DIENUM_CONTINUE, slot (zero_joystick\<lparr>caps_and_names := can\<rparr>),
                 Release_interface d os3)
     else enum_wake_object (slot joy3) os3 d c)"
    unfolding enum_callback_entry[OF ok dbg]
    by (simp add: Let_def n1 n2 can joy liftO_simps bindE_simps again err count acc(5)
        slot_def[symmetric] n_def[symmetric] os3_def[symmetric] joy3_def[symmetric])
  consider (a) "FAILED (hr_CreateDevice c)"
    | (b) "\<not> FAILED (hr_CreateDevice c)" "FAILED (hr_QueryInterface c)"
    | (c) "\<not> FAILED (hr_CreateDevice c)" "\<not> FAILED (hr_QueryInterface c)"
          "FAILED (hr_SetCooperativeLevel c)"
    | (d) "\<not> FAILED (hr_CreateDevice c)" "\<not> FAILED (hr_QueryInterface c)"
          "\<not> FAILED (hr_SetCooperativeLevel c)"
          "FAILED (hr_EnumObjects c) \<or> FAILED (hr_SetDataFormat c) \<or>
          FAILED (hr_SetProperty_RANGE c) \<or> FAILED (hr_SetProperty_DEADZONE c) \<or>
          FAILED (hr_SetProperty_BUFFERSIZE c)"
    | (e) "\<not> FAILED (hr_CreateDevice c)" "\<not> FAILED (hr_QueryInterface c)"
          "\<not> FAILED (hr_SetCooperativeLevel c)"
          "\<not> (FAILED (hr_EnumObjects c) \<or> FAILED (hr_SetDataFormat c) \<or>
          FAILED (hr_SetProperty_RANGE c) \<or> FAILED (hr_SetProperty_DEADZONE c) \<or>
          FAILED (hr_SetProperty_BUFFERSIZE c))"
    by blast
  note cases = this
  have fin: "?thesis"
    if "joystick_enum_callback debugmode drv os c = Inr (DIENUM_CONTINUE, slot j, os')"
      "open_handles os' = open_handles os" "live_interfaces os' = live_interfaces os" for j os'
    using that unfolding slot_def n_def by blast
  from cases show ?thesis
  proof cases
    case a
    then show ?thesis by (intro fin[of zero_joystick os]) (simp_all add: run)
  next
    case b
    then show ?thesis
      by (intro fin[of zero_joystick "Release_interface d1 os1"]) (simp_all add: run acc)
  next
    case c
    then show ?thesis
      by (intro fin[of zero_joystick "Release_interface d os3"]) (simp_all add: run acc os3_def)
  next
    case d
    then have r: "joystick_enum_callback debugmode drv os c =
        Inr (DIENUM_CONTINUE, slot (zero_joystick\<lparr>caps_and_names := can\<rparr>),
                 Release_interface d os3)"
      unfolding run by simp
    show ?thesis by (rule fin[OF r]) (simp_all add: acc os3_def)
  next
    case e
    then have r: "joystick_enum_callback debugmode drv os c = enum_wake_object (slot joy3) os3 d c"
      unfolding run by simp
    from e f have nf: "FAILED (hr_SetEventNotification c) \<or>
      (hr_SetEventNotification c = DI_POLLEDDEVICE \<and> \<not> CreateWaitableTimer_ok c)"
      by (simp add: init_fails_def)
    from enum_wake_object_fails[OF oks nf, of joy3 os3 d] obtain os' where
      w: "enum_wake_object (slot joy3) os3 d c =
         Inr (DIENUM_CONTINUE, slot joy3, if d \<noteq> 0 then Release_interface d os' else os')"
      and h: "open_handles os' = open_handles os3" "live_interfaces os' = live_interfaces os3"
      by blast
    have l: "live_interfaces (Release_interface d os') = live_interfaces os"
      using acc(3) h(2) by (simp add: Release_interface_def os3_def)
    have o: "open_handles (Release_interface d os') = open_handles os"
      using acc(4) h(1) by (simp add: Release_interface_def os3_def)
    have r': "joystick_enum_callback debugmode drv os c =
        Inr (DIENUM_CONTINUE, slot joy3, Release_interface d os')"
      unfolding r w using acc(5) by simp
    show ?thesis by (rule fin[OF r' o l])
  qed
qed

lemma initial_driver_enum_state_ok: "enum_state_ok initial_driver"
  by (simp add: enum_state_ok_def initial_driver_def MAX_JOYSTICKS_def JOYSTICK_WAKER_def)

lemma bad_controllers_fail:
  "init_fails bad_buffer_controller" "init_fails bad_notification_controller"
  by (simp_all add: init_fails_def bad_buffer_controller_def bad_notification_controller_def
      good_controller_def)

text \<open>
  A controller whose set-up fails at a step the callback tests (one of the nine backend
  calls, or the waitable timer of a polled device), met while the table has room: the
  callback gives back what it had acquired. Every handle it opened is closed and the
  wake handle of the slot is null again, every device interface it obtained is
  released. It asks for the next controller, the device count and the wake handles are
  as they were on entry, and only the record of the slot at the count, which the next
  controller overwrites, has changed; enumeration goes on from there with the remaining
  controllers.
\<close>

lemma tested_failure_is_discarded:
  assumes ok: "enum_state_ok drv"
    and dbg: "debugmode \<longrightarrow> enum_entry_assertion drv"
    and f: "init_fails c"
  shows "\<exists>drv' os'.
     joystick_enum_callback debugmode drv os c = Inr (DIENUM_CONTINUE, drv', os') \<and>
     joydx_num_joysticks drv' = joydx_num_joysticks drv \<and>
     joydx_thread_wakers drv' = joydx_thread_wakers drv \<and>
     joydx_thread_wakers drv' ! nat (JOYSTICK_WAKER (joydx_num_joysticks drv)) = 0 \<and>
     open_handles os' = open_handles os \<and>
     live_interfaces os' = live_interfaces os \<and>
     (\<forall>k. k \<noteq> nat (joydx_num_joysticks drv) \<longrightarrow>
        joydx_joystick drv' ! k = joydx_joystick drv ! k) \<and>
     enum_state_ok drv' \<and>
     (\<forall>cs. IDirectInput_EnumDevices debugmode drv os (c # cs) =
        IDirectInput_EnumDevices debugmode drv' os' cs)"
proof -
  from enum_callback_fails[OF ok dbg f, of os] obtain joy os' where
    r: "joystick_enum_callback debugmode drv os c =
       Inr (DIENUM_CONTINUE,
            drv\<lparr>joydx_joystick := (joydx_joystick drv)[nat (joydx_num_joysticks drv) := joy]\<rparr>,
            os')"
    and h: "open_handles os' = open_handles os" "live_interfaces os' = live_interfaces os"
    by blast
  define drv' where
    "drv' = drv\<lparr>joydx_joystick := (joydx_joystick drv)[nat (joydx_num_joysticks drv) := joy]\<rparr>"
  have ok': "enum_state_ok drv'"
    unfolding drv'_def by (rule enum_state_ok_slot[OF ok])
  have w: "joydx_thread_wakers drv' ! nat (JOYSTICK_WAKER (joydx_num_joysticks drv)) = 0"
    using ok by (simp add: drv'_def enum_state_ok_def)
  have rest: "\<forall>k. k \<noteq> nat (joydx_num_joysticks drv) \<longrightarrow>
        joydx_joystick drv' ! k = joydx_joystick drv ! k"
    by (simp add: drv'_def)
  have go: "\<forall>cs. IDirectInput_EnumDevices debugmode drv os (c # cs) =
        IDirectInput_EnumDevices debugmode drv' os' cs"
    by (simp add: r bindE_simps DIENUM_CONTINUE_def drv'_def)
  have "joystick_enum_callback debugmode drv os c = Inr (DIENUM_CONTINUE, drv', os')"
    by (simp add: r drv'_def)
  moreover have "joydx_num_joysticks drv' = joydx_num_joysticks drv"
    "joydx_thread_wakers drv' = joydx_thread_wakers drv"
    by (simp_all add: drv'_def)
  ultimately show ?thesis
    using h w rest ok' go by (intro exI[of _ drv'] exI[of _ os'] conjI)
qed

text \<open>
  The lemma at the driver before its first device, in a release build, for the
  controller that refuses notifications: the event created for it is closed again, both
  interfaces are released, and the enumeration goes on with the next controller.
\<close>

lemma tested_failure_is_discarded_example:
  "enum_state_ok initial_driver \<and> init_fails bad_notification_controller \<and>
   (\<exists>drv' os'.
      joystick_enum_callback False initial_driver initial_os bad_notification_controller =
        Inr (DIENUM_CONTINUE, drv', os') \<and>
      joydx_num_joysticks drv' = 0 \<and>
      joydx_thread_wakers drv' = replicate 9 0 \<and>
      open_handles os' = [] \<and> live_interfaces os' = [] \<and>
      IDirectInput_EnumDevices False initial_driver initial_os
         [bad_notification_controller, good_controller] =
        IDirectInput_EnumDevices False drv' os' [good_controller])"
proof -
  have i: "joydx_num_joysticks initial_driver = 0"
    "joydx_thread_wakers initial_driver = replicate 9 0"
    "open_handles initial_os = []" "live_interfaces initial_os = []"
    by (simp_all add: initial_driver_def initial_os_def MAX_JOYSTICKS_def)
  from tested_failure_is_discarded[of initial_driver False bad_notification_controller initial_os,
      OF initial_driver_enum_state_ok _ bad_controllers_fail(2)]
  obtain drv' os' where
    r: "joystick_enum_callback False initial_driver initial_os bad_notification_controller =
        Inr (DIENUM_CONTINUE, drv', os')"
      "joydx_num_joysticks drv' = joydx_num_joysticks initial_driver"
      "joydx_thread_wakers drv' = joydx_thread_wakers initial_driver"
      "open_handles os' = open_handles initial_os"
      "live_interfaces os' = live_interfaces initial_os"
    and go: "\<forall>cs. IDirectInput_EnumDevices False initial_driver initial_os
         (bad_notification_controller # cs) =
        IDirectInput_EnumDevices False drv' os' cs"
    by auto
  from go have "IDirectInput_EnumDevices False initial_driver initial_os
         [bad_notification_controller, good_controller] =
        IDirectInput_EnumDevices False drv' os' [good_controller]"
    by (rule spec)
  with r show ?thesis
    unfolding i
    using initial_driver_enum_state_ok bad_controllers_fail(2)
    by (intro conjI exI[of _ drv'] exI[of _ os'])
qed

subsection \<open>A controller whose set-up succeeds\<close>

text \<open>The wake-object stage when it succeeds: the slot gets a handle and is counted.\<close>

lemma enum_wake_object_succeeds:
  assumes ok: "enum_state_ok drv"
    and nf: "\<not> FAILED (hr_SetEventNotification c)"
    and t: "hr_SetEventNotification c = DI_POLLEDDEVICE \<longrightarrow> CreateWaitableTimer_ok c"
  shows "\<exists>h os'. enum_wake_object drv os d c =
       Inr (DIENUM_CONTINUE,
            drv\<lparr>joydx_thread_wakers :=
                   (joydx_thread_wakers drv)[nat (1 + joydx_num_joysticks drv) := h],
                 joydx_num_joysticks := joydx_num_joysticks drv + 1\<rparr>, os')"
proof -
  define os1 where "os1 = (if CreateEvent_ok c then snd (new_handle os) else os)"
  define ev where "ev = (if CreateEvent_ok c then fst (new_handle os) else 0)"
  define drv1 where "drv1 = drv\<lparr>joydx_thread_wakers :=
            (joydx_thread_wakers drv)[nat (1 + joydx_num_joysticks drv) := ev]\<rparr>"
  have pr: "(if CreateEvent_ok c then new_handle os else (0, os)) = (ev, os1)"
    by (simp add: ev_def os1_def)
  have sw1: "set_waker drv1 h =
     Inr (drv\<lparr>joydx_thread_wakers :=
            (joydx_thread_wakers drv)[nat (1 + joydx_num_joysticks drv) := h]\<rparr>)" for h
  proof -
    have "set_waker drv1 h = Inr (drv1\<lparr>joydx_thread_wakers :=
            (joydx_thread_wakers drv1)[nat (1 + joydx_num_joysticks drv1) := h]\<rparr>)"
      using enum_state_ok_bounds[OF ok] by (intro set_waker_bounds) (simp_all add: drv1_def)
    then show ?thesis by (simp add: drv1_def)
  qed
  show ?thesis
  proof (cases "hr_SetEventNotification c = DI_POLLEDDEVICE")
    case True
    with t have ct: "CreateWaitableTimer_ok c" by simp
    have nz: "fst (new_handle (CloseHandle ev os1)) \<noteq> 0"
      by (simp add: new_handle_def)
    obtain tm os3 where n3: "new_handle (CloseHandle ev os1) = (tm, os3)"
      by (cases "new_handle (CloseHandle ev os1)")
    with nz have tz: "tm \<noteq> 0" by simp
    have "enum_wake_object drv os d c =
       Inr (DIENUM_CONTINUE,
            drv\<lparr>joydx_thread_wakers :=
                   (joydx_thread_wakers drv)[nat (1 + joydx_num_joysticks drv) := tm],
                 joydx_num_joysticks := joydx_num_joysticks drv + 1\<rparr>, os3)"
      using True nf ct tz
      by (simp add: enum_wake_object_def pr set_waker_ok[OF ok] sw1 bindE_simps
          drv1_def[symmetric] Let_def n3)
    then show ?thesis by blast
  next
    case False
    have "enum_wake_object drv os d c =
       Inr (DIENUM_CONTINUE,
            drv\<lparr>joydx_thread_wakers :=
                   (joydx_thread_wakers drv)[nat (1 + joydx_num_joysticks drv) := ev],
                 joydx_num_joysticks := joydx_num_joysticks drv + 1\<rparr>, os1)"
      using False nf
      by (simp add: enum_wake_object_def pr set_waker_ok[OF ok] bindE_simps Let_def)
    then show ?thesis by blast
  qed
qed

lemma enum_callback_succeeds:
  assumes ok: "enum_state_ok drv" and dbg: "debugmode \<longrightarrow> enum_entry_assertion drv"
    and nf: "\<not> init_fails c"
  shows "\<exists>joy h os'. joystick_enum_callback debugmode drv os c =
       Inr (DIENUM_CONTINUE,
            drv\<lparr>joydx_joystick := (joydx_joystick drv)[nat (joydx_num_joysticks drv) := joy],
                 joydx_thread_wakers :=
                   (joydx_thread_wakers drv)[nat (1 + joydx_num_joysticks drv) := h],
                 joydx_num_joysticks := joydx_num_joysticks drv + 1\<rparr>, os') \<and>
       joy_wf joy \<and> \<not> gotten joy \<and> num (parent joy) = joydx_num_joysticks drv"
proof -
  define n where "n = nat (joydx_num_joysticks drv)"
  define slot where "slot joy = drv\<lparr>joydx_joystick := (joydx_joystick drv)[n := joy]\<rparr>" for joy
  have oks: "enum_state_ok (slot joy)" for joy
    unfolding slot_def by (rule enum_state_ok_slot[OF ok])
  have count: "joydx_num_joysticks (slot joy) = joydx_num_joysticks drv" for joy
    by (simp add: slot_def)
  have again: "set_slot (slot joy) joy' = Inr (slot joy')" for joy joy'
    unfolding set_slot_ok[OF oks] by (simp add: slot_def n_def)
  obtain d1 os1 where n1: "new_interface os = (d1, os1)" by (cases "new_interface os")
  obtain d os2 where n2: "new_interface os1 = (d, os2)" by (cases "new_interface os1")
  define os3 where "os3 = Release_interface d1 os2"
  obtain can where can: "EnumObjects (caps_and_names zero_joystick) (objects c) = Some can"
    and wf: "caps_wf can"
    using EnumObjects_wf[OF zero_caps_wf, of "objects c"] by (auto simp add: zero_joystick_def)
  obtain joy where joy: "fill_joystick_info_using_caps_and_names
      (zero_joystick\<lparr>caps_and_names := can\<rparr>) = Some joy" and jwf: "joy_wf joy"
    using fill_joy_wf[OF wf] by blast
  define joy3 where "joy3 = joy\<lparr>parent := (parent joy)\<lparr>num := joydx_num_joysticks drv\<rparr>,
                                      device := d, gotten := False\<rparr>"
  have j3: "joy_wf joy3" "\<not> gotten joy3" "num (parent joy3) = joydx_num_joysticks drv"
    using jwf by (simp_all add: joy3_def joy_wf_def)
  from nf have g: "\<not> FAILED (hr_CreateDevice c)" "\<not> FAILED (hr_QueryInterface c)"
    "\<not> FAILED (hr_SetCooperativeLevel c)" "\<not> FAILED (hr_EnumObjects c)"
    "\<not> FAILED (hr_SetDataFormat c)" "\<not> FAILED (hr_SetProperty_RANGE c)"
    "\<not> FAILED (hr_SetProperty_DEADZONE c)" "\<not> FAILED (hr_SetProperty_BUFFERSIZE c)"
    and nfe: "\<not> FAILED (hr_SetEventNotification c)"
    and t: "hr_SetEventNotification c = DI_POLLEDDEVICE \<longrightarrow> CreateWaitableTimer_ok c"
    by (simp_all add: init_fails_def)
  have run: "joystick_enum_callback debugmode drv os c = enum_wake_object (slot joy3) os3 d c"
    unfolding enum_callback_entry[OF ok dbg]
    by (simp add: Let_def n1 n2 can joy liftO_simps bindE_simps again count g
        slot_def[symmetric] n_def[symmetric] os3_def[symmetric] joy3_def[symmetric])
  from enum_wake_object_succeeds[OF oks nfe t, of joy3 os3 d] obtain h os' where
    "enum_wake_object (slot joy3) os3 d c =
       Inr (DIENUM_CONTINUE,
            (slot joy3)\<lparr>joydx_thread_wakers :=
                   (joydx_thread_wakers (slot joy3))[nat (1 + joydx_num_joysticks (slot joy3)) := h],
                 joydx_num_joysticks := joydx_num_joysticks (slot joy3) + 1\<rparr>, os')"
    by blast
  then have "joystick_enum_callback debugmode drv os c =
       Inr (DIENUM_CONTINUE,
            drv\<lparr>joydx_joystick := (joydx_joystick drv)[nat (joydx_num_joysticks drv) := joy3],
                 joydx_thread_wakers :=
                   (joydx_thread_wakers drv)[nat (1 + joydx_num_joysticks drv) := h],
                 joydx_num_joysticks := joydx_num_joysticks drv + 1\<rparr>, os')"
    unfolding run by (simp add: slot_def n_def)
  with j3 show ?thesis by blast
qed

subsection \<open>A controller whose event cannot be created\<close>

lemma enum_wake_object_null_event:
  assumes ok: "enum_state_ok drv"
    and ne: "\<not> CreateEvent_ok c"
    and nf: "\<not> FAILED (hr_SetEventNotification c)"
    and np: "hr_SetEventNotification c \<noteq> DI_POLLEDDEVICE"
  shows "enum_wake_object drv os d c =
     Inr (DIENUM_CONTINUE, drv\<lparr>joydx_num_joysticks := joydx_num_joysticks drv + 1\<rparr>, os)"
proof -
  have same: "(joydx_thread_wakers drv)[nat (1 + joydx_num_joysticks drv) := 0] =
      joydx_thread_wakers drv"
    using enum_state_ok_bounds(5)[OF ok] by (metis list_update_id)
  show ?thesis
    using ne nf np
    by (simp add: enum_wake_object_def set_waker_ok[OF ok] bindE_simps same)
qed

lemma enum_callback_to_wake_object:
  assumes ok: "enum_state_ok drv" and dbg: "debugmode \<longrightarrow> enum_entry_assertion drv"
    and g: "\<not> FAILED (hr_CreateDevice c)" "\<not> FAILED (hr_QueryInterface c)"
      "\<not> FAILED (hr_SetCooperativeLevel c)" "\<not> FAILED (hr_EnumObjects c)"
      "\<not> FAILED (hr_SetDataFormat c)" "\<not> FAILED (hr_SetProperty_RANGE c)"
      "\<not> FAILED (hr_SetProperty_DEADZONE c)" "\<not> FAILED (hr_SetProperty_BUFFERSIZE c)"
  shows "\<exists>joy os3. joystick_enum_callback debugmode drv os c =
       enum_wake_object
         (drv\<lparr>joydx_joystick := (joydx_joystick drv)[nat (joydx_num_joysticks drv) := joy]\<rparr>)
         os3 (device joy) c \<and>
     joy_wf joy \<and> \<not> gotten joy \<and> num (parent joy) = joydx_num_joysticks drv \<and>
     device joy \<noteq> 0 \<and> open_handles os3 = open_handles os \<and>
     live_interfaces os3 = device joy # live_interfaces os"
proof -
  define n where "n = nat (joydx_num_joysticks drv)"
  define slot where "slot joy = drv\<lparr>joydx_joystick := (joydx_joystick drv)[n := joy]\<rparr>" for joy
  have oks: "enum_state_ok (slot joy)" for joy
    unfolding slot_def by (rule enum_state_ok_slot[OF ok])
  have count: "joydx_num_joysticks (slot joy) = joydx_num_joysticks drv" for joy
    by (simp add: slot_def)
  have again: "set_slot (slot joy) joy' = Inr (slot joy')" for joy joy'
    unfolding set_slot_ok[OF oks] by (simp add: slot_def n_def)
  obtain d1 os1 where n1: "new_interface os = (d1, os1)" by (cases "new_interface os")
  obtain d os2 where n2: "new_interface os1 = (d, os2)" by (cases "new_interface os1")
  define os3 where "os3 = Release_interface d1 os2"
  have acc: "d \<noteq> 0" "open_handles os3 = open_handles os"
    "live_interfaces os3 = d # live_interfaces os"
    using n1 n2 by (auto simp add: os3_def new_interface_def Release_interface_def)
  obtain can where can: "EnumObjects (caps_and_names zero_joystick) (objects c) = Some can"
    and wf: "caps_wf can"
    using EnumObjects_wf[OF zero_caps_wf, of "objects c"] by (auto simp add: zero_joystick_def)
  obtain joy where joy: "fill_joystick_info_using_caps_and_names
      (zero_joystick\<lparr>caps_and_names := can\<rparr>) = Some joy" and jwf: "joy_wf joy"
    using fill_joy_wf[OF wf] by blast
  define joy3 where "joy3 = joy\<lparr>parent := (parent joy)\<lparr>num := joydx_num_joysticks drv\<rparr>,
                                      device := d, gotten := False\<rparr>"
  have j3: "joy_wf joy3" "\<not> gotten joy3" "num (parent joy3) = joydx_num_joysticks drv"
    "device joy3 = d"
    using jwf by (simp_all add: joy3_def joy_wf_def)
  have run: "joystick_enum_callback debugmode drv os c = enum_wake_object (slot joy3) os3 d c"
    unfolding enum_callback_entry[OF ok dbg]
    by (simp add: Let_def n1 n2 can joy liftO_simps bindE_simps again count g
        slot_def[symmetric] n_def[symmetric] os3_def[symmetric] joy3_def[symmetric])
  show ?thesis
    using j3 acc run unfolding slot_def n_def
    by (intro exI[of _ joy3] exI[of _ os3]) simp
qed

text \<open>
  C8. Not every failure of a set-up step is met by a discard. The callback stores the
  result of \<^verbatim>\<open>CreateEvent\<close> in the wake slot (line 585) and never tests it, although it
  does test the result of \<^verbatim>\<open>CreateWaitableTimer\<close> (line 610). When \<^verbatim>\<open>CreateEvent\<close>
  returns \<^verbatim>\<open>NULL\<close>, the backend calls succeed and the device is not a polled one, the
  callback counts the device: it occupies the slot at the count, its wake handle is
  null, and its device interface is kept.
\<close>

theorem unchecked_event_counts_the_device:
  assumes ok: "enum_state_ok drv" and dbg: "debugmode \<longrightarrow> enum_entry_assertion drv"
    and g: "\<not> init_fails c"
    and ne: "\<not> CreateEvent_ok c"
    and np: "hr_SetEventNotification c \<noteq> DI_POLLEDDEVICE"
  shows "\<exists>joy os'.
     joystick_enum_callback debugmode drv os c =
       Inr (DIENUM_CONTINUE,
            drv\<lparr>joydx_joystick := (joydx_joystick drv)[nat (joydx_num_joysticks drv) := joy],
                 joydx_num_joysticks := joydx_num_joysticks drv + 1\<rparr>, os') \<and>
     joydx_thread_wakers drv ! nat (JOYSTICK_WAKER (joydx_num_joysticks drv)) = 0 \<and>
     num (parent joy) = joydx_num_joysticks drv \<and>
     open_handles os' = open_handles os \<and>
     live_interfaces os' = device joy # live_interfaces os"
proof -
  from g have g': "\<not> FAILED (hr_CreateDevice c)" "\<not> FAILED (hr_QueryInterface c)"
    "\<not> FAILED (hr_SetCooperativeLevel c)" "\<not> FAILED (hr_EnumObjects c)"
    "\<not> FAILED (hr_SetDataFormat c)" "\<not> FAILED (hr_SetProperty_RANGE c)"
    "\<not> FAILED (hr_SetProperty_DEADZONE c)" "\<not> FAILED (hr_SetProperty_BUFFERSIZE c)"
    and nf: "\<not> FAILED (hr_SetEventNotification c)"
    by (simp_all add: init_fails_def)
  from enum_callback_to_wake_object[OF ok dbg g', of os] obtain joy os3 where
    r: "joystick_enum_callback debugmode drv os c =
       enum_wake_object
         (drv\<lparr>joydx_joystick := (joydx_joystick drv)[nat (joydx_num_joysticks drv) := joy]\<rparr>)
         os3 (device joy) c"
    and j: "num (parent joy) = joydx_num_joysticks drv"
    and h: "open_handles os3 = open_handles os"
      "live_interfaces os3 = device joy # live_interfaces os"
    by blast
  have w: "joydx_thread_wakers drv ! nat (JOYSTICK_WAKER (joydx_num_joysticks drv)) = 0"
    using ok by (simp add: enum_state_ok_def)
  have "joystick_enum_callback debugmode drv os c =
       Inr (DIENUM_CONTINUE,
            drv\<lparr>joydx_joystick := (joydx_joystick drv)[nat (joydx_num_joysticks drv) := joy],
                 joydx_num_joysticks := joydx_num_joysticks drv + 1\<rparr>, os3)"
    unfolding r
    by (simp add: enum_wake_object_null_event[OF enum_state_ok_slot[OF ok] ne nf np])
  with w j h show ?thesis by (intro exI[of _ joy] exI[of _ os3]) simp
qed

lemma no_event_controller_facts:
  "\<not> init_fails no_event_controller" "\<not> CreateEvent_ok no_event_controller"
  "hr_SetEventNotification no_event_controller \<noteq> DI_POLLEDDEVICE"
  by (simp_all add: no_event_controller_def good_controller_def init_fails_def)

text \<open>
  The theorem at the driver before its first device, in a release build, for the
  controller whose event cannot be created.
\<close>

theorem unchecked_event_counts_the_device_witness:
  "enum_state_ok initial_driver \<and> \<not> init_fails no_event_controller \<and>
   \<not> CreateEvent_ok no_event_controller \<and>
   hr_SetEventNotification no_event_controller \<noteq> DI_POLLEDDEVICE \<and>
   (\<exists>drv' os'.
      joystick_enum_callback False initial_driver initial_os no_event_controller =
        Inr (DIENUM_CONTINUE, drv', os') \<and>
      joydx_num_joysticks drv' = 1 \<and>
      joydx_thread_wakers drv' = replicate 9 0 \<and>
      open_handles os' = [])"
proof -
  from unchecked_event_counts_the_device[of initial_driver False no_event_controller initial_os,
      OF initial_driver_enum_state_ok _ no_event_controller_facts]
  obtain joy os' where
    r: "joystick_enum_callback False initial_driver initial_os no_event_controller =
       Inr (DIENUM_CONTINUE,
            initial_driver\<lparr>joydx_joystick :=
                (joydx_joystick initial_driver)[nat (joydx_num_joysticks initial_driver) := joy],
              joydx_num_joysticks := joydx_num_joysticks initial_driver + 1\<rparr>, os')"
    and h: "open_handles os' = open_handles initial_os"
    by auto
  define drv' where "drv' = initial_driver\<lparr>joydx_joystick :=
                (joydx_joystick initial_driver)[nat (joydx_num_joysticks initial_driver) := joy],
              joydx_num_joysticks := joydx_num_joysticks initial_driver + 1\<rparr>"
  have d: "joydx_num_joysticks drv' = 1" "joydx_thread_wakers drv' = replicate 9 0"
    by (simp_all add: drv'_def initial_driver_def MAX_JOYSTICKS_def)
  have o: "open_handles os' = []" using h by (simp add: initial_os_def)
  from r have "joystick_enum_callback False initial_driver initial_os no_event_controller =
        Inr (DIENUM_CONTINUE, drv', os')" by (simp add: drv'_def)
  with d o show ?thesis
    using initial_driver_enum_state_ok no_event_controller_facts
    by (intro conjI exI[of _ drv'] exI[of _ os'])
qed


subsection \<open>The count and the bounds of the table\<close>

lemma enum_inv_state_ok:
  "enum_inv drv \<Longrightarrow> joydx_num_joysticks drv < 8 \<Longrightarrow> enum_state_ok drv"
  by (simp add: enum_inv_def enum_state_ok_def MAX_JOYSTICKS_def JOYSTICK_WAKER_def)

lemma initial_driver_enum_inv: "enum_inv initial_driver"
  by (simp add: enum_inv_def initial_driver_def MAX_JOYSTICKS_def JOYSTICK_WAKER_def)

lemma enum_inv_slot:
  "enum_inv drv \<Longrightarrow>
   enum_inv (drv\<lparr>joydx_joystick := (joydx_joystick drv)[k := joy]\<rparr>)"
  by (simp add: enum_inv_def)

lemma enum_inv_counted:
  assumes "enum_inv drv" "joydx_num_joysticks drv < 8"
  shows "enum_inv
     (drv\<lparr>joydx_joystick := (joydx_joystick drv)[i := joy],
          joydx_thread_wakers := (joydx_thread_wakers drv)[nat (1 + joydx_num_joysticks drv) := h],
          joydx_num_joysticks := joydx_num_joysticks drv + 1\<rparr>)"
  using assms by (auto simp add: enum_inv_def MAX_JOYSTICKS_def JOYSTICK_WAKER_def)

text \<open>One controller in a release build, while the table has room.\<close>

lemma enum_callback_release_step:
  assumes inv: "enum_inv drv" and r: "joydx_num_joysticks drv < 8"
  shows "\<exists>drv' os'. joystick_enum_callback False drv os c = Inr (DIENUM_CONTINUE, drv', os') \<and>
     enum_inv drv' \<and>
     joydx_num_joysticks drv' = joydx_num_joysticks drv + (if init_fails c then 0 else 1)"
proof (cases "init_fails c")
  case True
  from enum_callback_fails[OF enum_inv_state_ok[OF inv r] _ True, of False os]
  obtain joy os' where
    "joystick_enum_callback False drv os c =
       Inr (DIENUM_CONTINUE,
            drv\<lparr>joydx_joystick := (joydx_joystick drv)[nat (joydx_num_joysticks drv) := joy]\<rparr>,
            os')"
    by auto
  then show ?thesis using True enum_inv_slot[OF inv] by simp
next
  case False
  from enum_callback_succeeds[OF enum_inv_state_ok[OF inv r] _ False, of False os]
  obtain joy h os' where
    "joystick_enum_callback False drv os c =
       Inr (DIENUM_CONTINUE,
            drv\<lparr>joydx_joystick := (joydx_joystick drv)[nat (joydx_num_joysticks drv) := joy],
                 joydx_thread_wakers :=
                   (joydx_thread_wakers drv)[nat (1 + joydx_num_joysticks drv) := h],
                 joydx_num_joysticks := joydx_num_joysticks drv + 1\<rparr>, os')"
    by auto
  then show ?thesis using False enum_inv_counted[OF inv r] by simp
qed

text \<open>One more controller in a release build when the table is full.\<close>

lemma enum_callback_overrun:
  assumes "length (joydx_joystick drv) = 8" "joydx_num_joysticks drv = 8"
  shows "joystick_enum_callback False drv os c = Inl ArrayOutOfBounds"
  using assms
  by (simp add: joystick_enum_callback_def ASSERT_fails_def set_slot_def arr_set_def
      liftO_simps bindE_simps)

lemma enum_devices_room:
  assumes "enum_inv drv"
    "joydx_num_joysticks drv + int (length (filter (\<lambda>c. \<not> init_fails c) cs)) < 8"
  shows "\<exists>drv' os'. IDirectInput_EnumDevices False drv os cs = Inr (drv', os') \<and>
     enum_inv drv' \<and>
     joydx_num_joysticks drv' =
       joydx_num_joysticks drv + int (length (filter (\<lambda>c. \<not> init_fails c) cs))"
  using assms
proof (induction cs arbitrary: drv os)
  case Nil
  then show ?case by simp
next
  case (Cons c cs)
  from Cons.prems have r: "joydx_num_joysticks drv < 8" by (simp split: if_splits)
  from enum_callback_release_step[OF Cons.prems(1) r, of os c] obtain drv1 os1 where
    s: "joystick_enum_callback False drv os c = Inr (DIENUM_CONTINUE, drv1, os1)"
    "enum_inv drv1"
    "joydx_num_joysticks drv1 = joydx_num_joysticks drv + (if init_fails c then 0 else 1)"
    by blast
  from s(3) Cons.prems(2) have
    "joydx_num_joysticks drv1 + int (length (filter (\<lambda>c. \<not> init_fails c) cs)) < 8"
    by (simp split: if_splits)
  from Cons.IH[OF s(2) this, of os1] obtain drv' os' where
    "IDirectInput_EnumDevices False drv1 os1 cs = Inr (drv', os')" "enum_inv drv'"
    "joydx_num_joysticks drv' =
       joydx_num_joysticks drv1 + int (length (filter (\<lambda>c. \<not> init_fails c) cs))"
    by blast
  then show ?case using s by (simp add: bindE_simps DIENUM_CONTINUE_def)
qed

lemma enum_devices_overrun:
  assumes "enum_inv drv"
    "8 < joydx_num_joysticks drv + int (length (filter (\<lambda>c. \<not> init_fails c) cs))"
  shows "IDirectInput_EnumDevices False drv os cs = Inl ArrayOutOfBounds"
  using assms
proof (induction cs arbitrary: drv os)
  case Nil
  then show ?case by (simp add: enum_inv_def MAX_JOYSTICKS_def)
next
  case (Cons c cs)
  show ?case
  proof (cases "joydx_num_joysticks drv < 8")
    case True
    from enum_callback_release_step[OF Cons.prems(1) True, of os c] obtain drv1 os1 where
      s: "joystick_enum_callback False drv os c = Inr (DIENUM_CONTINUE, drv1, os1)"
      "enum_inv drv1"
      "joydx_num_joysticks drv1 = joydx_num_joysticks drv + (if init_fails c then 0 else 1)"
      by blast
    from s(3) Cons.prems(2) have
      "8 < joydx_num_joysticks drv1 + int (length (filter (\<lambda>c. \<not> init_fails c) cs))"
      by (simp split: if_splits)
    from Cons.IH[OF s(2) this, of os1] show ?thesis
      using s by (simp add: bindE_simps DIENUM_CONTINUE_def)
  next
    case False
    with Cons.prems(1) have "length (joydx_joystick drv) = 8" "joydx_num_joysticks drv = 8"
      by (simp_all add: enum_inv_def MAX_JOYSTICKS_def)
    from enum_callback_overrun[OF this] show ?thesis by (simp add: bindE_simps)
  qed
qed

lemma good_controller_ok: "\<not> init_fails good_controller"
  by (simp add: init_fails_def good_controller_def)

text \<open>
  C10. The entry assertion of the callback does not hold on every invocation, and the
  callback does write beyond the table. The driver starts with a count of 0, which
  \<^verbatim>\<open>joydx_init\<close> itself asserts, so the first invocation of an enumeration finds
  \<open>joydx_num_joysticks > 0\<close> false: in a debug build the enumeration of any attached
  controller stops at the assertion. In a release build, where the assertion is
  compiled out, nothing bounds the count: as soon as more than eight controllers
  are set up without a failure, the callback writes the record of index 8 of the
  8-entry table.
\<close>

theorem enumeration_breaks_entry_assertion_and_bounds:
  "\<not> enum_entry_assertion initial_driver \<and>
   IDirectInput_EnumDevices True initial_driver os (c # cs) = Inl AssertionFailed \<and>
   (8 < length (filter (\<lambda>c. \<not> init_fails c) ds) \<longrightarrow>
      IDirectInput_EnumDevices False initial_driver os ds = Inl ArrayOutOfBounds)"
proof -
  have a: "\<not> enum_entry_assertion initial_driver"
    by (simp add: enum_entry_assertion_def initial_driver_def)
  have b: "joystick_enum_callback True initial_driver os c = Inl AssertionFailed"
    by (simp add: joystick_enum_callback_def ASSERT_fails_def a)
  have c: "IDirectInput_EnumDevices True initial_driver os (c # cs) = Inl AssertionFailed"
    by (simp add: b bindE_simps)
  have d: "IDirectInput_EnumDevices False initial_driver os ds = Inl ArrayOutOfBounds"
    if "8 < length (filter (\<lambda>c. \<not> init_fails c) ds)"
    using that by (intro enum_devices_overrun[OF initial_driver_enum_inv])
      (simp add: initial_driver_def)
  from a c d show ?thesis by blast
qed

text \<open>
  The theorem at one attached controller in a debug build, and at nine controllers that
  all set up in a release build.
\<close>

theorem enumeration_breaks_entry_assertion_and_bounds_witness:
  "\<not> enum_entry_assertion initial_driver \<and>
   IDirectInput_EnumDevices True initial_driver initial_os [good_controller] = Inl AssertionFailed \<and>
   IDirectInput_EnumDevices False initial_driver initial_os (replicate 9 good_controller) =
     Inl ArrayOutOfBounds"
  using enumeration_breaks_entry_assertion_and_bounds
    [of initial_os good_controller "[]" "replicate 9 good_controller"]
  by (simp add: good_controller_ok)

text \<open>A controller whose set-up fails, met at the entry of a debug build or at a full table.\<close>

lemma enum_devices_fit:
  assumes "enum_inv drv" "joydx_num_joysticks drv + int (length cs) \<le> 8"
  shows "\<exists>drv' os'. IDirectInput_EnumDevices False drv os cs = Inr (drv', os') \<and>
     enum_inv drv' \<and>
     joydx_num_joysticks drv' =
       joydx_num_joysticks drv + int (length (filter (\<lambda>c. \<not> init_fails c) cs))"
  using assms
proof (induction cs arbitrary: drv os)
  case Nil
  then show ?case by simp
next
  case (Cons c cs)
  from Cons.prems have r: "joydx_num_joysticks drv < 8" by simp
  from enum_callback_release_step[OF Cons.prems(1) r, of os c] obtain drv1 os1 where
    s: "joystick_enum_callback False drv os c = Inr (DIENUM_CONTINUE, drv1, os1)"
    "enum_inv drv1"
    "joydx_num_joysticks drv1 = joydx_num_joysticks drv + (if init_fails c then 0 else 1)"
    by blast
  from s(3) Cons.prems(2) have "joydx_num_joysticks drv1 + int (length cs) \<le> 8"
    by (simp split: if_splits)
  from Cons.IH[OF s(2) this, of os1] obtain drv' os' where
    "IDirectInput_EnumDevices False drv1 os1 cs = Inr (drv', os')" "enum_inv drv'"
    "joydx_num_joysticks drv' =
       joydx_num_joysticks drv1 + int (length (filter (\<lambda>c. \<not> init_fails c) cs))"
    by blast
  then show ?case using s by (simp add: bindE_simps DIENUM_CONTINUE_def)
qed

lemma failing_device_faults:
  "init_fails bad_buffer_controller \<and>
   joystick_enum_callback True initial_driver initial_os bad_buffer_controller =
     Inl AssertionFailed \<and>
   (\<exists>drv8 os8.
      IDirectInput_EnumDevices False initial_driver initial_os (replicate 8 good_controller) =
        Inr (drv8, os8) \<and>
      joydx_num_joysticks drv8 = 8 \<and>
      joystick_enum_callback False drv8 os8 bad_buffer_controller = Inl ArrayOutOfBounds)"
proof -
  have a: "\<not> enum_entry_assertion initial_driver"
    by (simp add: enum_entry_assertion_def initial_driver_def)
  have b: "joystick_enum_callback True initial_driver initial_os bad_buffer_controller =
      Inl AssertionFailed"
    by (simp add: joystick_enum_callback_def ASSERT_fails_def a)
  have "joydx_num_joysticks initial_driver + int (length (replicate 8 good_controller)) \<le> 8"
    by (simp add: initial_driver_def)
  from enum_devices_fit[OF initial_driver_enum_inv this, of initial_os] obtain drv8 os8 where
    r: "IDirectInput_EnumDevices False initial_driver initial_os (replicate 8 good_controller) =
        Inr (drv8, os8)" "enum_inv drv8"
    "joydx_num_joysticks drv8 = joydx_num_joysticks initial_driver +
       int (length (filter (\<lambda>c. \<not> init_fails c) (replicate 8 good_controller)))"
    by blast
  from r(3) have c8: "joydx_num_joysticks drv8 = 8"
    by (simp add: good_controller_ok initial_driver_def)
  from r(2) have l8: "length (joydx_joystick drv8) = 8"
    by (simp add: enum_inv_def MAX_JOYSTICKS_def)
  from enum_callback_overrun[OF l8 c8]
  have "joystick_enum_callback False drv8 os8 bad_buffer_controller = Inl ArrayOutOfBounds" .
  with r(1) c8 b bad_controllers_fail(1) show ?thesis by blast
qed

end
